(* ===== verification/Prelude.thy ===== *)
theory Prelude
  imports Main "HOL-Library.Word"
begin

text \<open>
  Shared material of the development: names for the machine integers of the C++ sources, the
  little-endian byte encoding of integers (every Android ABI is little-endian), reading and
  writing runs of bytes in a flat 64-bit memory, and the generic list lemmas the component
  theories use. Facts that evaluate the model's codecs are collected in \<open>codec_simps\<close>;
  facts about memory accesses in \<open>mem_simps\<close>.
\<close>

unbundle bit_operations_syntax

named_theorems codec_simps \<open>lengths and inverses of the byte encoders\<close>
named_theorems mem_simps \<open>reading after writing in a flat memory\<close>

section \<open>Machine integers\<close>

type_synonym u8 = "8 word"
type_synonym u16 = "16 word"
type_synonym u32 = "32 word"
type_synonym u64 = "64 word"
type_synonym byte = u8

section \<open>Little-endian byte runs\<close>

fun le_bytes :: "nat \<Rightarrow> nat \<Rightarrow> byte list" where
  "le_bytes 0 v = []"
| "le_bytes (Suc n) v = of_nat v # le_bytes n (v div 256)"

fun le_nat :: "byte list \<Rightarrow> nat" where
  "le_nat [] = 0"
| "le_nat (b # bs) = unat b + 256 * le_nat bs"

lemma unat_byte_less: "unat (b :: byte) < 256"
proof -
  have "unat b < 2 ^ LENGTH(8)" by (rule unsigned_less)
  then show ?thesis by simp
qed

lemma byte_256 [simp]: "(256 :: byte) = 0"
  by (simp add: word_eq_iff_unsigned)

lemma length_le_bytes [simp, codec_simps]: "length (le_bytes n v) = n"
  by (induction n arbitrary: v) auto

lemma le_nat_le_bytes: "le_nat (le_bytes n v) = v mod 256 ^ n"
proof (induction n arbitrary: v)
  case 0
  then show ?case by simp
next
  case (Suc n)
  have "unat (of_nat v :: byte) = v mod 256"
    by (simp add: unat_of_nat)
  then show ?case
    by (simp add: Suc.IH mod_mult2_eq)
qed

lemma le_nat_bound: "le_nat bs < 256 ^ length bs"
proof (induction bs)
  case Nil
  then show ?case by simp
next
  case (Cons b bs)
  have "unat b < 256" by (rule unat_byte_less)
  with Cons.IH show ?case by simp
qed

lemma le_bytes_le_nat [simp]: "le_bytes (length bs) (le_nat bs) = bs"
proof (induction bs)
  case Nil
  then show ?case by simp
next
  case (Cons b bs)
  have "unat b < 256" by (rule unat_byte_less)
  with Cons.IH show ?case by simp
qed

lemma of_nat_unat_mod:
  "of_nat (unat (w :: 'a :: len word) mod 256 ^ n) = w" if "LENGTH('a) \<le> 8 * n"
proof -
  have "unat w < 2 ^ LENGTH('a)" by (rule unsigned_less)
  also have "(2::nat) ^ LENGTH('a) \<le> 2 ^ (8 * n)"
    using that by (simp add: power_increasing)
  also have "(2::nat) ^ (8 * n) = 256 ^ n"
    by (simp add: power_mult)
  finally show ?thesis by simp
qed

definition enc16 :: "u16 \<Rightarrow> byte list" where "enc16 w = le_bytes 2 (unat w)"
definition enc32 :: "u32 \<Rightarrow> byte list" where "enc32 w = le_bytes 4 (unat w)"
definition enc64 :: "u64 \<Rightarrow> byte list" where "enc64 w = le_bytes 8 (unat w)"
definition dec16 :: "byte list \<Rightarrow> u16" where "dec16 bs = of_nat (le_nat bs)"
definition dec32 :: "byte list \<Rightarrow> u32" where "dec32 bs = of_nat (le_nat bs)"
definition dec64 :: "byte list \<Rightarrow> u64" where "dec64 bs = of_nat (le_nat bs)"

lemma length_enc [simp, codec_simps]:
  "length (enc16 v) = 2" "length (enc32 w) = 4" "length (enc64 x) = 8"
  by (simp_all add: enc16_def enc32_def enc64_def)

lemma dec_enc [simp, codec_simps]:
  "dec16 (enc16 v) = v" "dec32 (enc32 w) = w" "dec64 (enc64 x) = x"
  by (simp_all add: enc16_def enc32_def enc64_def dec16_def dec32_def dec64_def le_nat_le_bytes
      of_nat_unat_mod [where n = 2, simplified] of_nat_unat_mod [where n = 4, simplified]
      of_nat_unat_mod [where n = 8, simplified])

section \<open>Flat memory\<close>

text \<open>
  A process memory is a total map from 64-bit addresses to bytes; address arithmetic wraps, as
  \<open>uintptr_t\<close> arithmetic does.
\<close>

type_synonym mem = "u64 \<Rightarrow> byte"

definition mem_read :: "mem \<Rightarrow> u64 \<Rightarrow> nat \<Rightarrow> byte list" where
  "mem_read m a n = map (\<lambda>i. m (a + of_nat i)) [0..<n]"

definition mem_write :: "mem \<Rightarrow> u64 \<Rightarrow> byte list \<Rightarrow> mem" where
  "mem_write m a bs = (\<lambda>x. if unat (x - a) < length bs then bs ! unat (x - a) else m x)"

definition in_region :: "u64 \<Rightarrow> u64 \<Rightarrow> nat \<Rightarrow> bool" where
  "in_region x a n \<longleftrightarrow> unat (x - a) < n"

lemma length_mem_read [simp, mem_simps]: "length (mem_read m a n) = n"
  by (simp add: mem_read_def)

lemma mem_read_0 [simp, mem_simps]: "mem_read m a 0 = []"
  by (simp add: mem_read_def)

lemma mem_read_nth: "i < n \<Longrightarrow> mem_read m a n ! i = m (a + of_nat i)"
  by (simp add: mem_read_def)

lemma mem_read_add: "mem_read m a (n + k) = mem_read m a n @ mem_read m (a + of_nat n) k"
proof (rule nth_equalityI)
  fix i assume "i < length (mem_read m a (n + k))"
  then show "mem_read m a (n + k) ! i = (mem_read m a n @ mem_read m (a + of_nat n) k) ! i"
    by (cases "i < n") (auto simp: mem_read_nth nth_append algebra_simps of_nat_diff)
qed simp

lemma mem_read_take: "k \<le> n \<Longrightarrow> take k (mem_read m a n) = mem_read m a k"
  using mem_read_add [of m a k "n - k"] by simp

lemma mem_read_drop: "k \<le> n \<Longrightarrow> drop k (mem_read m a n) = mem_read m (a + of_nat k) (n - k)"
  using mem_read_add [of m a k "n - k"] by simp

lemma unat_of_nat64: "i < 2 ^ 64 \<Longrightarrow> unat (of_nat i :: u64) = i"
  by (simp add: unat_of_nat)

lemma mem_write_outside: "\<not> in_region x a (length bs) \<Longrightarrow> mem_write m a bs x = m x"
  by (simp add: in_region_def mem_write_def)

text \<open>Writing inside a region that does not wrap replaces exactly that slice of it.\<close>

lemma mem_read_write_within:
  assumes "i + length bs \<le> n" and "n < 2 ^ 64"
  shows "mem_read (mem_write m (a + of_nat i) bs) a n =
    take i (mem_read m a n) @ bs @ drop (i + length bs) (mem_read m a n)"
proof (rule nth_equalityI)
  show "length (mem_read (mem_write m (a + of_nat i) bs) a n) =
    length (take i (mem_read m a n) @ bs @ drop (i + length bs) (mem_read m a n))"
    using assms by simp
next
  fix j assume "j < length (mem_read (mem_write m (a + of_nat i) bs) a n)"
  then have j: "j < n" by simp
  show "mem_read (mem_write m (a + of_nat i) bs) a n ! j =
    (take i (mem_read m a n) @ bs @ drop (i + length bs) (mem_read m a n)) ! j"
  proof (cases "j < i")
    case True
    have "unat (of_nat j - of_nat i :: u64) = 2 ^ 64 - (i - j)"
    proof -
      have "(of_nat (2 ^ 64 - (i - j)) :: u64) = of_nat (2 ^ 64) - of_nat (i - j)"
        using assms by (intro of_nat_diff) simp
      also have "\<dots> = of_nat j - of_nat i"
        using True by (simp add: of_nat_diff)
      finally have "(of_nat j - of_nat i :: u64) = of_nat (2 ^ 64 - (i - j))" ..
      moreover have "2 ^ 64 - (i - j) < 2 ^ LENGTH(64)" using True by simp
      ultimately show ?thesis by (simp only: unat_of_nat mod_less)
    qed
    then have "\<not> unat (of_nat j - of_nat i :: u64) < length bs"
      using True assms by linarith
    then show ?thesis
      using True assms j by (simp add: mem_read_nth nth_append mem_write_def)
  next
    case False
    then have "(of_nat j - of_nat i :: u64) = of_nat (j - i)"
      by (simp add: of_nat_diff)
    then have "unat (of_nat j - of_nat i :: u64) = j - i"
      using assms j by (simp add: unat_of_nat)
    then show ?thesis
      using False assms j by (auto simp: mem_read_nth nth_append mem_write_def)
  qed
qed

lemma mem_read_write_same:
  "length bs < 2 ^ 64 \<Longrightarrow> mem_read (mem_write m a bs) a (length bs) = bs"
  using mem_read_write_within [of 0 bs "length bs" m a] by simp

text \<open>Writing back what is there changes nothing.\<close>

lemma mem_write_read_id: "n < 2 ^ 64 \<Longrightarrow> mem_write m a (mem_read m a n) = m"
  by (auto simp: mem_write_def mem_read_nth)

lemma mem_read_cong:
  "(\<And>i. i < n \<Longrightarrow> m (a + of_nat i) = m' (a + of_nat i)) \<Longrightarrow> mem_read m a n = mem_read m' a n"
  by (simp add: mem_read_def)

text \<open>Two adjacent writes are one.\<close>

lemma mem_write_append:
  assumes "length xs + length ys < 2 ^ 64" and "b = a + of_nat (length xs)"
  shows "mem_write (mem_write m a xs) b ys = mem_write m a (xs @ ys)"
proof
  fix x :: u64
  have d: "x - b = (x - a) - of_nat (length xs)" using assms(2) by simp
  have lx: "unat (of_nat (length xs) :: u64) = length xs"
    using assms(1) by (intro unat_of_nat64) linarith
  show "mem_write (mem_write m a xs) b ys x = mem_write m a (xs @ ys) x"
  proof (cases "unat (x - a) < length xs")
    case True
    then have "(x - a) < of_nat (length xs)" using lx by (simp add: word_less_nat_alt)
    then have "unat (x - b) = unat (x - a) + 2 ^ 64 - length xs"
      using lx unat_sub_if_size [of "x - a" "of_nat (length xs)"]
      by (simp add: d word_size word_less_nat_alt)
    then have "\<not> unat (x - b) < length ys" using assms(1) by linarith
    then show ?thesis using True by (simp add: mem_write_def nth_append)
  next
    case False
    then have "unat (x - b) = unat (x - a) - length xs"
      using lx by (simp add: d unat_sub word_le_nat_alt)
    then show ?thesis using False by (auto simp: mem_write_def nth_append)
  qed
qed

lemma in_region_sub: "in_region x (a + of_nat k) j \<Longrightarrow> k + j \<le> n \<Longrightarrow> in_region x a n"
proof -
  assume j: "in_region x (a + of_nat k) j" and le: "k + j \<le> n"
  have "x - a = (x - (a + of_nat k)) + of_nat k" by simp
  then have "unat (x - a) \<le> unat (x - (a + of_nat k)) + unat (of_nat k :: u64)"
    using unat_word_ariths(1) [of "x - (a + of_nat k)" "of_nat k"] by simp
  moreover have "unat (of_nat k :: u64) \<le> k" by (simp add: unat_of_nat)
  ultimately show ?thesis using j le by (simp add: in_region_def)
qed

lemma in_region_of_nat: "i < n \<Longrightarrow> in_region (a + of_nat i) a n"
  using unat_of_nat [where ?'a = 64, of i] mod_less_eq_dividend [of i "2 ^ LENGTH(64)"]
  by (simp add: in_region_def del: mod_less_eq_dividend)

lemma not_in_region_of_nat: "n \<le> i \<Longrightarrow> i < 2 ^ 64 \<Longrightarrow> \<not> in_region (a + of_nat i) a n"
  by (simp add: in_region_def unat_of_nat64)

lemma unat_lt_2p_64: "unat (x :: u64) < 2 ^ 64"
  using unsigned_less [of x, where ?'a = nat] by simp

section \<open>Counting the elements of an updated list\<close>

lemma of_nat_count_list_update:
  "i < length vs \<Longrightarrow>
   (of_nat (count_list (vs[i := q]) p) :: 'a :: ring_1) =
     of_nat (count_list vs p) - (if vs ! i = p then 1 else 0) + (if q = p then 1 else 0)"
proof (induction vs arbitrary: i)
  case Nil
  then show ?case by simp
next
  case (Cons v vs)
  then show ?case by (cases i) auto
qed

lemma nth_count_pos: "i < length vs \<Longrightarrow> 0 < count_list vs (vs ! i)"
  by (metis count_notin neq0_conv nth_mem count_list_0_iff)

lemma count_list_update:
  assumes "i < length vs"
  shows "count_list (vs[i := q]) p =
     (if q = p then 1 else 0) + (count_list vs p - (if vs ! i = p then 1 else 0))"
  using of_nat_count_list_update [OF assms, of q p, where ?'a = int] nth_count_pos [OF assms]
  by (auto split: if_splits)

end
