(* ===== verification/Strong_Pointer.thy ===== *)
theory Strong_Pointer
  imports Prelude
begin

text \<open>
  Strong references: the \<open>sp<T>\<close> template of \<open>external/AOSP/include/utils/StrongPointer.h\<close>
  and the \<open>LightRefBase\<close> counter of \<open>LightRefBase.h\<close>. A pointer is a 64-bit address, 0 is
  \<open>nullptr\<close>. The members of \<open>sp<T>\<close> are functions of the pointer they hold and of the world
  the reference counts live in; the counting operations of the pointee are a record of
  functions, so that the same definitions serve \<open>LightRefBase\<close> (below) and \<open>RefBase\<close>, whose
  implementation is not part of the repository. The second read of \<open>m_ptr\<close> that feeds
  \<open>sp_report_race\<close> only detects concurrent misuse and is not modelled.
\<close>

type_synonym ptr = u64

abbreviation nullptr :: ptr where "nullptr \<equiv> 0"

section \<open>The counting operations of a pointee\<close>

record 'w refcount_ops =
  incStrong :: "ptr \<Rightarrow> 'w \<Rightarrow> 'w"
  incStrongRequireStrong :: "ptr \<Rightarrow> 'w \<Rightarrow> 'w"
  decStrong :: "ptr \<Rightarrow> 'w \<Rightarrow> 'w"

text \<open>\<open>LightRefBase\<close>: a 32-bit atomic counter; the object is deleted by the decrement that finds 1.\<close>

record light_heap =
  mCount :: "ptr \<Rightarrow> u32"
  deleted :: "ptr list"
  requireStrongFailed :: "ptr list"

definition light_incStrong :: "ptr \<Rightarrow> light_heap \<Rightarrow> light_heap" where
  "light_incStrong p h = h\<lparr>mCount := (mCount h)(p := mCount h p + 1)\<rparr>"

definition light_incStrongRequireStrong :: "ptr \<Rightarrow> light_heap \<Rightarrow> light_heap" where
  "light_incStrongRequireStrong p h =
     (let h' = h\<lparr>mCount := (mCount h)(p := mCount h p + 1)\<rparr>
      in if mCount h p = 0 then h'\<lparr>requireStrongFailed := p # requireStrongFailed h'\<rparr> else h')"

definition light_decStrong :: "ptr \<Rightarrow> light_heap \<Rightarrow> light_heap" where
  "light_decStrong p h =
     (let h' = h\<lparr>mCount := (mCount h)(p := mCount h p - 1)\<rparr>
      in if mCount h p = 1 then h'\<lparr>deleted := p # deleted h'\<rparr> else h')"

definition light_getStrongCount :: "ptr \<Rightarrow> light_heap \<Rightarrow> int" where
  "light_getStrongCount p h = sint (mCount h p)"

definition light_ops :: "light_heap refcount_ops" where
  "light_ops = \<lparr>incStrong = light_incStrong, incStrongRequireStrong = light_incStrongRequireStrong,
     decStrong = light_decStrong\<rparr>"

section \<open>The members of sp<T>\<close>

text \<open>Each function returns the new \<open>m_ptr\<close> of the object it is called on.\<close>

definition sp_default :: "'w \<Rightarrow> ptr \<times> 'w" where
  "sp_default w = (nullptr, w)"

text \<open>\<open>sp<T>::make\<close>: \<open>t\<close> is the address the allocation of the new object returned.\<close>

definition sp_make :: "('w, 'x) refcount_ops_scheme \<Rightarrow> ptr \<Rightarrow> 'w \<Rightarrow> ptr \<times> 'w" where
  "sp_make R t w = (t, incStrong R t w)"

definition sp_fromExisting :: "('w, 'x) refcount_ops_scheme \<Rightarrow> ptr \<Rightarrow> 'w \<Rightarrow> ptr \<times> 'w" where
  "sp_fromExisting R other w =
     (if other \<noteq> nullptr then (other, incStrongRequireStrong R other w) else (nullptr, w))"

definition sp_of_ptr :: "('w, 'x) refcount_ops_scheme \<Rightarrow> ptr \<Rightarrow> 'w \<Rightarrow> ptr \<times> 'w" where
  "sp_of_ptr R other w = (other, if other \<noteq> nullptr then incStrong R other w else w)"

definition sp_assign_ptr :: "('w, 'x) refcount_ops_scheme \<Rightarrow> ptr \<Rightarrow> ptr \<Rightarrow> 'w \<Rightarrow> ptr \<times> 'w" where
  "sp_assign_ptr R m_ptr other w =
     (let oldPtr = m_ptr;
          w = (if other \<noteq> nullptr then incStrong R other w else w);
          w = (if oldPtr \<noteq> nullptr then decStrong R oldPtr w else w)
      in (other, w))"

definition sp_copy :: "('w, 'x) refcount_ops_scheme \<Rightarrow> ptr \<Rightarrow> 'w \<Rightarrow> ptr \<times> 'w" where
  "sp_copy R other w = (other, if other \<noteq> nullptr then incStrong R other w else w)"

text \<open>The move operations also return the new \<open>m_ptr\<close> of the source object.\<close>

definition sp_move :: "ptr \<Rightarrow> 'w \<Rightarrow> ptr \<times> ptr \<times> 'w" where
  "sp_move other w = (other, nullptr, w)"

definition sp_cast :: "('w, 'x) refcount_ops_scheme \<Rightarrow> ptr \<Rightarrow> 'w \<Rightarrow> ptr \<times> 'w" where
  "sp_cast R other w = sp_fromExisting R other w"

definition sp_destroy :: "('w, 'x) refcount_ops_scheme \<Rightarrow> ptr \<Rightarrow> 'w \<Rightarrow> 'w" where
  "sp_destroy R m_ptr w = (if m_ptr \<noteq> nullptr then decStrong R m_ptr w else w)"

definition sp_assign :: "('w, 'x) refcount_ops_scheme \<Rightarrow> ptr \<Rightarrow> ptr \<Rightarrow> 'w \<Rightarrow> ptr \<times> 'w" where
  "sp_assign R m_ptr other w =
     (let oldPtr = m_ptr; otherPtr = other;
          w = (if otherPtr \<noteq> nullptr then incStrong R otherPtr w else w);
          w = (if oldPtr \<noteq> nullptr then decStrong R oldPtr w else w)
      in (otherPtr, w))"

definition sp_assign_move :: "('w, 'x) refcount_ops_scheme \<Rightarrow> ptr \<Rightarrow> ptr \<Rightarrow> 'w \<Rightarrow> ptr \<times> ptr \<times> 'w" where
  "sp_assign_move R m_ptr other w =
     (let oldPtr = m_ptr;
          w = (if oldPtr \<noteq> nullptr then decStrong R oldPtr w else w)
      in (other, nullptr, w))"

definition sp_force_set :: "(ptr \<Rightarrow> 'w \<Rightarrow> 'w) \<Rightarrow> ptr \<Rightarrow> 'w \<Rightarrow> ptr \<times> 'w" where
  "sp_force_set forceIncStrong other w = (other, forceIncStrong other w)"

definition sp_clear :: "('w, 'x) refcount_ops_scheme \<Rightarrow> ptr \<Rightarrow> 'w \<Rightarrow> ptr \<times> 'w" where
  "sp_clear R m_ptr w =
     (let oldPtr = m_ptr
      in if oldPtr \<noteq> nullptr then (nullptr, decStrong R oldPtr w) else (m_ptr, w))"

text \<open>\<open>release\<close> returns the pointer it gives up and the new \<open>m_ptr\<close>.\<close>

definition sp_release :: "ptr \<Rightarrow> ptr \<times> ptr" where
  "sp_release m_ptr = (m_ptr, nullptr)"

definition sp_set_pointer :: "ptr \<Rightarrow> ptr" where
  "sp_set_pointer p = p"

definition sp_bool :: "ptr \<Rightarrow> bool" where
  "sp_bool m_ptr \<longleftrightarrow> m_ptr \<noteq> nullptr"

text \<open>The comparison operators compare the held addresses (\<open>COMPARE_STRONG\<close>).\<close>

definition sp_eq :: "ptr \<Rightarrow> ptr \<Rightarrow> bool" where "sp_eq t u \<longleftrightarrow> t = u"
definition sp_less :: "ptr \<Rightarrow> ptr \<Rightarrow> bool" where "sp_less t u \<longleftrightarrow> t < u"
definition sp_less_equal :: "ptr \<Rightarrow> ptr \<Rightarrow> bool" where "sp_less_equal t u \<longleftrightarrow> t \<le> u"
definition sp_greater :: "ptr \<Rightarrow> ptr \<Rightarrow> bool" where "sp_greater t u \<longleftrightarrow> t > u"

section \<open>Programs over strong pointers\<close>

text \<open>
  A program holds a list of \<open>sp<T>\<close> objects and runs member functions on them; a destroyed
  object stays in the list as \<open>nullptr\<close>. The second list are the bare pointers that \<open>release\<close>
  handed to the program, which owns them until it calls \<open>decStrong\<close> itself (\<open>OpDecStrong\<close>, the
  duty \<open>release\<close> documents). Indices out of range leave the state unchanged. Of the public members that
  count, only \<open>force_set\<close> has no operation: it calls \<open>forceIncStrong\<close>, which \<open>LightRefBase\<close> does
  not have.
\<close>

datatype sp_op =
    OpDefault | OpMake ptr | OpOfPtr ptr | OpFromExisting ptr | OpCast nat | OpCopy nat | OpMove nat
  | OpAssign nat nat | OpAssignMove nat nat | OpAssignPtr nat ptr | OpClear nat | OpDestroy nat
  | OpRelease nat | OpDecStrong nat

type_synonym 'w sp_state = "ptr list \<times> ptr list \<times> 'w"

fun sp_step :: "('w, 'x) refcount_ops_scheme \<Rightarrow> sp_op \<Rightarrow> 'w sp_state \<Rightarrow> 'w sp_state" where
  "sp_step R OpDefault (vs, rs, w) = (let (p, w) = sp_default w in (vs @ [p], rs, w))"
| "sp_step R (OpMake t) (vs, rs, w) = (let (p, w) = sp_make R t w in (vs @ [p], rs, w))"
| "sp_step R (OpOfPtr t) (vs, rs, w) = (let (p, w) = sp_of_ptr R t w in (vs @ [p], rs, w))"
| "sp_step R (OpFromExisting t) (vs, rs, w) = (let (p, w) = sp_fromExisting R t w in (vs @ [p], rs, w))"
| "sp_step R (OpCast j) (vs, rs, w) =
     (if j < length vs then let (p, w) = sp_cast R (vs ! j) w in (vs @ [p], rs, w) else (vs, rs, w))"
| "sp_step R (OpCopy j) (vs, rs, w) =
     (if j < length vs then let (p, w) = sp_copy R (vs ! j) w in (vs @ [p], rs, w) else (vs, rs, w))"
| "sp_step R (OpMove j) (vs, rs, w) =
     (if j < length vs then let (p, q, w) = sp_move (vs ! j) w in (vs[j := q] @ [p], rs, w) else (vs, rs, w))"
| "sp_step R (OpAssign i j) (vs, rs, w) =
     (if i < length vs \<and> j < length vs
      then let (p, w) = sp_assign R (vs ! i) (vs ! j) w in (vs[i := p], rs, w) else (vs, rs, w))"
| "sp_step R (OpAssignMove i j) (vs, rs, w) =
     (if i < length vs \<and> j < length vs
      then let (p, q, w) = sp_assign_move R (vs ! i) (vs ! j) w in (vs[i := p, j := q], rs, w) else (vs, rs, w))"
| "sp_step R (OpAssignPtr i t) (vs, rs, w) =
     (if i < length vs then let (p, w) = sp_assign_ptr R (vs ! i) t w in (vs[i := p], rs, w) else (vs, rs, w))"
| "sp_step R (OpClear i) (vs, rs, w) =
     (if i < length vs then let (p, w) = sp_clear R (vs ! i) w in (vs[i := p], rs, w) else (vs, rs, w))"
| "sp_step R (OpDestroy i) (vs, rs, w) =
     (if i < length vs then (vs[i := nullptr], rs, sp_destroy R (vs ! i) w) else (vs, rs, w))"
| "sp_step R (OpRelease i) (vs, rs, w) =
     (if i < length vs then let (p, q) = sp_release (vs ! i) in (vs[i := q], rs @ [p], w) else (vs, rs, w))"
| "sp_step R (OpDecStrong k) (vs, rs, w) =
     (if k < length rs \<and> rs ! k \<noteq> nullptr then (vs, rs[k := nullptr], decStrong R (rs ! k) w) else (vs, rs, w))"

fun sp_run :: "('w, 'x) refcount_ops_scheme \<Rightarrow> sp_op list \<Rightarrow> 'w sp_state \<Rightarrow> 'w sp_state" where
  "sp_run R [] s = s"
| "sp_run R (x # xs) s = sp_run R xs (sp_step R x s)"

lemmas sp_defs = sp_default_def sp_make_def sp_fromExisting_def sp_of_ptr_def sp_assign_ptr_def
  sp_copy_def sp_move_def sp_cast_def sp_destroy_def sp_assign_def sp_assign_move_def
  sp_clear_def sp_release_def

section \<open>What counting promises\<close>

text \<open>
  The contract between \<open>sp<T>\<close> and its pointee: the counter moves by one in 32-bit
  arithmetic, and the pointee is destroyed exactly by the decrement that finds the value 1.
\<close>

locale strong_counted =
  fixes R :: "('w, 'x) refcount_ops_scheme"
    and cnt :: "'w \<Rightarrow> ptr \<Rightarrow> u32"
    and dels :: "'w \<Rightarrow> ptr list"
  assumes cnt_inc: "cnt (incStrong R p w) = (cnt w)(p := cnt w p + 1)"
    and cnt_req: "cnt (incStrongRequireStrong R p w) = (cnt w)(p := cnt w p + 1)"
    and cnt_dec: "cnt (decStrong R p w) = (cnt w)(p := cnt w p - 1)"
    and dels_inc: "dels (incStrong R p w) = dels w"
    and dels_req: "dels (incStrongRequireStrong R p w) = dels w"
    and dels_dec: "dels (decStrong R p w) = (if cnt w p = 1 then p # dels w else dels w)"
begin

definition balanced :: "'w sp_state \<Rightarrow> bool" where
  "balanced s \<longleftrightarrow> (case s of (vs, rs, w) \<Rightarrow>
     \<forall>p. p \<noteq> nullptr \<longrightarrow> cnt w p = of_nat (count_list vs p) + of_nat (count_list rs p))"

lemmas counting = cnt_inc cnt_req cnt_dec dels_inc dels_req dels_dec

lemma step_balanced: "op \<noteq> OpMake nullptr \<Longrightarrow> balanced s \<Longrightarrow> balanced (sp_step R op s)"
  by (cases s; cases op)
     (auto simp: balanced_def sp_defs counting of_nat_count_list_update Let_def nth_list_update)

lemma run_balanced:
  "OpMake nullptr \<notin> set ops \<Longrightarrow> balanced s \<Longrightarrow> balanced (sp_run R ops s)"
proof (induction ops arbitrary: s)
  case (Cons x ops)
  then have "balanced (sp_step R x s)" by (intro step_balanced) auto
  with Cons show ?case by simp
qed simp

text \<open>
  While the 32-bit counter cannot wrap, a step destroys the pointee \<open>p\<close> exactly when it takes
  away the last owner of it.
\<close>

lemma cnt_word_eq:
  assumes "balanced (vs, rs, w)" "p \<noteq> nullptr" "length vs + length rs + 1 < 2 ^ 32" "n < 2 ^ 32"
  shows "cnt w p = of_nat n \<longleftrightarrow> count_list vs p + count_list rs p = n"
proof -
  have "count_list vs p + count_list rs p \<le> length vs + length rs" by (intro add_mono count_le_length)
  with assms(3) have "count_list vs p + count_list rs p < 2 ^ 32" by simp
  moreover have "cnt w p = of_nat (count_list vs p + count_list rs p)" using assms(1,2) by (simp add: balanced_def)
  ultimately show ?thesis using assms(4) by (simp only: word_of_nat_eq_iff take_bit_nat_eq_self) (simp add: take_bit_nat_eq_self)
qed

lemma dels_dec_count:
  "count_list (dels (decStrong R q w)) p =
     count_list (dels w) p + (if q = p \<and> cnt w p = 1 then 1 else 0)"
  by (auto simp: dels_dec)

lemma step_deletes:
  assumes "balanced (vs, rs, w)" "length vs + length rs + 1 < 2 ^ 32" "op \<noteq> OpMake nullptr" "p \<noteq> nullptr"
    and "sp_step R op (vs, rs, w) = (vs', rs', w')"
  shows "count_list (dels w') p = count_list (dels w) p +
    (if count_list (vs @ rs) p > 0 \<and> count_list (vs' @ rs') p = 0 then 1 else 0)"
proof -
  have c1: "cnt w p = 1 \<longleftrightarrow> count_list vs p + count_list rs p = 1"
    using cnt_word_eq [OF assms(1,4,2), of 1] by simp
  have c0: "cnt w p = 0 \<longleftrightarrow> count_list vs p + count_list rs p = 0"
    using cnt_word_eq [OF assms(1,4,2), of 0] by simp
  have pos: "count_list xs (xs ! i) \<noteq> 0" if "i < length xs" for xs :: "ptr list" and i
    using nth_count_pos [OF that] by simp
  have two: "count_list xs (xs ! i) + n \<noteq> Suc 0" "n + count_list xs (xs ! i) \<noteq> Suc 0"
    if "i < length xs" "0 < n" for xs :: "ptr list" and i n
    using pos [OF that(1)] that(2) by arith+
  have held: "cnt w (vs ! i) \<noteq> 0" if "i < length vs" "vs ! i \<noteq> nullptr" for i
    using cnt_word_eq [OF assms(1) that(2) assms(2), of 0] pos [OF that(1)] by simp
  show ?thesis
    using assms(3,4,5)
    by (cases op)
       (auto simp: sp_defs cnt_inc cnt_req cnt_dec dels_inc dels_req dels_dec_count Let_def c1 c0 two held
         count_list_update nth_list_update pos nth_count_pos split: if_splits)
qed

end

section \<open>LightRefBase keeps the promise\<close>

interpretation light: strong_counted light_ops mCount deleted
  by unfold_locales
     (auto simp: light_ops_def light_incStrong_def light_incStrongRequireStrong_def
       light_decStrong_def Let_def)

text \<open>A balanced state, written out for the counter of \<open>LightRefBase\<close>.\<close>

lemma light_balanced_iff:
  "light.balanced (vs, rs, h) \<longleftrightarrow>
     (\<forall>p. p \<noteq> nullptr \<longrightarrow> mCount h p = of_nat (count_list vs p) + of_nat (count_list rs p))"
  by (simp add: light.balanced_def)

definition fresh_heap :: light_heap where
  "fresh_heap = \<lparr>mCount = (\<lambda>_. 0), deleted = [], requireStrongFailed = []\<rparr>"

text \<open>
  C37. Whatever sequence of constructors, copies, casts, moves, assignments, resets, releases and
  destructors a program runs on its \<open>sp<T>\<close> objects, the reference count of every object is the
  number of \<open>sp<T>\<close> objects that hold it and of released pointers to it that the program has not yet
  given back (modulo the counter's 32 bits).
\<close>

theorem sp_count_is_owners:
  assumes "OpMake nullptr \<notin> set ops" and "sp_run light_ops ops ([], [], fresh_heap) = (vs, rs, h)"
    and "p \<noteq> nullptr"
  shows "mCount h p = of_nat (count_list vs p) + of_nat (count_list rs p)"
proof -
  have "light.balanced ([], [], fresh_heap)"
    by (simp add: light_balanced_iff fresh_heap_def)
  then have "light.balanced (vs, rs, h)"
    using light.run_balanced [OF assms(1), of "([], [], fresh_heap)"] assms(2) by simp
  with assms(3) show ?thesis by (simp add: light_balanced_iff)
qed

theorem sp_count_is_owners_witness:
  "mCount (snd (snd (sp_run light_ops [OpMake 8, OpCopy 0, OpMove 0, OpAssign 0 1, OpRelease 1, OpDestroy 2]
     ([], [], fresh_heap)))) 8 = of_nat (count_list [8 :: ptr, 0, 0] 8) + of_nat (count_list [8 :: ptr] 8)"
  using sp_count_is_owners [where ops = "[OpMake 8, OpCopy 0, OpMove 0, OpAssign 0 1, OpRelease 1, OpDestroy 2]"
      and p = 8 and vs = "[8, 0, 0]" and rs = "[8]"
      and h = "snd (snd (sp_run light_ops [OpMake 8, OpCopy 0, OpMove 0, OpAssign 0 1, OpRelease 1, OpDestroy 2]
        ([], [], fresh_heap)))"]
  by (simp add: sp_defs Let_def)

text \<open>
  C38. From a balanced state with fewer than \<open>2 ^ 32 - 1\<close> pointers, a member function of
  \<open>sp<T>\<close> (or the program's own \<open>decStrong\<close> of a released pointer) deletes an object exactly when it
  takes away its last owner: no leak, no early deletion, also on self-assignment.
\<close>

theorem sp_deletes_with_last_owner:
  assumes "\<forall>q. q \<noteq> nullptr \<longrightarrow> mCount h q = of_nat (count_list vs q) + of_nat (count_list rs q)"
    and "length vs + length rs + 1 < 2 ^ 32" and "op \<noteq> OpMake nullptr" and "p \<noteq> nullptr"
    and "sp_step light_ops op (vs, rs, h) = (vs', rs', h')"
  shows "count_list (deleted h') p = count_list (deleted h) p +
    (if count_list (vs @ rs) p > 0 \<and> count_list (vs' @ rs') p = 0 then 1 else 0)"
  using light.step_deletes [of vs rs h op p vs' rs' h'] assms by (simp add: light_balanced_iff)

theorem sp_deletes_with_last_owner_witness:
  "count_list (deleted (snd (snd (sp_step light_ops (OpDestroy 0)
     ([8], [], fresh_heap\<lparr>mCount := (\<lambda>_. 0)(8 := 1)\<rparr>))))) 8 = 1"
proof -
  let ?h = "fresh_heap\<lparr>mCount := (\<lambda>_. 0)(8 := 1)\<rparr>"
  have "count_list (deleted (snd (snd (sp_step light_ops (OpDestroy 0) ([8], [], ?h))))) 8 =
    count_list (deleted ?h) 8 + 1"
    using sp_deletes_with_last_owner [where h = ?h and vs = "[8]" and rs = "[]" and op = "OpDestroy 0" and p = 8
        and vs' = "[0]" and rs' = "[]" and h' = "snd (snd (sp_step light_ops (OpDestroy 0) ([8], [], ?h)))"]
    by (simp add: sp_defs)
  then show ?thesis by (simp add: fresh_heap_def)
qed

end
