(* ===== verification/Weak_Pointer.thy ===== *)
theory Weak_Pointer
  imports Strong_Pointer
begin

text \<open>
  Weak references: the \<open>wp<T>\<close> template of \<open>external/AOSP/include/utils/RefBase.h\<close>, with the
  repository's own edit of \<open>wp<T>::fromExisting\<close> (\<open>incWeak\<close> in place of
  \<open>incWeakRequireWeak\<close>). The reference counts themselves live in \<open>RefBase.cpp\<close>, which is not
  part of the repository: its operations are the record \<open>refbase_ops\<close>, an argument of every
  definition. What the header documents of them is the predicate \<open>weak_counting\<close>.
\<close>

section \<open>The operations of RefBase\<close>

text \<open>
  \<open>getWeakRefs\<close> maps an object to its \<open>weakref_type\<close>; \<open>createWeak\<close> also takes a weak
  reference; \<open>attemptIncStrong\<close> tells whether it acquired a strong reference.
\<close>

record 'w refbase_ops = "'w refcount_ops" +
  getWeakRefs :: "ptr \<Rightarrow> 'w \<Rightarrow> ptr"
  createWeak :: "ptr \<Rightarrow> 'w \<Rightarrow> ptr \<times> 'w"
  incWeak :: "ptr \<Rightarrow> 'w \<Rightarrow> 'w"
  decWeak :: "ptr \<Rightarrow> 'w \<Rightarrow> 'w"
  attemptIncStrong :: "ptr \<Rightarrow> 'w \<Rightarrow> bool \<times> 'w"

section \<open>wp<T> and its order\<close>

datatype wp = Wp (wp_ptr: ptr) (wp_refs: ptr)

definition wp_null :: wp where "wp_null = Wp nullptr nullptr"

text \<open>Comparison of two weak pointers; with a raw pointer or \<open>nullptr\<close> only \<open>m_ptr\<close> counts.\<close>

definition wp_eq :: "wp \<Rightarrow> wp \<Rightarrow> bool" where
  "wp_eq a b \<longleftrightarrow> wp_refs a = wp_refs b"

definition wp_eq_ptr :: "wp \<Rightarrow> ptr \<Rightarrow> bool" where
  "wp_eq_ptr a p \<longleftrightarrow> wp_ptr a = p"

definition wp_eq_sp :: "('w, 'x) refbase_ops_scheme \<Rightarrow> wp \<Rightarrow> ptr \<Rightarrow> 'w \<Rightarrow> bool" where
  "wp_eq_sp R a p w = (if p = nullptr then wp_ptr a = nullptr else wp_refs a = getWeakRefs R p w)"

definition wp_greater :: "wp \<Rightarrow> wp \<Rightarrow> bool" where
  "wp_greater a b =
     (if wp_ptr a = wp_ptr b then wp_refs a > wp_refs b else wp_ptr a > wp_ptr b)"

definition wp_less :: "wp \<Rightarrow> wp \<Rightarrow> bool" where
  "wp_less a b =
     (if wp_ptr a = wp_ptr b then wp_refs a < wp_refs b else wp_ptr a < wp_ptr b)"

definition wp_less_equal :: "wp \<Rightarrow> wp \<Rightarrow> bool" where
  "wp_less_equal a b \<longleftrightarrow> \<not> wp_greater a b"

definition wp_greater_equal :: "wp \<Rightarrow> wp \<Rightarrow> bool" where
  "wp_greater_equal a b \<longleftrightarrow> \<not> wp_less a b"

text \<open>\<open>operator <\<close> and \<open>operator <=\<close> form a linear order, so weak pointers can be map keys.\<close>

instantiation wp :: linorder
begin

definition less_eq_wp :: "wp \<Rightarrow> wp \<Rightarrow> bool" where "less_eq_wp a b = wp_less_equal a b"
definition less_wp :: "wp \<Rightarrow> wp \<Rightarrow> bool" where "less_wp a b = wp_less a b"

instance
proof
  fix x y z :: wp
  show "x < y \<longleftrightarrow> x \<le> y \<and> \<not> y \<le> x"
    by (auto simp: less_eq_wp_def less_wp_def wp_less_def wp_less_equal_def wp_greater_def)
  show "x \<le> x"
    by (simp add: less_eq_wp_def wp_less_equal_def wp_greater_def)
  show "x \<le> y \<Longrightarrow> y \<le> z \<Longrightarrow> x \<le> z"
    by (auto simp: less_eq_wp_def wp_less_equal_def wp_greater_def split: if_splits)
  show "x \<le> y \<Longrightarrow> y \<le> x \<Longrightarrow> x = y"
    by (cases x; cases y)
       (auto simp: less_eq_wp_def wp_less_equal_def wp_greater_def split: if_splits)
  show "x \<le> y \<or> y \<le> x"
    by (auto simp: less_eq_wp_def wp_less_equal_def wp_greater_def)
qed

end

section \<open>The members of wp<T>\<close>

definition wp_fromExisting :: "('w, 'x) refbase_ops_scheme \<Rightarrow> ptr \<Rightarrow> 'w \<Rightarrow> wp \<times> 'w" where
  "wp_fromExisting R other w =
     (if other = nullptr then (wp_null, w)
      else let refs = getWeakRefs R other w in (Wp other refs, incWeak R refs w))"

definition wp_of_ptr :: "('w, 'x) refbase_ops_scheme \<Rightarrow> ptr \<Rightarrow> 'w \<Rightarrow> wp \<times> 'w" where
  "wp_of_ptr R other w =
     (if other \<noteq> nullptr then let (refs, w) = createWeak R other w in (Wp other refs, w)
      else (Wp other nullptr, w))"

definition wp_of_sp :: "('w, 'x) refbase_ops_scheme \<Rightarrow> ptr \<Rightarrow> 'w \<Rightarrow> wp \<times> 'w" where
  "wp_of_sp R sp w =
     (if sp \<noteq> nullptr then let (refs, w) = createWeak R sp w in (Wp sp refs, w)
      else (Wp sp nullptr, w))"

definition wp_copy :: "('w, 'x) refbase_ops_scheme \<Rightarrow> wp \<Rightarrow> 'w \<Rightarrow> wp \<times> 'w" where
  "wp_copy R other w =
     (other, if wp_ptr other \<noteq> nullptr then incWeak R (wp_refs other) w else w)"

text \<open>The converting copy, \<open>wp<T>(const wp<U>&)\<close>: a null source gives null references.\<close>

definition wp_convert :: "('w, 'x) refbase_ops_scheme \<Rightarrow> wp \<Rightarrow> 'w \<Rightarrow> wp \<times> 'w" where
  "wp_convert R other w =
     (if wp_ptr other \<noteq> nullptr then (other, incWeak R (wp_refs other) w)
      else (Wp (wp_ptr other) nullptr, w))"

definition wp_destroy :: "('w, 'x) refbase_ops_scheme \<Rightarrow> wp \<Rightarrow> 'w \<Rightarrow> 'w" where
  "wp_destroy R a w = (if wp_ptr a \<noteq> nullptr then decWeak R (wp_refs a) w else w)"

definition wp_assign_ptr :: "('w, 'x) refbase_ops_scheme \<Rightarrow> wp \<Rightarrow> ptr \<Rightarrow> 'w \<Rightarrow> wp \<times> 'w" where
  "wp_assign_ptr R a other w =
     (let (newRefs, w) = (if other \<noteq> nullptr then createWeak R other w else (nullptr, w));
          w = (if wp_ptr a \<noteq> nullptr then decWeak R (wp_refs a) w else w)
      in (Wp other newRefs, w))"

definition wp_assign :: "('w, 'x) refbase_ops_scheme \<Rightarrow> wp \<Rightarrow> wp \<Rightarrow> 'w \<Rightarrow> wp \<times> 'w" where
  "wp_assign R a other w =
     (let otherRefs = wp_refs other; otherPtr = wp_ptr other;
          w = (if otherPtr \<noteq> nullptr then incWeak R otherRefs w else w);
          w = (if wp_ptr a \<noteq> nullptr then decWeak R (wp_refs a) w else w)
      in (Wp otherPtr otherRefs, w))"

definition wp_assign_sp :: "('w, 'x) refbase_ops_scheme \<Rightarrow> wp \<Rightarrow> ptr \<Rightarrow> 'w \<Rightarrow> wp \<times> 'w" where
  "wp_assign_sp R a sp w =
     (let (newRefs, w) = (if sp \<noteq> nullptr then createWeak R sp w else (nullptr, w));
          otherPtr = sp;
          w = (if wp_ptr a \<noteq> nullptr then decWeak R (wp_refs a) w else w)
      in (Wp otherPtr newRefs, w))"

definition wp_set_object_and_refs ::
  "('w, 'x) refbase_ops_scheme \<Rightarrow> wp \<Rightarrow> ptr \<Rightarrow> ptr \<Rightarrow> 'w \<Rightarrow> wp \<times> 'w" where
  "wp_set_object_and_refs R a other refs w =
     (let w = (if other \<noteq> nullptr then incWeak R refs w else w);
          w = (if wp_ptr a \<noteq> nullptr then decWeak R (wp_refs a) w else w)
      in (Wp other refs, w))"

text \<open>\<open>promote\<close> returns the \<open>m_ptr\<close> of the strong pointer it builds, \<open>nullptr\<close> on failure.\<close>

definition wp_promote :: "('w, 'x) refbase_ops_scheme \<Rightarrow> wp \<Rightarrow> 'w \<Rightarrow> ptr \<times> 'w" where
  "wp_promote R a w =
     (if wp_ptr a \<noteq> nullptr
      then let (ok, w) = attemptIncStrong R (wp_refs a) w
           in (if ok then sp_set_pointer (wp_ptr a) else nullptr, w)
      else (nullptr, w))"

definition wp_clear :: "('w, 'x) refbase_ops_scheme \<Rightarrow> wp \<Rightarrow> 'w \<Rightarrow> wp \<times> 'w" where
  "wp_clear R a w =
     (if wp_ptr a \<noteq> nullptr then (wp_null, decWeak R (wp_refs a) w) else (a, w))"

lemmas wp_defs = wp_fromExisting_def wp_of_ptr_def wp_of_sp_def wp_copy_def wp_convert_def
  wp_destroy_def wp_assign_ptr_def wp_assign_def wp_assign_sp_def wp_set_object_and_refs_def
  wp_promote_def wp_clear_def wp_null_def

section \<open>Programs over weak pointers\<close>

datatype wp_op =
    WNull | WFromExisting ptr | WOfPtr ptr | WOfSp ptr | WCopy nat | WConvert nat
  | WAssign nat nat | WAssignPtr nat ptr | WAssignSp nat ptr | WClear nat | WDestroy nat

fun wp_step :: "('w, 'x) refbase_ops_scheme \<Rightarrow> wp_op \<Rightarrow> wp list \<times> 'w \<Rightarrow> wp list \<times> 'w" where
  "wp_step R WNull (vs, w) = (vs @ [wp_null], w)"
| "wp_step R (WFromExisting p) (vs, w) = (let (a, w) = wp_fromExisting R p w in (vs @ [a], w))"
| "wp_step R (WOfPtr p) (vs, w) = (let (a, w) = wp_of_ptr R p w in (vs @ [a], w))"
| "wp_step R (WOfSp p) (vs, w) = (let (a, w) = wp_of_sp R p w in (vs @ [a], w))"
| "wp_step R (WCopy j) (vs, w) =
     (if j < length vs then let (a, w) = wp_copy R (vs ! j) w in (vs @ [a], w) else (vs, w))"
| "wp_step R (WConvert j) (vs, w) =
     (if j < length vs then let (a, w) = wp_convert R (vs ! j) w in (vs @ [a], w) else (vs, w))"
| "wp_step R (WAssign i j) (vs, w) =
     (if i < length vs \<and> j < length vs
      then let (a, w) = wp_assign R (vs ! i) (vs ! j) w in (vs[i := a], w) else (vs, w))"
| "wp_step R (WAssignPtr i p) (vs, w) =
     (if i < length vs then let (a, w) = wp_assign_ptr R (vs ! i) p w in (vs[i := a], w) else (vs, w))"
| "wp_step R (WAssignSp i p) (vs, w) =
     (if i < length vs then let (a, w) = wp_assign_sp R (vs ! i) p w in (vs[i := a], w) else (vs, w))"
| "wp_step R (WClear i) (vs, w) =
     (if i < length vs then let (a, w) = wp_clear R (vs ! i) w in (vs[i := a], w) else (vs, w))"
| "wp_step R (WDestroy i) (vs, w) =
     (if i < length vs then (vs[i := wp_null], wp_destroy R (vs ! i) w) else (vs, w))"

fun wp_run :: "('w, 'x) refbase_ops_scheme \<Rightarrow> wp_op list \<Rightarrow> wp list \<times> 'w \<Rightarrow> wp list \<times> 'w" where
  "wp_run R [] s = s"
| "wp_run R (x # xs) s = wp_run R xs (wp_step R x s)"

text \<open>
  What \<open>RefBase.h\<close> documents of the weak count: \<open>incWeak\<close> and \<open>createWeak\<close> take one weak
  reference, \<open>decWeak\<close> gives one back, and \<open>createWeak\<close> returns the object's
  \<open>weakref_type\<close>. \<open>wc w r\<close> counts the weak references taken through these on \<open>r\<close>.
\<close>

definition weak_counting :: "('w, 'x) refbase_ops_scheme \<Rightarrow> ('w \<Rightarrow> ptr \<Rightarrow> int) \<Rightarrow> bool" where
  "weak_counting R wc \<longleftrightarrow>
     (\<forall>r w. wc (incWeak R r w) = (wc w)(r := wc w r + 1)) \<and>
     (\<forall>r w. wc (decWeak R r w) = (wc w)(r := wc w r - 1)) \<and>
     (\<forall>p w. fst (createWeak R p w) = getWeakRefs R p w) \<and>
     (\<forall>p w. wc (snd (createWeak R p w)) =
        (wc w)(getWeakRefs R p w := wc w (getWeakRefs R p w) + 1))"

text \<open>The weak references a list of \<open>wp<T>\<close> objects holds on \<open>r\<close>.\<close>

definition holds :: "wp \<Rightarrow> ptr \<Rightarrow> int" where
  "holds a r = (if wp_ptr a \<noteq> nullptr \<and> wp_refs a = r then 1 else 0)"

fun held :: "wp list \<Rightarrow> ptr \<Rightarrow> int" where
  "held [] r = 0"
| "held (a # as) r = holds a r + held as r"

lemma held_append [simp]: "held (as @ bs) r = held as r + held bs r"
  by (induction as) auto

lemma held_update: "i < length as \<Longrightarrow> held (as[i := a]) r = held as r - holds (as ! i) r + holds a r"
proof (induction as arbitrary: i)
  case Nil
  then show ?case by simp
next
  case (Cons b as)
  then show ?case by (cases i) auto
qed

lemma weak_countingD:
  assumes "weak_counting R wc"
  shows "wc (incWeak R r w) = (wc w)(r := wc w r + 1)"
    and "wc (decWeak R r w) = (wc w)(r := wc w r - 1)"
    and "createWeak R p w = (q, w') \<Longrightarrow> q = getWeakRefs R p w"
    and "createWeak R p w = (q, w') \<Longrightarrow> wc w' = (wc w)(q := wc w q + 1)"
  using assms unfolding weak_counting_def by (metis fst_conv snd_conv)+

lemma wp_step_balance:
  assumes "weak_counting R wc" and "wp_step R x (vs, w) = (vs', w')"
  shows "wc w' r - held vs' r = wc w r - held vs r"
  using assms(2)
  by (cases x)
     (auto simp: wp_defs Let_def held_update holds_def weak_countingD(1,2) [OF assms(1)]
       split: if_splits prod.splits dest!: weak_countingD(4) [OF assms(1)])

lemma wp_run_balance:
  assumes "weak_counting R wc"
  shows "wp_run R xs (vs, w) = (vs', w') \<Longrightarrow> wc w' r - held vs' r = wc w r - held vs r"
proof (induction xs arbitrary: vs w)
  case (Cons x xs)
  obtain vs1 w1 where s: "wp_step R x (vs, w) = (vs1, w1)" by fastforce
  with Cons.prems have "wp_run R xs (vs1, w1) = (vs', w')" by simp
  then have "wc w' r - held vs' r = wc w1 r - held vs1 r" by (rule Cons.IH)
  with wp_step_balance [OF assms s] show ?case by simp
qed simp

text \<open>
  An instance of the counting operations: the world is a pair of counters, the
  \<open>weakref_type\<close> of the object at \<open>p\<close> is at \<open>p + 8\<close>, and an object is alive while its
  strong count is positive.
\<close>

type_synonym counters = "(ptr \<Rightarrow> int) \<times> (ptr \<Rightarrow> int)"

definition counting_refbase :: "counters refbase_ops" where
  "counting_refbase = \<lparr>
     incStrong = (\<lambda>p (s, k). (s(p := s p + 1), k)),
     incStrongRequireStrong = (\<lambda>p (s, k). (s(p := s p + 1), k)),
     decStrong = (\<lambda>p (s, k). (s(p := s p - 1), k)),
     getWeakRefs = (\<lambda>p w. p + 8),
     createWeak = (\<lambda>p (s, k). (p + 8, (s, k(p + 8 := k (p + 8) + 1)))),
     incWeak = (\<lambda>r (s, k). (s, k(r := k r + 1))),
     decWeak = (\<lambda>r (s, k). (s, k(r := k r - 1))),
     attemptIncStrong = (\<lambda>r (s, k). if s (r - 8) > 0 then (True, (s(r - 8 := s (r - 8) + 1), k))
                                    else (False, (s, k)))\<rparr>"

lemma counting_refbase_weak: "weak_counting counting_refbase snd"
  by (auto simp: weak_counting_def counting_refbase_def)

text \<open>
  C39. Over any run of constructors, copies, assignments, resets and destructors of \<open>wp<T>\<close>
  objects, the weak references taken and not yet returned are those the live objects hold.
\<close>

theorem wp_weak_balance:
  assumes "weak_counting R wc" and "wp_run R xs ([], w) = (vs, w')"
  shows "wc w' r = wc w r + held vs r"
  using wp_run_balance [OF assms, of r] by simp

theorem wp_weak_balance_witness:
  "snd (snd (wp_run counting_refbase [WFromExisting 16, WCopy 0, WAssignSp 0 32, WDestroy 1, WClear 0]
      ([], (\<lambda>_. 0, \<lambda>_. 0)))) 24 = 0"
proof -
  let ?s = "wp_run counting_refbase [WFromExisting 16, WCopy 0, WAssignSp 0 32, WDestroy 1, WClear 0]
      ([], (\<lambda>_. 0, \<lambda>_. 0))"
  have "fst ?s = [wp_null, wp_null]"
    by (simp add: wp_defs counting_refbase_def Let_def)
  then have "?s = ([wp_null, wp_null], snd ?s)"
    by (simp only: prod_eq_iff fst_conv snd_conv)
  from wp_weak_balance [OF counting_refbase_weak this, of 24] show ?thesis
    by (simp only: snd_conv held.simps) (simp add: wp_null_def holds_def)
qed

text \<open>
  \<open>operator <\<close> on weak pointers is a strict linear order whose equivalence, under the
  documented invariant that a \<open>weakref_type\<close> belongs to one object, is \<open>operator ==\<close>; so the
  two notions of key equality that \<open>std::map\<close> and the interceptor use agree.
\<close>

lemma wp_order_matches_eq:
  assumes "wp_refs a = wp_refs b \<longrightarrow> wp_ptr a = wp_ptr b"
  shows "\<not> wp_less a b \<and> \<not> wp_less b a \<longleftrightarrow> wp_eq a b"
  using assms by (auto simp: wp_less_def wp_eq_def)

lemma wp_order_matches_eq_witness:
  "(\<not> wp_less (Wp 16 24) (Wp 32 40) \<and> \<not> wp_less (Wp 32 40) (Wp 16 24)) \<longleftrightarrow> wp_eq (Wp 16 24) (Wp 32 40)"
  using wp_order_matches_eq [of "Wp 16 24" "Wp 32 40"] by simp

end
