(* ===== verification/Android_Errors.thy ===== *)
theory Android_Errors
  imports Prelude
begin

text \<open>
  The status codes of \<open>external/AOSP/include/utils/Errors.h\<close>. A \<open>status_t\<close> is a 32-bit
  two's complement integer; the negated \<open>errno\<close> values are those of the Linux ABI.
\<close>

type_synonym status_t = u32

datatype android_error =
    OK | UNKNOWN_ERROR | NO_MEMORY | INVALID_OPERATION | BAD_VALUE | BAD_TYPE
  | NAME_NOT_FOUND | PERMISSION_DENIED | NO_INIT | ALREADY_EXISTS | DEAD_OBJECT
  | FAILED_TRANSACTION | BAD_INDEX | NOT_ENOUGH_DATA | WOULD_BLOCK | TIMED_OUT
  | UNKNOWN_TRANSACTION | FDS_NOT_ALLOWED | UNEXPECTED_NULL

definition UNKNOWN_ERROR_value :: int where "UNKNOWN_ERROR_value = - 2147483647 - 1"

fun error_value :: "android_error \<Rightarrow> int" where
  "error_value OK = 0"
| "error_value UNKNOWN_ERROR = UNKNOWN_ERROR_value"
| "error_value NO_MEMORY = - 12"
| "error_value INVALID_OPERATION = - 38"
| "error_value BAD_VALUE = - 22"
| "error_value BAD_TYPE = UNKNOWN_ERROR_value + 1"
| "error_value NAME_NOT_FOUND = - 2"
| "error_value PERMISSION_DENIED = - 1"
| "error_value NO_INIT = - 19"
| "error_value ALREADY_EXISTS = - 17"
| "error_value DEAD_OBJECT = - 32"
| "error_value FAILED_TRANSACTION = UNKNOWN_ERROR_value + 2"
| "error_value BAD_INDEX = - 75"
| "error_value NOT_ENOUGH_DATA = - 61"
| "error_value WOULD_BLOCK = - 11"
| "error_value TIMED_OUT = - 110"
| "error_value UNKNOWN_TRANSACTION = - 74"
| "error_value FDS_NOT_ALLOWED = UNKNOWN_ERROR_value + 7"
| "error_value UNEXPECTED_NULL = UNKNOWN_ERROR_value + 8"

definition status_of :: "android_error \<Rightarrow> status_t" where
  "status_of e = word_of_int (error_value e)"

abbreviation is_ok :: "status_t \<Rightarrow> bool" where
  "is_ok s \<equiv> s = status_of OK"

text \<open>Every error is a negative 32-bit value, and no two errors share one.\<close>

lemma error_value_negative: "e \<noteq> OK \<Longrightarrow> error_value e < 0"
  by (cases e) (simp_all add: UNKNOWN_ERROR_value_def)

lemma error_value_range: "- (2 ^ 31) \<le> error_value e \<and> error_value e < 2 ^ 31"
  by (cases e) (simp_all add: UNKNOWN_ERROR_value_def)

lemma sint_status_of: "sint (status_of e) = error_value e"
  by (cases e) (simp_all add: status_of_def UNKNOWN_ERROR_value_def)

definition all_errors :: "android_error list" where
  "all_errors = [OK, UNKNOWN_ERROR, NO_MEMORY, INVALID_OPERATION, BAD_VALUE, BAD_TYPE,
    NAME_NOT_FOUND, PERMISSION_DENIED, NO_INIT, ALREADY_EXISTS, DEAD_OBJECT, FAILED_TRANSACTION,
    BAD_INDEX, NOT_ENOUGH_DATA, WOULD_BLOCK, TIMED_OUT, UNKNOWN_TRANSACTION, FDS_NOT_ALLOWED,
    UNEXPECTED_NULL]"

lemma all_errors_UNIV: "e \<in> set all_errors"
  by (cases e) (simp_all add: all_errors_def)

lemma status_of_inject [simp]: "status_of e = status_of f \<longleftrightarrow> e = f"
proof -
  have "distinct (map error_value all_errors)"
    by (simp add: all_errors_def UNKNOWN_ERROR_value_def)
  then have "error_value e = error_value f \<Longrightarrow> e = f"
    using all_errors_UNIV [of e] all_errors_UNIV [of f] by (auto simp: distinct_map inj_on_def)
  then show ?thesis by (metis sint_status_of)
qed

end
