(* ===== verification/Codec.thy ===== *)
theory Codec
  imports Prelude
begin

text \<open>
  The interface of a fixed-width byte encoding, as the binder structures are laid out in the
  read buffer: every value takes the same number of bytes, and encoder and decoder are inverse
  on byte runs of that length. The integer encodings of \<open>Prelude\<close> are its first instances;
  \<open>Binder_Uapi\<close> adds the kernel structures.
\<close>

section \<open>Fixed-width codecs\<close>

locale fixed_codec =
  fixes enc :: "'a \<Rightarrow> byte list"
    and dec :: "byte list \<Rightarrow> 'a"
    and width :: nat
  assumes enc_length: "length (enc x) = width"
    and dec_enc_id: "dec (enc x) = x"
    and enc_dec_id: "length bs = width \<Longrightarrow> enc (dec bs) = bs"
begin

lemma enc_inject: "enc x = enc y \<longleftrightarrow> x = y"
  by (metis dec_enc_id)

lemma dec_inject: "length bs = width \<Longrightarrow> length cs = width \<Longrightarrow> dec bs = dec cs \<longleftrightarrow> bs = cs"
  by (metis enc_dec_id)

lemma dec_prefix: "dec (take width (enc x @ rest)) = x"
  by (simp add: enc_length dec_enc_id)

lemma drop_prefix: "drop width (enc x @ rest) = rest"
  by (simp add: enc_length)

text \<open>Storing a value in memory and loading it back.\<close>

lemma load_store:
  assumes "width < 2 ^ 64"
  shows "dec (mem_read (mem_write m a (enc x)) a width) = x"
  using mem_read_write_same [of "enc x" m a] assms by (simp add: enc_length dec_enc_id)

lemma store_loaded:
  assumes "width < 2 ^ 64"
  shows "mem_read (mem_write m a (enc (dec (mem_read m a width)))) a width = mem_read m a width"
  using mem_read_write_same [of "mem_read m a width" m a] assms by (simp add: enc_dec_id)

end

lemma enc_dec16: "length bs = 2 \<Longrightarrow> enc16 (dec16 bs) = bs"
  using le_nat_bound [of bs] le_bytes_le_nat [of bs]
  by (simp add: enc16_def dec16_def unat_of_nat)

lemma enc_dec32: "length bs = 4 \<Longrightarrow> enc32 (dec32 bs) = bs"
  using le_nat_bound [of bs] le_bytes_le_nat [of bs]
  by (simp add: enc32_def dec32_def unat_of_nat)

lemma enc_dec64: "length bs = 8 \<Longrightarrow> enc64 (dec64 bs) = bs"
  using le_nat_bound [of bs] le_bytes_le_nat [of bs]
  by (simp add: enc64_def dec64_def unat_of_nat)

interpretation u16_codec: fixed_codec enc16 dec16 2
  by unfold_locales (simp_all add: enc_dec16)

interpretation u32_codec: fixed_codec enc32 dec32 4
  by unfold_locales (simp_all add: enc_dec32)

interpretation u64_codec: fixed_codec enc64 dec64 8
  by unfold_locales (simp_all add: enc_dec64)

end
