(* ===== verification/Binder_Uapi.thy ===== *)
theory Binder_Uapi
  imports Codec
begin

text \<open>
  The binder driver's user API, \<open>external/linux-kernel/include/android/binder.h\<close>: object
  type tags, the C layout of every structure the driver exchanges with user space, the
  \<open>ioctl\<close> request numbers, the return commands (\<open>BR_*\<close>) and the command protocol
  (\<open>BC_*\<close>), and the byte codec of \<open>binder_transaction_data\<close>, which the interceptor edits in
  place. The layout rules are the C rules of the LP64 Android ABIs (a 64-bit integer has
  alignment 8) and the request encoding is the generic one of \<open>linux/ioctl.h\<close>: number in bits
  0--7, type in bits 8--15, size in bits 16--29, direction in bits 30--31.
\<close>

section \<open>C layout\<close>

datatype ctype = U8 | U32 | S32 | U64 | S64
  | Arr nat ctype | Struct "ctype list" | Packed "ctype list" | Union "ctype list"

definition align_up :: "nat \<Rightarrow> nat \<Rightarrow> nat" where
  "align_up n a = (n + (a - 1)) div a * a"

fun struct_end :: "nat \<Rightarrow> (nat \<times> nat) list \<Rightarrow> nat" where
  "struct_end off [] = off"
| "struct_end off ((s, a) # fs) = struct_end (align_up off a + s) fs"

fun alignof :: "ctype \<Rightarrow> nat" where
  "alignof U8 = 1"
| "alignof U32 = 4"
| "alignof S32 = 4"
| "alignof U64 = 8"
| "alignof S64 = 8"
| "alignof (Arr n t) = alignof t"
| "alignof (Struct ts) = foldr max (map alignof ts) 1"
| "alignof (Packed ts) = 1"
| "alignof (Union ts) = foldr max (map alignof ts) 1"

fun sizeof :: "ctype \<Rightarrow> nat" where
  "sizeof U8 = 1"
| "sizeof U32 = 4"
| "sizeof S32 = 4"
| "sizeof U64 = 8"
| "sizeof S64 = 8"
| "sizeof (Arr n t) = n * sizeof t"
| "sizeof (Struct ts) =
     align_up (struct_end 0 (map (\<lambda>t. (sizeof t, alignof t)) ts)) (foldr max (map alignof ts) 1)"
| "sizeof (Packed ts) = sum_list (map sizeof ts)"
| "sizeof (Union ts) =
     align_up (foldr max (map sizeof ts) 0) (foldr max (map alignof ts) 1)"

section \<open>Object type tags and flags\<close>

definition B_PACK_CHARS :: "char \<Rightarrow> char \<Rightarrow> char \<Rightarrow> u32 \<Rightarrow> u32" where
  "B_PACK_CHARS c1 c2 c3 c4 =
     push_bit 24 (of_char c1) OR push_bit 16 (of_char c2) OR push_bit 8 (of_char c3) OR c4"

definition B_TYPE_LARGE :: u32 where "B_TYPE_LARGE = 0x85"

datatype binder_object_type =
    BINDER_TYPE_BINDER | BINDER_TYPE_WEAK_BINDER | BINDER_TYPE_HANDLE
  | BINDER_TYPE_WEAK_HANDLE | BINDER_TYPE_FD | BINDER_TYPE_FDA | BINDER_TYPE_PTR

fun binder_type_code :: "binder_object_type \<Rightarrow> u32" where
  "binder_type_code BINDER_TYPE_BINDER = B_PACK_CHARS CHR ''s'' CHR ''b'' CHR ''*'' B_TYPE_LARGE"
| "binder_type_code BINDER_TYPE_WEAK_BINDER = B_PACK_CHARS CHR ''w'' CHR ''b'' CHR ''*'' B_TYPE_LARGE"
| "binder_type_code BINDER_TYPE_HANDLE = B_PACK_CHARS CHR ''s'' CHR ''h'' CHR ''*'' B_TYPE_LARGE"
| "binder_type_code BINDER_TYPE_WEAK_HANDLE = B_PACK_CHARS CHR ''w'' CHR ''h'' CHR ''*'' B_TYPE_LARGE"
| "binder_type_code BINDER_TYPE_FD = B_PACK_CHARS CHR ''f'' CHR ''d'' CHR ''*'' B_TYPE_LARGE"
| "binder_type_code BINDER_TYPE_FDA = B_PACK_CHARS CHR ''f'' CHR ''d'' CHR ''a'' B_TYPE_LARGE"
| "binder_type_code BINDER_TYPE_PTR = B_PACK_CHARS CHR ''p'' CHR ''t'' CHR ''*'' B_TYPE_LARGE"

datatype flat_binder_flag =
    FLAT_BINDER_FLAG_PRIORITY_MASK | FLAT_BINDER_FLAG_ACCEPTS_FDS
  | FLAT_BINDER_FLAG_TXN_SECURITY_CTX

fun flat_binder_flag_value :: "flat_binder_flag \<Rightarrow> u32" where
  "flat_binder_flag_value FLAT_BINDER_FLAG_PRIORITY_MASK = 0xff"
| "flat_binder_flag_value FLAT_BINDER_FLAG_ACCEPTS_FDS = 0x100"
| "flat_binder_flag_value FLAT_BINDER_FLAG_TXN_SECURITY_CTX = 0x1000"

definition BINDER_BUFFER_FLAG_HAS_PARENT :: u32 where "BINDER_BUFFER_FLAG_HAS_PARENT = 1"

section \<open>Structures\<close>

text \<open>\<open>BINDER_IPC_32BIT\<close> is not defined in this build: sizes and pointers are 64 bits wide.\<close>

abbreviation binder_size_t :: ctype where "binder_size_t \<equiv> U64"
abbreviation binder_uintptr_t :: ctype where "binder_uintptr_t \<equiv> U64"

definition binder_object_header :: ctype where "binder_object_header = Struct [U32]"
definition flat_binder_object :: ctype where
  "flat_binder_object =
     Struct [binder_object_header, U32, Union [binder_uintptr_t, U32], binder_uintptr_t]"
definition binder_fd_object :: ctype where
  "binder_fd_object =
     Struct [binder_object_header, U32, Union [binder_uintptr_t, U32], binder_uintptr_t]"
definition binder_buffer_object :: ctype where
  "binder_buffer_object =
     Struct [binder_object_header, U32, binder_uintptr_t, binder_size_t, binder_size_t, binder_size_t]"
definition binder_fd_array_object :: ctype where
  "binder_fd_array_object =
     Struct [binder_object_header, U32, binder_size_t, binder_size_t, binder_size_t]"
definition binder_version :: ctype where "binder_version = Struct [S32]"
definition BINDER_CURRENT_PROTOCOL_VERSION :: int where "BINDER_CURRENT_PROTOCOL_VERSION = 8"
definition binder_node_debug_info :: ctype where
  "binder_node_debug_info = Struct [binder_uintptr_t, binder_uintptr_t, U32, U32]"
definition binder_node_info_for_ref :: ctype where
  "binder_node_info_for_ref = Struct [U32, U32, U32, U32, U32, U32]"
definition binder_freeze_info :: ctype where "binder_freeze_info = Struct [U32, U32, U32]"
definition binder_frozen_status_info :: ctype where
  "binder_frozen_status_info = Struct [U32, U32, U32]"
definition binder_frozen_state_info :: ctype where
  "binder_frozen_state_info = Struct [binder_uintptr_t, U32, U32]"
definition binder_extended_error :: ctype where "binder_extended_error = Struct [U32, U32, S32]"
definition binder_write_read_t :: ctype where
  "binder_write_read_t =
     Struct [binder_size_t, binder_size_t, binder_uintptr_t, binder_size_t, binder_size_t,
       binder_uintptr_t]"
definition binder_transaction_data_t :: ctype where
  "binder_transaction_data_t =
     Struct [Union [U32, binder_uintptr_t], binder_uintptr_t, U32, U32, S32, U32,
       binder_size_t, binder_size_t,
       Union [Struct [binder_uintptr_t, binder_uintptr_t], Arr 8 U8]]"
definition binder_transaction_data_secctx_t :: ctype where
  "binder_transaction_data_secctx_t = Struct [binder_transaction_data_t, binder_uintptr_t]"
definition binder_transaction_data_sg :: ctype where
  "binder_transaction_data_sg = Struct [binder_transaction_data_t, binder_size_t]"
definition binder_ptr_cookie :: ctype where
  "binder_ptr_cookie = Struct [binder_uintptr_t, binder_uintptr_t]"
definition binder_handle_cookie :: ctype where
  "binder_handle_cookie = Packed [U32, binder_uintptr_t]"
definition binder_pri_desc :: ctype where "binder_pri_desc = Struct [S32, U32]"
definition binder_pri_ptr_cookie :: ctype where
  "binder_pri_ptr_cookie = Struct [S32, binder_uintptr_t, binder_uintptr_t]"

lemmas uapi_struct_defs =
  binder_object_header_def flat_binder_object_def binder_fd_object_def binder_buffer_object_def
  binder_fd_array_object_def binder_version_def binder_node_debug_info_def
  binder_node_info_for_ref_def binder_freeze_info_def binder_frozen_status_info_def
  binder_frozen_state_info_def binder_extended_error_def binder_write_read_t_def
  binder_transaction_data_t_def binder_transaction_data_secctx_t_def binder_transaction_data_sg_def
  binder_ptr_cookie_def binder_handle_cookie_def binder_pri_desc_def binder_pri_ptr_cookie_def

section \<open>Request numbers\<close>

definition IOC :: "u32 \<Rightarrow> char \<Rightarrow> u32 \<Rightarrow> nat \<Rightarrow> u32" where
  "IOC dir ty nr sz =
     push_bit 30 dir OR push_bit 16 (of_nat sz) OR push_bit 8 (of_char ty) OR nr"

definition IO :: "char \<Rightarrow> u32 \<Rightarrow> u32" where "IO ty nr = IOC 0 ty nr 0"
definition IOW :: "char \<Rightarrow> u32 \<Rightarrow> ctype \<Rightarrow> u32" where "IOW ty nr t = IOC 1 ty nr (sizeof t)"
definition IOR :: "char \<Rightarrow> u32 \<Rightarrow> ctype \<Rightarrow> u32" where "IOR ty nr t = IOC 2 ty nr (sizeof t)"
definition IOWR :: "char \<Rightarrow> u32 \<Rightarrow> ctype \<Rightarrow> u32" where "IOWR ty nr t = IOC 3 ty nr (sizeof t)"

definition IOC_SIZE :: "u32 \<Rightarrow> u32" where "IOC_SIZE nr = drop_bit 16 nr AND 0x3fff"

datatype binder_ioctl =
    BINDER_WRITE_READ
  | BINDER_SET_IDLE_TIMEOUT
  | BINDER_SET_MAX_THREADS
  | BINDER_SET_IDLE_PRIORITY
  | BINDER_SET_CONTEXT_MGR
  | BINDER_THREAD_EXIT
  | BINDER_VERSION
  | BINDER_GET_NODE_DEBUG_INFO
  | BINDER_GET_NODE_INFO_FOR_REF
  | BINDER_SET_CONTEXT_MGR_EXT
  | BINDER_FREEZE
  | BINDER_GET_FROZEN_INFO
  | BINDER_ENABLE_ONEWAY_SPAM_DETECTION
  | BINDER_GET_EXTENDED_ERROR

fun ioctl_arg :: "binder_ioctl \<Rightarrow> ctype option" where
  "ioctl_arg BINDER_WRITE_READ = Some binder_write_read_t"
| "ioctl_arg BINDER_SET_IDLE_TIMEOUT = Some S64"
| "ioctl_arg BINDER_SET_MAX_THREADS = Some U32"
| "ioctl_arg BINDER_SET_IDLE_PRIORITY = Some S32"
| "ioctl_arg BINDER_SET_CONTEXT_MGR = Some S32"
| "ioctl_arg BINDER_THREAD_EXIT = Some S32"
| "ioctl_arg BINDER_VERSION = Some binder_version"
| "ioctl_arg BINDER_GET_NODE_DEBUG_INFO = Some binder_node_debug_info"
| "ioctl_arg BINDER_GET_NODE_INFO_FOR_REF = Some binder_node_info_for_ref"
| "ioctl_arg BINDER_SET_CONTEXT_MGR_EXT = Some flat_binder_object"
| "ioctl_arg BINDER_FREEZE = Some binder_freeze_info"
| "ioctl_arg BINDER_GET_FROZEN_INFO = Some binder_frozen_status_info"
| "ioctl_arg BINDER_ENABLE_ONEWAY_SPAM_DETECTION = Some U32"
| "ioctl_arg BINDER_GET_EXTENDED_ERROR = Some binder_extended_error"

fun ioctl_code :: "binder_ioctl \<Rightarrow> u32" where
  "ioctl_code BINDER_WRITE_READ = IOWR CHR ''b'' 1 binder_write_read_t"
| "ioctl_code BINDER_SET_IDLE_TIMEOUT = IOW CHR ''b'' 3 S64"
| "ioctl_code BINDER_SET_MAX_THREADS = IOW CHR ''b'' 5 U32"
| "ioctl_code BINDER_SET_IDLE_PRIORITY = IOW CHR ''b'' 6 S32"
| "ioctl_code BINDER_SET_CONTEXT_MGR = IOW CHR ''b'' 7 S32"
| "ioctl_code BINDER_THREAD_EXIT = IOW CHR ''b'' 8 S32"
| "ioctl_code BINDER_VERSION = IOWR CHR ''b'' 9 binder_version"
| "ioctl_code BINDER_GET_NODE_DEBUG_INFO = IOWR CHR ''b'' 11 binder_node_debug_info"
| "ioctl_code BINDER_GET_NODE_INFO_FOR_REF = IOWR CHR ''b'' 12 binder_node_info_for_ref"
| "ioctl_code BINDER_SET_CONTEXT_MGR_EXT = IOW CHR ''b'' 13 flat_binder_object"
| "ioctl_code BINDER_FREEZE = IOW CHR ''b'' 14 binder_freeze_info"
| "ioctl_code BINDER_GET_FROZEN_INFO = IOWR CHR ''b'' 15 binder_frozen_status_info"
| "ioctl_code BINDER_ENABLE_ONEWAY_SPAM_DETECTION = IOW CHR ''b'' 16 U32"
| "ioctl_code BINDER_GET_EXTENDED_ERROR = IOWR CHR ''b'' 17 binder_extended_error"

datatype transaction_flags =
    TF_ONE_WAY | TF_ROOT_OBJECT | TF_STATUS_CODE | TF_ACCEPT_FDS | TF_CLEAR_BUF | TF_UPDATE_TXN

fun tf_value :: "transaction_flags \<Rightarrow> u32" where
  "tf_value TF_ONE_WAY = 0x01"
| "tf_value TF_ROOT_OBJECT = 0x04"
| "tf_value TF_STATUS_CODE = 0x08"
| "tf_value TF_ACCEPT_FDS = 0x10"
| "tf_value TF_CLEAR_BUF = 0x20"
| "tf_value TF_UPDATE_TXN = 0x40"

section \<open>Return commands and command protocol\<close>

text \<open>\<open>br_arg\<close> and \<open>bc_arg\<close> give the structure that follows the command word, if any.\<close>

datatype binder_driver_return_protocol =
    BR_ERROR
  | BR_OK
  | BR_TRANSACTION_SEC_CTX
  | BR_TRANSACTION
  | BR_REPLY
  | BR_ACQUIRE_RESULT
  | BR_DEAD_REPLY
  | BR_TRANSACTION_COMPLETE
  | BR_INCREFS
  | BR_ACQUIRE
  | BR_RELEASE
  | BR_DECREFS
  | BR_ATTEMPT_ACQUIRE
  | BR_NOOP
  | BR_SPAWN_LOOPER
  | BR_FINISHED
  | BR_DEAD_BINDER
  | BR_CLEAR_DEATH_NOTIFICATION_DONE
  | BR_FAILED_REPLY
  | BR_FROZEN_REPLY
  | BR_ONEWAY_SPAM_SUSPECT
  | BR_TRANSACTION_PENDING_FROZEN
  | BR_FROZEN_BINDER
  | BR_CLEAR_FREEZE_NOTIFICATION_DONE

fun br_arg :: "binder_driver_return_protocol \<Rightarrow> ctype option" where
  "br_arg BR_ERROR = Some S32"
| "br_arg BR_OK = None"
| "br_arg BR_TRANSACTION_SEC_CTX = Some binder_transaction_data_secctx_t"
| "br_arg BR_TRANSACTION = Some binder_transaction_data_t"
| "br_arg BR_REPLY = Some binder_transaction_data_t"
| "br_arg BR_ACQUIRE_RESULT = Some S32"
| "br_arg BR_DEAD_REPLY = None"
| "br_arg BR_TRANSACTION_COMPLETE = None"
| "br_arg BR_INCREFS = Some binder_ptr_cookie"
| "br_arg BR_ACQUIRE = Some binder_ptr_cookie"
| "br_arg BR_RELEASE = Some binder_ptr_cookie"
| "br_arg BR_DECREFS = Some binder_ptr_cookie"
| "br_arg BR_ATTEMPT_ACQUIRE = Some binder_pri_ptr_cookie"
| "br_arg BR_NOOP = None"
| "br_arg BR_SPAWN_LOOPER = None"
| "br_arg BR_FINISHED = None"
| "br_arg BR_DEAD_BINDER = Some binder_uintptr_t"
| "br_arg BR_CLEAR_DEATH_NOTIFICATION_DONE = Some binder_uintptr_t"
| "br_arg BR_FAILED_REPLY = None"
| "br_arg BR_FROZEN_REPLY = None"
| "br_arg BR_ONEWAY_SPAM_SUSPECT = None"
| "br_arg BR_TRANSACTION_PENDING_FROZEN = None"
| "br_arg BR_FROZEN_BINDER = Some binder_frozen_state_info"
| "br_arg BR_CLEAR_FREEZE_NOTIFICATION_DONE = Some binder_uintptr_t"

fun br_code :: "binder_driver_return_protocol \<Rightarrow> u32" where
  "br_code BR_ERROR = IOR CHR ''r'' 0 S32"
| "br_code BR_OK = IO CHR ''r'' 1"
| "br_code BR_TRANSACTION_SEC_CTX = IOR CHR ''r'' 2 binder_transaction_data_secctx_t"
| "br_code BR_TRANSACTION = IOR CHR ''r'' 2 binder_transaction_data_t"
| "br_code BR_REPLY = IOR CHR ''r'' 3 binder_transaction_data_t"
| "br_code BR_ACQUIRE_RESULT = IOR CHR ''r'' 4 S32"
| "br_code BR_DEAD_REPLY = IO CHR ''r'' 5"
| "br_code BR_TRANSACTION_COMPLETE = IO CHR ''r'' 6"
| "br_code BR_INCREFS = IOR CHR ''r'' 7 binder_ptr_cookie"
| "br_code BR_ACQUIRE = IOR CHR ''r'' 8 binder_ptr_cookie"
| "br_code BR_RELEASE = IOR CHR ''r'' 9 binder_ptr_cookie"
| "br_code BR_DECREFS = IOR CHR ''r'' 10 binder_ptr_cookie"
| "br_code BR_ATTEMPT_ACQUIRE = IOR CHR ''r'' 11 binder_pri_ptr_cookie"
| "br_code BR_NOOP = IO CHR ''r'' 12"
| "br_code BR_SPAWN_LOOPER = IO CHR ''r'' 13"
| "br_code BR_FINISHED = IO CHR ''r'' 14"
| "br_code BR_DEAD_BINDER = IOR CHR ''r'' 15 binder_uintptr_t"
| "br_code BR_CLEAR_DEATH_NOTIFICATION_DONE = IOR CHR ''r'' 16 binder_uintptr_t"
| "br_code BR_FAILED_REPLY = IO CHR ''r'' 17"
| "br_code BR_FROZEN_REPLY = IO CHR ''r'' 18"
| "br_code BR_ONEWAY_SPAM_SUSPECT = IO CHR ''r'' 19"
| "br_code BR_TRANSACTION_PENDING_FROZEN = IO CHR ''r'' 20"
| "br_code BR_FROZEN_BINDER = IOR CHR ''r'' 21 binder_frozen_state_info"
| "br_code BR_CLEAR_FREEZE_NOTIFICATION_DONE = IOR CHR ''r'' 22 binder_uintptr_t"

datatype binder_driver_command_protocol =
    BC_TRANSACTION
  | BC_REPLY
  | BC_ACQUIRE_RESULT
  | BC_FREE_BUFFER
  | BC_INCREFS
  | BC_ACQUIRE
  | BC_RELEASE
  | BC_DECREFS
  | BC_INCREFS_DONE
  | BC_ACQUIRE_DONE
  | BC_ATTEMPT_ACQUIRE
  | BC_REGISTER_LOOPER
  | BC_ENTER_LOOPER
  | BC_EXIT_LOOPER
  | BC_REQUEST_DEATH_NOTIFICATION
  | BC_CLEAR_DEATH_NOTIFICATION
  | BC_DEAD_BINDER_DONE
  | BC_TRANSACTION_SG
  | BC_REPLY_SG
  | BC_REQUEST_FREEZE_NOTIFICATION
  | BC_CLEAR_FREEZE_NOTIFICATION
  | BC_FREEZE_NOTIFICATION_DONE

fun bc_arg :: "binder_driver_command_protocol \<Rightarrow> ctype option" where
  "bc_arg BC_TRANSACTION = Some binder_transaction_data_t"
| "bc_arg BC_REPLY = Some binder_transaction_data_t"
| "bc_arg BC_ACQUIRE_RESULT = Some S32"
| "bc_arg BC_FREE_BUFFER = Some binder_uintptr_t"
| "bc_arg BC_INCREFS = Some U32"
| "bc_arg BC_ACQUIRE = Some U32"
| "bc_arg BC_RELEASE = Some U32"
| "bc_arg BC_DECREFS = Some U32"
| "bc_arg BC_INCREFS_DONE = Some binder_ptr_cookie"
| "bc_arg BC_ACQUIRE_DONE = Some binder_ptr_cookie"
| "bc_arg BC_ATTEMPT_ACQUIRE = Some binder_pri_desc"
| "bc_arg BC_REGISTER_LOOPER = None"
| "bc_arg BC_ENTER_LOOPER = None"
| "bc_arg BC_EXIT_LOOPER = None"
| "bc_arg BC_REQUEST_DEATH_NOTIFICATION = Some binder_handle_cookie"
| "bc_arg BC_CLEAR_DEATH_NOTIFICATION = Some binder_handle_cookie"
| "bc_arg BC_DEAD_BINDER_DONE = Some binder_uintptr_t"
| "bc_arg BC_TRANSACTION_SG = Some binder_transaction_data_sg"
| "bc_arg BC_REPLY_SG = Some binder_transaction_data_sg"
| "bc_arg BC_REQUEST_FREEZE_NOTIFICATION = Some binder_handle_cookie"
| "bc_arg BC_CLEAR_FREEZE_NOTIFICATION = Some binder_handle_cookie"
| "bc_arg BC_FREEZE_NOTIFICATION_DONE = Some binder_uintptr_t"

fun bc_code :: "binder_driver_command_protocol \<Rightarrow> u32" where
  "bc_code BC_TRANSACTION = IOW CHR ''c'' 0 binder_transaction_data_t"
| "bc_code BC_REPLY = IOW CHR ''c'' 1 binder_transaction_data_t"
| "bc_code BC_ACQUIRE_RESULT = IOW CHR ''c'' 2 S32"
| "bc_code BC_FREE_BUFFER = IOW CHR ''c'' 3 binder_uintptr_t"
| "bc_code BC_INCREFS = IOW CHR ''c'' 4 U32"
| "bc_code BC_ACQUIRE = IOW CHR ''c'' 5 U32"
| "bc_code BC_RELEASE = IOW CHR ''c'' 6 U32"
| "bc_code BC_DECREFS = IOW CHR ''c'' 7 U32"
| "bc_code BC_INCREFS_DONE = IOW CHR ''c'' 8 binder_ptr_cookie"
| "bc_code BC_ACQUIRE_DONE = IOW CHR ''c'' 9 binder_ptr_cookie"
| "bc_code BC_ATTEMPT_ACQUIRE = IOW CHR ''c'' 10 binder_pri_desc"
| "bc_code BC_REGISTER_LOOPER = IO CHR ''c'' 11"
| "bc_code BC_ENTER_LOOPER = IO CHR ''c'' 12"
| "bc_code BC_EXIT_LOOPER = IO CHR ''c'' 13"
| "bc_code BC_REQUEST_DEATH_NOTIFICATION = IOW CHR ''c'' 14 binder_handle_cookie"
| "bc_code BC_CLEAR_DEATH_NOTIFICATION = IOW CHR ''c'' 15 binder_handle_cookie"
| "bc_code BC_DEAD_BINDER_DONE = IOW CHR ''c'' 16 binder_uintptr_t"
| "bc_code BC_TRANSACTION_SG = IOW CHR ''c'' 17 binder_transaction_data_sg"
| "bc_code BC_REPLY_SG = IOW CHR ''c'' 18 binder_transaction_data_sg"
| "bc_code BC_REQUEST_FREEZE_NOTIFICATION = IOW CHR ''c'' 19 binder_handle_cookie"
| "bc_code BC_CLEAR_FREEZE_NOTIFICATION = IOW CHR ''c'' 20 binder_handle_cookie"
| "bc_code BC_FREEZE_NOTIFICATION_DONE = IOW CHR ''c'' 21 binder_uintptr_t"

section \<open>Sizes and request numbers evaluated\<close>

lemma sizeof_uapi [simp]:
  "sizeof binder_transaction_data_t = 64"
  "sizeof binder_transaction_data_secctx_t = 72"
  "sizeof binder_transaction_data_sg = 72"
  "sizeof binder_write_read_t = 48"
  "sizeof binder_ptr_cookie = 16"
  "sizeof binder_handle_cookie = 12"
  "sizeof binder_pri_desc = 8"
  "sizeof binder_pri_ptr_cookie = 24"
  "sizeof flat_binder_object = 24"
  "sizeof binder_frozen_state_info = 16"
  by (simp_all add: uapi_struct_defs align_up_def)

lemma br_code_values:
  "br_code BR_TRANSACTION = 0x80407202"
  "br_code BR_TRANSACTION_SEC_CTX = 0x80487202"
  "br_code BR_NOOP = 0x0000720C"
  "ioctl_code BINDER_WRITE_READ = 0xC0306201"
  by (simp_all add: IOR_def IO_def IOWR_def IOC_def)

definition arg_size :: "ctype option \<Rightarrow> nat" where
  "arg_size a = (case a of None \<Rightarrow> 0 | Some t \<Rightarrow> sizeof t)"

definition all_br :: "binder_driver_return_protocol list" where
  "all_br = [
    BR_ERROR, BR_OK, BR_TRANSACTION_SEC_CTX, BR_TRANSACTION, BR_REPLY, BR_ACQUIRE_RESULT,
    BR_DEAD_REPLY, BR_TRANSACTION_COMPLETE, BR_INCREFS, BR_ACQUIRE, BR_RELEASE, BR_DECREFS,
    BR_ATTEMPT_ACQUIRE, BR_NOOP, BR_SPAWN_LOOPER, BR_FINISHED, BR_DEAD_BINDER,
    BR_CLEAR_DEATH_NOTIFICATION_DONE, BR_FAILED_REPLY, BR_FROZEN_REPLY, BR_ONEWAY_SPAM_SUSPECT,
    BR_TRANSACTION_PENDING_FROZEN, BR_FROZEN_BINDER, BR_CLEAR_FREEZE_NOTIFICATION_DONE]"

definition all_bc :: "binder_driver_command_protocol list" where
  "all_bc = [
    BC_TRANSACTION, BC_REPLY, BC_ACQUIRE_RESULT, BC_FREE_BUFFER, BC_INCREFS, BC_ACQUIRE,
    BC_RELEASE, BC_DECREFS, BC_INCREFS_DONE, BC_ACQUIRE_DONE, BC_ATTEMPT_ACQUIRE,
    BC_REGISTER_LOOPER, BC_ENTER_LOOPER, BC_EXIT_LOOPER, BC_REQUEST_DEATH_NOTIFICATION,
    BC_CLEAR_DEATH_NOTIFICATION, BC_DEAD_BINDER_DONE, BC_TRANSACTION_SG, BC_REPLY_SG,
    BC_REQUEST_FREEZE_NOTIFICATION, BC_CLEAR_FREEZE_NOTIFICATION, BC_FREEZE_NOTIFICATION_DONE]"

lemmas ioc_defs = IO_def IOW_def IOR_def IOWR_def IOC_def IOC_SIZE_def arg_size_def

lemma all_br_UNIV: "c \<in> set all_br"
  by (cases c) (simp_all add: all_br_def)

lemma all_bc_UNIV: "c \<in> set all_bc"
  by (cases c) (simp_all add: all_bc_def)

lemma distinct_br_codes: "distinct (map br_code all_br)"
  by (simp add: all_br_def ioc_defs)

lemma distinct_bc_codes: "distinct (map bc_code all_bc)"
  by (simp add: all_bc_def ioc_defs)

lemma br_bc_codes_disjoint: "set (map br_code all_br) \<inter> set (map bc_code all_bc) = {}"
  by (simp add: all_br_def all_bc_def ioc_defs)

lemma br_code_inject: "br_code c = br_code d \<longleftrightarrow> c = d"
  using distinct_br_codes all_br_UNIV [of c] all_br_UNIV [of d]
  by (auto simp: distinct_map inj_on_def)

lemma bc_code_inject: "bc_code c = bc_code d \<longleftrightarrow> c = d"
  using distinct_bc_codes all_bc_UNIV [of c] all_bc_UNIV [of d]
  by (auto simp: distinct_map inj_on_def)

lemma br_code_neq_bc_code: "br_code c \<noteq> bc_code d"
  using br_bc_codes_disjoint all_br_UNIV [of c] all_bc_UNIV [of d] by auto

lemma br_size_field: "unat (IOC_SIZE (br_code c)) = arg_size (br_arg c)"
  by (cases c) (simp_all add: ioc_defs)

lemma bc_size_field: "unat (IOC_SIZE (bc_code c)) = arg_size (bc_arg c)"
  by (cases c) (simp_all add: ioc_defs)

lemma ioctl_size_field: "unat (IOC_SIZE (ioctl_code c)) = arg_size (ioctl_arg c)"
  by (cases c) (simp_all add: ioc_defs uapi_struct_defs align_up_def)

section \<open>The transaction structures as byte runs\<close>

text \<open>
  \<open>td_target\<close> is the 64-bit view (\<open>target.ptr\<close>) of the \<open>target\<close> union, whose other view
  \<open>target.handle\<close> is its low half; \<open>td_buffer\<close> and \<open>td_offsets\<close> are the pointer view of
  the \<open>data\<close> union, whose \<open>buf\<close> view is the first eight bytes of it.
\<close>

record binder_transaction_data =
  td_target :: u64
  td_cookie :: u64
  td_code :: u32
  td_flags :: u32
  td_sender_pid :: u32
  td_sender_euid :: u32
  td_data_size :: u64
  td_offsets_size :: u64
  td_buffer :: u64
  td_offsets :: u64

record binder_transaction_data_secctx =
  sc_transaction_data :: binder_transaction_data
  sc_secctx :: u64

record binder_write_read =
  bwr_write_size :: u64
  bwr_write_consumed :: u64
  bwr_write_buffer :: u64
  bwr_read_size :: u64
  bwr_read_consumed :: u64
  bwr_read_buffer :: u64

definition target_handle :: "binder_transaction_data \<Rightarrow> u32" where
  "target_handle t = ucast (td_target t)"

definition slice :: "nat \<Rightarrow> nat \<Rightarrow> byte list \<Rightarrow> byte list" where
  "slice i n bs = take n (drop i bs)"

definition enc_td :: "binder_transaction_data \<Rightarrow> byte list" where
  "enc_td t = enc64 (td_target t) @ enc64 (td_cookie t) @ enc32 (td_code t) @ enc32 (td_flags t) @
     enc32 (td_sender_pid t) @ enc32 (td_sender_euid t) @ enc64 (td_data_size t) @
     enc64 (td_offsets_size t) @ enc64 (td_buffer t) @ enc64 (td_offsets t)"

definition dec_td :: "byte list \<Rightarrow> binder_transaction_data" where
  "dec_td bs = \<lparr>td_target = dec64 (slice 0 8 bs), td_cookie = dec64 (slice 8 8 bs),
     td_code = dec32 (slice 16 4 bs), td_flags = dec32 (slice 20 4 bs),
     td_sender_pid = dec32 (slice 24 4 bs), td_sender_euid = dec32 (slice 28 4 bs),
     td_data_size = dec64 (slice 32 8 bs), td_offsets_size = dec64 (slice 40 8 bs),
     td_buffer = dec64 (slice 48 8 bs), td_offsets = dec64 (slice 56 8 bs)\<rparr>"

definition enc_secctx :: "binder_transaction_data_secctx \<Rightarrow> byte list" where
  "enc_secctx s = enc_td (sc_transaction_data s) @ enc64 (sc_secctx s)"

definition dec_secctx :: "byte list \<Rightarrow> binder_transaction_data_secctx" where
  "dec_secctx bs = \<lparr>sc_transaction_data = dec_td (take 64 bs), sc_secctx = dec64 (slice 64 8 bs)\<rparr>"

definition enc_bwr :: "binder_write_read \<Rightarrow> byte list" where
  "enc_bwr b = enc64 (bwr_write_size b) @ enc64 (bwr_write_consumed b) @ enc64 (bwr_write_buffer b) @
     enc64 (bwr_read_size b) @ enc64 (bwr_read_consumed b) @ enc64 (bwr_read_buffer b)"

definition dec_bwr :: "byte list \<Rightarrow> binder_write_read" where
  "dec_bwr bs = \<lparr>bwr_write_size = dec64 (slice 0 8 bs), bwr_write_consumed = dec64 (slice 8 8 bs),
     bwr_write_buffer = dec64 (slice 16 8 bs), bwr_read_size = dec64 (slice 24 8 bs),
     bwr_read_consumed = dec64 (slice 32 8 bs), bwr_read_buffer = dec64 (slice 40 8 bs)\<rparr>"

lemma length_slice [simp]: "length (slice i n bs) = min n (length bs - i)"
  by (simp add: slice_def)

lemma slice_join: "j = i + n \<Longrightarrow> slice i n bs @ slice j k bs = slice i (n + k) bs"
  by (simp add: slice_def take_add add.commute [of i n])

lemma slice_all: "n = length bs \<Longrightarrow> slice 0 n bs = bs"
  by (simp add: slice_def)

lemma enc_td_length: "length (enc_td t) = 64"
  by (simp add: enc_td_def)

lemma dec_enc_td: "dec_td (enc_td t) = t"
  by (simp add: enc_td_def dec_td_def slice_def)

lemma enc_dec_td: "length bs = 64 \<Longrightarrow> enc_td (dec_td bs) = bs"
  by (simp add: enc_td_def dec_td_def enc_dec32 enc_dec64 slice_join slice_all)

interpretation td_codec: fixed_codec enc_td dec_td 64
  by unfold_locales (simp_all add: enc_td_length dec_enc_td enc_dec_td)

interpretation secctx_codec: fixed_codec enc_secctx dec_secctx 72
proof unfold_locales
  fix x :: binder_transaction_data_secctx and bs :: "byte list"
  show "length (enc_secctx x) = 72" by (simp add: enc_secctx_def enc_td_length)
  show "dec_secctx (enc_secctx x) = x"
    by (simp add: enc_secctx_def dec_secctx_def enc_td_length dec_enc_td slice_def)
  show "enc_secctx (dec_secctx bs) = bs" if "length bs = 72"
    using that
    by (simp add: enc_secctx_def dec_secctx_def enc_dec_td enc_dec64 slice_def)
qed

interpretation bwr_codec: fixed_codec enc_bwr dec_bwr 48
proof unfold_locales
  fix x :: binder_write_read and bs :: "byte list"
  show "length (enc_bwr x) = 48" by (simp add: enc_bwr_def)
  show "dec_bwr (enc_bwr x) = x" by (simp add: enc_bwr_def dec_bwr_def slice_def)
  show "enc_bwr (dec_bwr bs) = bs" if "length bs = 48"
    using that by (simp add: enc_bwr_def dec_bwr_def enc_dec64 slice_join slice_all)
qed

section \<open>Properties\<close>

text \<open>
  The command codes of the two protocols identify the command: no two return commands and
  no two driver commands share a code, no code belongs to both, and the size field of every
  code (which the hook uses to walk the read buffer) is the size of the command's payload.
\<close>

lemma binder_protocol_codes:
  "(br_code c = br_code d \<longleftrightarrow> c = d) \<and> (bc_code x = bc_code y \<longleftrightarrow> x = y) \<and> br_code c \<noteq> bc_code x \<and>
   unat (IOC_SIZE (br_code c)) = arg_size (br_arg c) \<and>
   unat (IOC_SIZE (bc_code x)) = arg_size (bc_arg x)"
  by (simp add: br_code_inject bc_code_inject br_code_neq_bc_code br_size_field bc_size_field)

text \<open>
  A transaction stored in memory is read back unchanged, and reading one from any 64 bytes
  and writing it back leaves the memory as it was.
\<close>

lemma transaction_data_roundtrip:
  "dec_td (mem_read (mem_write m a (enc_td t)) a (sizeof binder_transaction_data_t)) = t \<and>
   mem_write m a (enc_td (dec_td (mem_read m a (sizeof binder_transaction_data_t)))) = m"
proof -
  have "sizeof binder_transaction_data_t = 64" by (simp add: sizeof_uapi)
  then show ?thesis
    by (simp add: td_codec.load_store enc_dec_td mem_write_read_id)
qed

end
