(* ===== verification/Libbinder.thy ===== *)
theory Libbinder
  imports Weak_Pointer Android_Errors Binder_Uapi
begin

text \<open>
  What the interceptor uses of \<open>libbinder.so\<close>. The library's implementation is not part of
  the repository (the sources under \<open>stub/\<close> only satisfy the linker), so its operations are
  the fields of a record that every definition takes as an argument: parcels (type \<open>'p\<close>),
  \<open>IBinder::transact\<close>, \<open>IBinder::localBinder\<close>, the calling identity of \<open>IPCThreadState\<close>,
  and the \<open>RefBase\<close> operations the record extends. The world \<open>'w\<close> is everything these
  operations read and change. The transaction codes of \<open>IBinder.h\<close> are modelled here.
\<close>

section \<open>Transaction codes of IBinder\<close>

datatype ibinder_code =
    FIRST_CALL_TRANSACTION | LAST_CALL_TRANSACTION | PING_TRANSACTION
  | START_RECORDING_TRANSACTION | STOP_RECORDING_TRANSACTION | DUMP_TRANSACTION
  | SHELL_COMMAND_TRANSACTION | INTERFACE_TRANSACTION | SYSPROPS_TRANSACTION
  | EXTENSION_TRANSACTION | DEBUG_PID_TRANSACTION | SET_RPC_CLIENT_TRANSACTION
  | TWEET_TRANSACTION | LIKE_TRANSACTION

definition pack4 :: "char \<Rightarrow> char \<Rightarrow> char \<Rightarrow> char \<Rightarrow> u32" where
  "pack4 a b c d = B_PACK_CHARS a b c (of_char d)"

fun ibinder_code_value :: "ibinder_code \<Rightarrow> u32" where
  "ibinder_code_value FIRST_CALL_TRANSACTION = 0x00000001"
| "ibinder_code_value LAST_CALL_TRANSACTION = 0x00ffffff"
| "ibinder_code_value PING_TRANSACTION = pack4 CHR ''_'' CHR ''P'' CHR ''N'' CHR ''G''"
| "ibinder_code_value START_RECORDING_TRANSACTION = pack4 CHR ''_'' CHR ''S'' CHR ''R'' CHR ''D''"
| "ibinder_code_value STOP_RECORDING_TRANSACTION = pack4 CHR ''_'' CHR ''E'' CHR ''R'' CHR ''D''"
| "ibinder_code_value DUMP_TRANSACTION = pack4 CHR ''_'' CHR ''D'' CHR ''M'' CHR ''P''"
| "ibinder_code_value SHELL_COMMAND_TRANSACTION = pack4 CHR ''_'' CHR ''C'' CHR ''M'' CHR ''D''"
| "ibinder_code_value INTERFACE_TRANSACTION = pack4 CHR ''_'' CHR ''N'' CHR ''T'' CHR ''F''"
| "ibinder_code_value SYSPROPS_TRANSACTION = pack4 CHR ''_'' CHR ''S'' CHR ''P'' CHR ''R''"
| "ibinder_code_value EXTENSION_TRANSACTION = pack4 CHR ''_'' CHR ''E'' CHR ''X'' CHR ''T''"
| "ibinder_code_value DEBUG_PID_TRANSACTION = pack4 CHR ''_'' CHR ''P'' CHR ''I'' CHR ''D''"
| "ibinder_code_value SET_RPC_CLIENT_TRANSACTION = pack4 CHR ''_'' CHR ''R'' CHR ''P'' CHR ''C''"
| "ibinder_code_value TWEET_TRANSACTION = pack4 CHR ''_'' CHR ''T'' CHR ''W'' CHR ''T''"
| "ibinder_code_value LIKE_TRANSACTION = pack4 CHR ''_'' CHR ''L'' CHR ''I'' CHR ''K''"

datatype ibinder_flag = FLAG_ONEWAY | FLAG_CLEAR_BUF | FLAG_PRIVATE_VENDOR

fun ibinder_flag_value :: "ibinder_flag \<Rightarrow> u32" where
  "ibinder_flag_value FLAG_ONEWAY = 0x00000001"
| "ibinder_flag_value FLAG_CLEAR_BUF = 0x00000020"
| "ibinder_flag_value FLAG_PRIVATE_VENDOR = 0x10000000"

section \<open>The library's operations\<close>

text \<open>
  A write returns the status and the parcel after it; a read returns the status, the value and
  the parcel with its position moved. \<open>readInt32Value\<close> and \<open>readUint64Value\<close> are the overloads
  that return the value and drop the status. \<open>readStrongBinder\<close> assigns an \<open>sp<IBinder>\<close>, so it
  also acquires the strong reference the result holds. \<open>transactReply\<close> and \<open>transactNoReply\<close> are
  \<open>IBinder::transact\<close> with a reply parcel and with a null one.
\<close>

record ('w, 'p) libbinder_ops = "'w refbase_ops" +
  newParcel :: 'p
  dataSize :: "'p \<Rightarrow> u64"
  dataPosition :: "'p \<Rightarrow> u64"
  appendFrom :: "'p \<Rightarrow> u64 \<Rightarrow> u64 \<Rightarrow> 'p \<Rightarrow> status_t \<times> 'p"
  freeData :: "'p \<Rightarrow> 'p"
  writeInt32 :: "u32 \<Rightarrow> 'p \<Rightarrow> status_t \<times> 'p"
  writeUint32 :: "u32 \<Rightarrow> 'p \<Rightarrow> status_t \<times> 'p"
  writeUint64 :: "u64 \<Rightarrow> 'p \<Rightarrow> status_t \<times> 'p"
  writeStrongBinder :: "ptr \<Rightarrow> 'p \<Rightarrow> status_t \<times> 'p"
  readInt32 :: "'p \<Rightarrow> status_t \<times> u32 \<times> 'p"
  readInt32Value :: "'p \<Rightarrow> u32 \<times> 'p"
  readUint32 :: "'p \<Rightarrow> status_t \<times> u32 \<times> 'p"
  readUint64Value :: "'p \<Rightarrow> u64 \<times> 'p"
  readStrongBinder :: "'p \<Rightarrow> 'w \<Rightarrow> status_t \<times> ptr \<times> 'p \<times> 'w"
  localBinder :: "ptr \<Rightarrow> 'w \<Rightarrow> ptr"
  getCallingUid :: "'w \<Rightarrow> u32"
  getCallingPid :: "'w \<Rightarrow> u32"
  transactReply :: "ptr \<Rightarrow> u32 \<Rightarrow> 'p \<Rightarrow> 'p \<Rightarrow> u32 \<Rightarrow> 'w \<Rightarrow> status_t \<times> 'p \<times> 'w"
  transactNoReply :: "ptr \<Rightarrow> u32 \<Rightarrow> 'p \<Rightarrow> u32 \<Rightarrow> 'w \<Rightarrow> status_t \<times> 'w"

text \<open>A transaction whose reply pointer may be null.\<close>

definition transact ::
  "('w, 'p, 'x) libbinder_ops_scheme \<Rightarrow> ptr \<Rightarrow> u32 \<Rightarrow> 'p \<Rightarrow> 'p option \<Rightarrow> u32 \<Rightarrow> 'w
     \<Rightarrow> status_t \<times> 'p option \<times> 'w" where
  "transact L b code data reply flags w =
     (case reply of
        Some r \<Rightarrow> let (s, r', w') = transactReply L b code data r flags w in (s, Some r', w')
      | None \<Rightarrow> let (s, w') = transactNoReply L b code data flags w in (s, None, w'))"

text \<open>The C++ idiom \<open>if (status != OK) return status;\<close> between two writes.\<close>

definition if_ok :: "status_t \<times> 'p \<Rightarrow> ('p \<Rightarrow> status_t \<times> 'p) \<Rightarrow> status_t \<times> 'p" where
  "if_ok r k = (if is_ok (fst r) then k (snd r) else r)"

lemma if_ok_Pair: "if_ok (s, p) k = (if is_ok s then k p else (s, p))"
  by (simp add: if_ok_def)

end
