(* ===== verification/Std_Map.thy ===== *)
theory Std_Map
  imports Prelude
begin

text \<open>
  \<open>std::map\<close> as the interceptor uses it: a sequence of key-value pairs in ascending key
  order, with iterators as positions (the end iterator is the length). Keys are equivalent
  when neither is less than the other. The interface \<open>ordered_map\<close> states what a client may
  rely on; the sorted sequence is its instance.
\<close>

section \<open>The container\<close>

type_synonym ('k, 'v) std_map = "('k \<times> 'v) list"

definition keys_sorted :: "('k :: linorder, 'v) std_map \<Rightarrow> bool" where
  "keys_sorted m \<longleftrightarrow> sorted_wrt (<) (map fst m)"

definition lower_bound :: "'k :: linorder \<Rightarrow> ('k, 'v) std_map \<Rightarrow> nat" where
  "lower_bound k m = length (takeWhile (\<lambda>e. fst e < k) m)"

definition find_iter :: "'k :: linorder \<Rightarrow> ('k, 'v) std_map \<Rightarrow> nat" where
  "find_iter k m =
     (let i = lower_bound k m in if i < length m \<and> \<not> k < fst (m ! i) then i else length m)"

text \<open>\<open>emplace_hint\<close> returns the iterator of the element with that key, old or new.\<close>

definition emplace_hint :: "'k :: linorder \<Rightarrow> 'v \<Rightarrow> ('k, 'v) std_map \<Rightarrow> nat \<times> ('k, 'v) std_map" where
  "emplace_hint k v m =
     (let i = lower_bound k m
      in if i < length m \<and> \<not> k < fst (m ! i) then (i, m) else (i, take i m @ (k, v) # drop i m))"

definition set_value :: "nat \<Rightarrow> 'v \<Rightarrow> ('k, 'v) std_map \<Rightarrow> ('k, 'v) std_map" where
  "set_value i v m = m[i := (fst (m ! i), v)]"

section \<open>Searching a sorted sequence\<close>

lemma lower_bound_le: "lower_bound k m \<le> length m"
  by (simp add: lower_bound_def length_takeWhile_le)

lemma lower_bound_Nil [simp]: "lower_bound k [] = 0"
  by (simp add: lower_bound_def)

lemma lower_bound_Cons [simp]:
  "lower_bound k (e # m) = (if fst e < k then Suc (lower_bound k m) else 0)"
  by (simp add: lower_bound_def)

lemma keys_sorted_Cons [simp]:
  "keys_sorted (e # m) \<longleftrightarrow> (\<forall>x \<in> set m. fst e < fst x) \<and> keys_sorted m"
  by (auto simp: keys_sorted_def)

lemma keys_sorted_Nil [simp]: "keys_sorted []"
  by (simp add: keys_sorted_def)

text \<open>Position of a key: the lower bound hits it exactly when the key is present.\<close>

lemma sorted_head_less: "keys_sorted (e # m) \<Longrightarrow> k \<in> fst ` set m \<Longrightarrow> fst e < k"
  by auto

lemma lower_bound_hit:
  "keys_sorted m \<Longrightarrow>
   (lower_bound k m < length m \<and> \<not> k < fst (m ! lower_bound k m)) \<longleftrightarrow> k \<in> fst ` set m"
proof (induction m)
  case (Cons e m)
  show ?case
  proof (cases "fst e < k")
    case True
    then show ?thesis using Cons by auto
  next
    case False
    then have "k \<notin> fst ` set m" using sorted_head_less [OF Cons.prems] by blast
    then show ?thesis using False by auto
  qed
qed simp

lemma lower_bound_value:
  "keys_sorted m \<Longrightarrow> k \<in> fst ` set m \<Longrightarrow>
   fst (m ! lower_bound k m) = k \<and> map_of m k = Some (snd (m ! lower_bound k m))"
proof (induction m)
  case (Cons e m)
  show ?case
  proof (cases "fst e < k")
    case True
    then have "k \<in> fst ` set m" using Cons.prems by auto
    then show ?thesis using Cons True less_imp_neq [OF True] by auto
  next
    case False
    then have "k = fst e" using Cons.prems sorted_head_less [OF Cons.prems(1), of k] by auto
    then show ?thesis by simp
  qed
qed simp

lemma find_iter_end: "keys_sorted m \<Longrightarrow> find_iter k m = length m \<longleftrightarrow> map_of m k = None"
  using lower_bound_hit [of m k] by (auto simp: find_iter_def Let_def map_of_eq_None_iff)

lemma find_iter_hit:
  assumes "keys_sorted m" "find_iter k m \<noteq> length m"
  shows "find_iter k m < length m \<and> fst (m ! find_iter k m) = k \<and>
    map_of m k = Some (snd (m ! find_iter k m))"
  using assms lower_bound_hit [of m k] lower_bound_value [of m k]
  by (auto simp: find_iter_def Let_def split: if_splits)

lemma keys_sorted_insert:
  "keys_sorted m \<Longrightarrow> k \<notin> fst ` set m \<Longrightarrow>
   keys_sorted (take (lower_bound k m) m @ (k, v) # drop (lower_bound k m) m)"
proof (induction m)
  case (Cons e m)
  have "keys_sorted (take (lower_bound k m) m @ (k, v) # drop (lower_bound k m) m)"
    using Cons by auto
  moreover have "\<forall>x \<in> set (take (lower_bound k m) m) \<union> set (drop (lower_bound k m) m). fst e < fst x"
    using Cons.prems by (auto dest: in_set_takeD in_set_dropD)
  ultimately show ?case using Cons.prems by (auto split: if_splits)
qed simp

lemma map_of_insert:
  "k \<notin> fst ` set m \<Longrightarrow>
   map_of (take i m @ (k, v) # drop i m) = (map_of m)(k \<mapsto> v)"
proof (induction m arbitrary: i)
  case (Cons e m)
  then show ?case by (cases i) (auto simp: fun_eq_iff)
qed simp

section \<open>The interface\<close>

text \<open>
  The client's view: \<open>mfind\<close> returns the value of a key and \<open>mput\<close> inserts or replaces it;
  \<open>mabs\<close> is the finite map the container stands for.
\<close>

locale ordered_map =
  fixes mempty :: 'm
    and mfind :: "'k \<Rightarrow> 'm \<Rightarrow> 'v option"
    and mput :: "'k \<Rightarrow> 'v \<Rightarrow> 'm \<Rightarrow> 'm"
    and minv :: "'m \<Rightarrow> bool"
    and mabs :: "'m \<Rightarrow> 'k \<rightharpoonup> 'v"
  assumes empty_inv: "minv mempty"
    and empty_abs: "mabs mempty = Map.empty"
    and find_abs: "minv m \<Longrightarrow> mfind k m = mabs m k"
    and put_inv: "minv m \<Longrightarrow> minv (mput k v m)"
    and put_abs: "minv m \<Longrightarrow> mabs (mput k v m) = (mabs m)(k \<mapsto> v)"
begin

lemma find_put: "minv m \<Longrightarrow> mfind j (mput k v m) = (if j = k then Some v else mfind j m)"
  by (simp add: find_abs put_inv put_abs)

lemma fold_put_inv: "minv m \<Longrightarrow> minv (fold (\<lambda>(k, v). mput k v) kvs m)"
  by (induction kvs arbitrary: m) (auto simp: put_inv)

lemma fold_put_abs: "minv m \<Longrightarrow> mabs (fold (\<lambda>(k, v). mput k v) kvs m) = mabs m ++ map_of (rev kvs)"
  by (induction kvs arbitrary: m) (auto simp: put_inv put_abs)

text \<open>Nothing is ever removed.\<close>

lemma put_dom_mono: "minv m \<Longrightarrow> mfind j m \<noteq> None \<Longrightarrow> mfind j (mput k v m) \<noteq> None"
  by (simp add: find_put)

end

definition map_lookup :: "'k :: linorder \<Rightarrow> ('k, 'v) std_map \<Rightarrow> 'v option" where
  "map_lookup k m = (let i = find_iter k m in if i = length m then None else Some (snd (m ! i)))"

definition map_put :: "'k :: linorder \<Rightarrow> 'v \<Rightarrow> ('k, 'v) std_map \<Rightarrow> ('k, 'v) std_map" where
  "map_put k v m = (let (i, m') = emplace_hint k v m in set_value i v m')"

lemma emplace_hint_iter: "keys_sorted m \<Longrightarrow> fst (emplace_hint k v m) = lower_bound k m"
  by (simp add: emplace_hint_def Let_def)

lemma keys_sorted_set_value: "i < length m \<Longrightarrow> keys_sorted (set_value i v m) = keys_sorted m"
proof -
  assume "i < length m"
  then have "(map fst m)[i := fst (m ! i)] = map fst m" by (metis list_update_id nth_map)
  then show ?thesis by (simp add: keys_sorted_def set_value_def map_update)
qed

lemma map_of_set_value:
  "keys_sorted m \<Longrightarrow> i < length m \<Longrightarrow> map_of (set_value i v m) = (map_of m)(fst (m ! i) \<mapsto> v)"
proof (induction m arbitrary: i)
  case (Cons e m)
  show ?case
  proof (cases i)
    case (Suc j)
    then have "fst e \<noteq> fst (m ! j)" using Cons.prems by (auto dest: less_imp_neq)
    then show ?thesis using Cons Suc by (auto simp: set_value_def fun_eq_iff)
  qed (auto simp: set_value_def fun_eq_iff)
qed simp

interpretation sorted_map: ordered_map "[]" map_lookup map_put keys_sorted map_of
proof unfold_locales
  fix m :: "('k :: linorder, 'v) std_map" and k v
  assume m: "keys_sorted m"
  show "map_lookup k m = map_of m k"
    using find_iter_end [OF m, of k] find_iter_hit [OF m, of k] by (auto simp: map_lookup_def Let_def)
  have hit: "fst (m ! lower_bound k m) = k" "lower_bound k m < length m" if "k \<in> fst ` set m"
    using that lower_bound_hit [OF m, of k] lower_bound_value [OF m, of k] by auto
  have put: "map_put k v m = (if k \<in> fst ` set m then set_value (lower_bound k m) v m
      else take (lower_bound k m) m @ (k, v) # drop (lower_bound k m) m)"
    using lower_bound_hit [OF m, of k] lower_bound_le [of k m]
    by (auto simp: map_put_def emplace_hint_def Let_def set_value_def nth_append list_update_append)
  show "keys_sorted (map_put k v m)"
    using m hit by (auto simp: put keys_sorted_set_value keys_sorted_insert)
  show "map_of (map_put k v m) = (map_of m)(k \<mapsto> v)"
  proof (cases "k \<in> fst ` set m")
    case True
    then show ?thesis using m hit [OF True] by (simp add: put map_of_set_value)
  next
    case False
    then show ?thesis by (simp only: put if_False map_of_insert [OF False])
  qed
qed simp_all

end
