(* ===== verification/Interceptor.thy ===== *)
theory Interceptor
  imports Libbinder Std_Map
begin

text \<open>
  The binder interceptor, \<open>binder_interceptor.cpp\<close>: the class \<open>BinderInterceptor\<close> (its
  registry of targets, the registration transaction, the decision which transactions to
  intercept and the pre/post protocol with the registered interceptor) and the class
  \<open>BinderStub\<close>, to which the \<open>ioctl\<close> hook redirects intercepted transactions. Statements that
  only log are left out. The reader-writer lock makes each access to the registry one atomic
  step, which is how the definitions take and return the registry.
\<close>

section \<open>Constants\<close>

definition kRegisterInterceptor :: u32 where "kRegisterInterceptor = 1"
definition kPreTransact :: u32 where "kPreTransact = 1"
definition kPostTransact :: u32 where "kPostTransact = 2"
definition kActionSkip :: u32 where "kActionSkip = 1"
definition kActionContinue :: u32 where "kActionContinue = 2"
definition kActionOverrideReply :: u32 where "kActionOverrideReply = 3"
definition kActionOverrideData :: u32 where "kActionOverrideData = 4"
definition kBackdoorCode :: u32 where "kBackdoorCode = 0xdeadbeef"
definition kMaxUserTransactionCode :: u32 where "kMaxUserTransactionCode = 0x00ffffff"

lemmas intercept_constants = kRegisterInterceptor_def kPreTransact_def kPostTransact_def
  kActionSkip_def kActionContinue_def kActionOverrideReply_def kActionOverrideData_def
  kBackdoorCode_def kMaxUserTransactionCode_def

section \<open>The registry\<close>

record registration =
  reg_target_binder :: wp
  reg_interceptor_binder :: ptr
  reg_codes :: "u32 list"

type_synonym registry = "(wp, registration) std_map"

text \<open>
  The decision to intercept. \<open>find\<close> takes a \<open>wp<IBinder>\<close>, so the argument is converted to a
  temporary, which is destroyed after the lookup.
\<close>

definition shouldInterceptTransaction ::
  "('w, 'p, 'x) libbinder_ops_scheme \<Rightarrow> registry \<Rightarrow> wp \<Rightarrow> u32 \<Rightarrow> 'w \<Rightarrow> bool \<times> 'w" where
  "shouldInterceptTransaction L reg target_binder code w =
     (let (key, w) = wp_convert L target_binder w;
          it = find_iter key reg;
          w = wp_destroy L key w
      in if it = length reg then (False, w)
         else let codes = reg_codes (snd (reg ! it)) in (codes = [] \<or> code \<in> set codes, w))"

text \<open>The loop that reads the allow-list; on a failed read the codes read so far are dropped.\<close>

fun read_codes ::
  "('w, 'p, 'x) libbinder_ops_scheme \<Rightarrow> nat \<Rightarrow> 'p \<Rightarrow> u32 list \<Rightarrow> (u32 list) option \<times> 'p" where
  "read_codes L 0 data codes = (Some codes, data)"
| "read_codes L (Suc n) data codes =
     (let (s, c, data) = readUint32 L data
      in if \<not> is_ok s then (None, data) else read_codes L n data (codes @ [c]))"

text \<open>
  The locked block of the registration: insert the target at its place, or replace the
  interceptor of an existing entry, then set its codes. \<open>wp<T>\<close> has no move constructor, so
  \<open>std::move\<close> of a weak pointer copies it: the parameter \<open>target\<close> of the constructor, the member
  of the temporary registration made from it, the key and the value of the new node are four
  copies, and the temporary and the parameter are destroyed after the insertion. Moving a strong
  pointer transfers its reference.
\<close>

definition store_registration ::
  "('w, 'p, 'x) libbinder_ops_scheme \<Rightarrow> ptr \<Rightarrow> ptr \<Rightarrow> u32 list \<Rightarrow> registry \<Rightarrow> 'w \<Rightarrow> registry \<times> 'w" where
  "store_registration L target_binder interceptor_binder codes reg w =
     (let (weak_target, w) = wp_of_sp L target_binder w;
          iterator = lower_bound weak_target reg;
          (iterator, reg, w) =
            (if iterator = length reg \<or> \<not> wp_eq (fst (reg ! iterator)) weak_target
             then let (target, w) = wp_copy L weak_target w;
                      (interceptor, w) = sp_copy L interceptor_binder w;
                      (temporary, w) = wp_copy L target w;
                      (key, w) = wp_copy L weak_target w;
                      (member, w) = wp_copy L temporary w;
                      (iterator, reg) = emplace_hint key
                        \<lparr>reg_target_binder = member, reg_interceptor_binder = interceptor,
                         reg_codes = []\<rparr> reg
                  in (iterator, reg, wp_destroy L target (wp_destroy L temporary w))
             else let r = snd (reg ! iterator);
                      (interceptor, w) = sp_assign L (reg_interceptor_binder r) interceptor_binder w
                  in (iterator, set_value iterator (r\<lparr>reg_interceptor_binder := interceptor\<rparr>) reg, w));
          reg = set_value iterator ((snd (reg ! iterator))\<lparr>reg_codes := codes\<rparr>) reg
      in (reg, wp_destroy L weak_target w))"

text \<open>
  The registration transaction. \<open>readStrongBinder\<close> fails on a null binder. \<open>None\<close> is the end of the process: a call through a null
  target, or an allocation that \<open>reserve\<close> cannot make (\<open>can_reserve\<close>), which without C++
  exceptions aborts. The two strong pointers are released on every return.
\<close>

definition handleRegisterInterceptor ::
  "('w, 'p, 'x) libbinder_ops_scheme \<Rightarrow> (nat \<Rightarrow> bool) \<Rightarrow> registry \<Rightarrow> 'p \<Rightarrow> 'w
     \<Rightarrow> (status_t \<times> registry \<times> 'w) option" where
  "handleRegisterInterceptor L can_reserve reg data w =
     (let (s, target_binder, data, w) = readStrongBinder L data w
      in if \<not> is_ok s then Some (status_of BAD_VALUE, reg, sp_destroy L target_binder w)
      else if target_binder = nullptr then None
      else if localBinder L target_binder w = nullptr
        then Some (status_of BAD_VALUE, reg, sp_destroy L target_binder w)
      else let (s, interceptor_binder, data, w) = readStrongBinder L data w;
               leave = (\<lambda>w. sp_destroy L target_binder (sp_destroy L interceptor_binder w))
      in if \<not> is_ok s then Some (status_of BAD_VALUE, reg, leave w)
      else let (s, count, data) = readInt32 L data
      in if \<not> is_ok s then Some (status_of BAD_VALUE, reg, leave w)
      else let n = (if sint count < 0 then 0 else nat (sint count))
      in if \<not> can_reserve n then None
      else (case fst (read_codes L n data []) of
          None \<Rightarrow> Some (status_of BAD_VALUE, reg, leave w)
        | Some codes \<Rightarrow>
            let (reg, w) = store_registration L target_binder interceptor_binder codes reg w
            in Some (status_of OK, reg, leave w)))"

definition interceptor_onTransact ::
  "('w, 'p, 'x) libbinder_ops_scheme \<Rightarrow> (nat \<Rightarrow> bool) \<Rightarrow> registry \<Rightarrow> u32 \<Rightarrow> 'p \<Rightarrow> 'w
     \<Rightarrow> (status_t \<times> registry \<times> 'w) option" where
  "interceptor_onTransact L can_reserve reg code data w =
     (if code = kRegisterInterceptor then handleRegisterInterceptor L can_reserve reg data w
      else Some (status_of UNKNOWN_TRANSACTION, reg, w))"

section \<open>The pre/post protocol\<close>

text \<open>
  \<open>writeStrongBinder\<close> takes a \<open>const sp<IBinder>&\<close>: a pointer of another class is converted to a
  temporary that lives until the call returns.
\<close>

definition write_binder ::
  "('w, 'p, 'x) libbinder_ops_scheme \<Rightarrow> ptr \<Rightarrow> 'p \<Rightarrow> 'w \<Rightarrow> (status_t \<times> 'p) \<times> 'w" where
  "write_binder L binder writer w =
     (let (converted, w) = sp_copy L binder w;
          r = writeStrongBinder L converted writer
      in (r, sp_destroy L converted w))"

definition writeInterceptorCallData ::
  "('w, 'p, 'x) libbinder_ops_scheme \<Rightarrow> 'p \<Rightarrow> ptr \<Rightarrow> u32 \<Rightarrow> u32 \<Rightarrow> 'p \<Rightarrow> 'w \<Rightarrow> (status_t \<times> 'p) \<times> 'w" where
  "writeInterceptorCallData L writer target_binder transaction_code transaction_flags data w =
     (let (written, w) = write_binder L target_binder writer w in
     (if_ok written (\<lambda>writer.
     if_ok (writeUint32 L transaction_code writer) (\<lambda>writer.
     if_ok (writeUint32 L transaction_flags writer) (\<lambda>writer.
     if_ok (writeInt32 L (getCallingUid L w) writer) (\<lambda>writer.
     if_ok (writeInt32 L (getCallingPid L w) writer) (\<lambda>writer.
     if_ok (writeUint64 L (dataSize L data) writer) (\<lambda>writer.
     appendFrom L data 0 (dataSize L data) writer)))))), w))"

definition validateInterceptorResponse ::
  "('w, 'p, 'x) libbinder_ops_scheme \<Rightarrow> 'p \<Rightarrow> status_t \<times> u32 \<times> 'p" where
  "validateInterceptorResponse L response =
     (let (s, action_type, response) = readInt32 L response
      in if \<not> is_ok s then (s, action_type, response)
      else if action_type = kActionSkip \<or> action_type = kActionContinue \<or>
          action_type = kActionOverrideReply \<or> action_type = kActionOverrideData
        then (status_of OK, action_type, response)
      else (status_of BAD_VALUE, action_type, response))"

text \<open>
  The part of \<open>handleInterceptedTransaction\<close> before the target is called. It either leaves
  the function (\<open>PreReturn\<close>, with its return value, \<open>result\<close> if it was assigned, and the
  reply) or goes on with the request for the target (\<open>PreForward\<close>). The interceptor is never null
  when it is called, because no registration stores a null one (\<open>registry_never_null\<close>). \<open>size_t\<close>
  has 64 bits; on a 32-bit target the sizes read from the answer would be truncated.
\<close>

datatype 'p pre_outcome = PreReturn bool "status_t option" "'p option" | PreForward 'p

definition handle_pre ::
  "('w, 'p, 'x) libbinder_ops_scheme \<Rightarrow> ptr \<Rightarrow> ptr \<Rightarrow> u32 \<Rightarrow> 'p \<Rightarrow> 'p option \<Rightarrow> u32 \<Rightarrow> 'w
     \<Rightarrow> 'p pre_outcome \<times> 'w" where
  "handle_pre L interceptor_binder target_binder transaction_code request_data reply_data
     transaction_flags w =
     (let (arg, w) = sp_copy L target_binder w;
          ((s, pre_request_data), w) = writeInterceptorCallData L (newParcel L) arg
            transaction_code transaction_flags request_data w;
          w = sp_destroy L arg w
      in if \<not> is_ok s then (PreReturn False None reply_data, w)
      else let (s, pre_response_data, w) =
            transactReply L interceptor_binder kPreTransact pre_request_data (newParcel L) 0 w
      in if \<not> is_ok s then (PreReturn False None reply_data, w)
      else let (s, pre_action_type, pre_response_data) =
            validateInterceptorResponse L pre_response_data
      in if \<not> is_ok s then (PreReturn False None reply_data, w)
      else if pre_action_type = kActionSkip then (PreReturn False None reply_data, w)
      else if pre_action_type = kActionOverrideReply then
        (let (result, pre_response_data) = readInt32Value L pre_response_data
         in case reply_data of
              None \<Rightarrow> (PreReturn True (Some result) None, w)
            | Some reply \<Rightarrow>
                let (reply_size, pre_response_data) = readUint64Value L pre_response_data;
                    (s, reply) = appendFrom L pre_response_data
                      (dataPosition L pre_response_data) reply_size reply
                in (PreReturn (is_ok s) (Some result) (Some reply), w))
      else if pre_action_type = kActionOverrideData then
        (let (data_size, pre_response_data) = readUint64Value L pre_response_data;
             (s, modified_request_data) = appendFrom L pre_response_data
               (dataPosition L pre_response_data) data_size (newParcel L)
         in if \<not> is_ok s then (PreReturn False None reply_data, w)
            else (PreForward modified_request_data, w))
      else
        (let (s, modified_request_data) = appendFrom L request_data 0 (dataSize L request_data)
               (newParcel L)
         in if \<not> is_ok s then (PreReturn False None reply_data, w)
            else (PreForward modified_request_data, w)))"

text \<open>The data of the post-transact call: identity, result, request and reply.\<close>

definition writePostCallData ::
  "('w, 'p, 'x) libbinder_ops_scheme \<Rightarrow> ptr \<Rightarrow> u32 \<Rightarrow> u32 \<Rightarrow> status_t \<Rightarrow> 'p \<Rightarrow> 'p option \<Rightarrow> 'w
     \<Rightarrow> (status_t \<times> 'p) \<times> 'w" where
  "writePostCallData L target_binder transaction_code transaction_flags result request_data
     reply_data w =
     (let reply_size = (case reply_data of None \<Rightarrow> 0 | Some reply \<Rightarrow> dataSize L reply);
          (written, w) = write_binder L target_binder (newParcel L) w
      in (if_ok written (\<lambda>post.
         if_ok (writeUint32 L transaction_code post) (\<lambda>post.
         if_ok (writeUint32 L transaction_flags post) (\<lambda>post.
         if_ok (writeInt32 L (getCallingUid L w) post) (\<lambda>post.
         if_ok (writeInt32 L (getCallingPid L w) post) (\<lambda>post.
         if_ok (writeInt32 L result post) (\<lambda>post.
         if_ok (writeUint64 L (dataSize L request_data) post) (\<lambda>post.
         if_ok (appendFrom L request_data 0 (dataSize L request_data) post) (\<lambda>post.
         if_ok (writeUint64 L reply_size post) (\<lambda>post.
         case reply_data of
           None \<Rightarrow> (status_of OK, post)
         | Some reply \<Rightarrow>
             if reply_size > 0 then appendFrom L reply 0 reply_size post
             else (status_of OK, post)))))))))), w))"

text \<open>The part after the target has been called; \<open>result\<close> is what the target returned.\<close>

definition handle_post ::
  "('w, 'p, 'x) libbinder_ops_scheme \<Rightarrow> ptr \<Rightarrow> ptr \<Rightarrow> u32 \<Rightarrow> 'p \<Rightarrow> 'p option \<Rightarrow> u32 \<Rightarrow> status_t \<Rightarrow> 'w
     \<Rightarrow> bool \<times> status_t option \<times> 'p option \<times> 'w" where
  "handle_post L interceptor_binder target_binder transaction_code request_data reply_data
     transaction_flags result w =
     (let ((s, post_request_data), w) = writePostCallData L target_binder transaction_code
            transaction_flags result request_data reply_data w
      in if \<not> is_ok s then (False, Some result, reply_data, w)
      else let (s, post_response_data, w) =
            transactReply L interceptor_binder kPostTransact post_request_data (newParcel L) 0 w
      in if \<not> is_ok s then (False, Some result, reply_data, w)
      else let (s, post_action_type, post_response_data) =
            validateInterceptorResponse L post_response_data
      in if \<not> is_ok s then (False, Some result, reply_data, w)
      else if post_action_type = kActionOverrideReply then
        (let (result, post_response_data) = readInt32Value L post_response_data
         in case reply_data of
              None \<Rightarrow> (True, Some result, None, w)
            | Some reply \<Rightarrow>
                let (new_reply_size, post_response_data) = readUint64Value L post_response_data;
                    (s, reply) = appendFrom L post_response_data
                      (dataPosition L post_response_data) new_reply_size (freeData L reply)
                in (is_ok s, Some result, Some reply, w))
      else (True, Some result, reply_data, w))"

definition handleInterceptedTransaction ::
  "('w, 'p, 'x) libbinder_ops_scheme \<Rightarrow> registry \<Rightarrow> ptr \<Rightarrow> u32 \<Rightarrow> 'p \<Rightarrow> 'p option \<Rightarrow> u32 \<Rightarrow> 'w
     \<Rightarrow> bool \<times> status_t option \<times> 'p option \<times> 'w" where
  "handleInterceptedTransaction L reg target_binder transaction_code request_data reply_data
     transaction_flags w =
     (let (key, w) = wp_of_sp L target_binder w;
          iterator = find_iter key reg;
          w = wp_destroy L key w
      in if iterator = length reg then (False, None, reply_data, w)
      else let (interceptor_binder, w) =
            sp_assign L nullptr (reg_interceptor_binder (snd (reg ! iterator))) w;
          (handled, result, reply_data, w) =
            (case handle_pre L interceptor_binder target_binder transaction_code request_data
                reply_data transaction_flags w of
               (PreReturn handled result reply_data, w) \<Rightarrow> (handled, result, reply_data, w)
             | (PreForward modified_request_data, w) \<Rightarrow>
                 let (result, reply_data, w) = transact L target_binder transaction_code
                       modified_request_data reply_data transaction_flags w
                 in handle_post L interceptor_binder target_binder transaction_code request_data
                      reply_data transaction_flags result w)
      in (handled, result, reply_data, sp_destroy L interceptor_binder w))"

section \<open>The stub\<close>

record txn_info =
  ti_code :: u32
  ti_target :: wp

text \<open>
  \<open>BinderStub::onTransact\<close>, with the thread's queue of pending transactions. Returns the
  status, the reply, the queue and the world. The copies of the weak target and the promoted
  strong pointer are taken and released as the C++ objects are.
\<close>

definition stub_onTransact ::
  "('w, 'p, 'x) libbinder_ops_scheme \<Rightarrow> registry \<Rightarrow> ptr \<Rightarrow> txn_info list \<Rightarrow> 'p \<Rightarrow> 'p option \<Rightarrow> u32
     \<Rightarrow> 'w \<Rightarrow> status_t \<times> 'p option \<times> txn_info list \<times> 'w" where
  "stub_onTransact L reg g_binder_interceptor queue data reply flags w =
     (case queue of
        [] \<Rightarrow> (status_of UNKNOWN_TRANSACTION, reply, queue, w)
      | front # queue \<Rightarrow>
          let (target_binder, w) = wp_copy L (ti_target front) w;
              w = wp_destroy L (ti_target front) w;
              code = ti_code front
          in if wp_eq_ptr target_binder nullptr \<and> code = kBackdoorCode \<and> reply \<noteq> None
             then (let (written, w) = write_binder L g_binder_interceptor (the reply) w
                   in (status_of OK, Some (snd written), queue, wp_destroy L target_binder w))
             else let (promoted_target, w) = wp_promote L target_binder w
             in if promoted_target \<noteq> nullptr then
                  (let (arg, w) = sp_copy L promoted_target w;
                       (handled, result, reply, w) =
                         handleInterceptedTransaction L reg arg code data reply flags w;
                       w = sp_destroy L arg w
                   in case (handled, result) of
                        (True, Some result) \<Rightarrow>
                          (result, reply, queue, wp_destroy L target_binder (sp_destroy L promoted_target w))
                      | _ \<Rightarrow>
                          let (result, reply, w) = transact L promoted_target code data reply flags w
                          in (result, reply, queue,
                              wp_destroy L target_binder (sp_destroy L promoted_target w)))
                else (status_of DEAD_OBJECT, reply, queue, wp_destroy L target_binder w))"

end
