(* ===== verification/Ioctl_Hook.thy ===== *)
theory Ioctl_Hook
  imports Interceptor
begin

text \<open>
  The \<open>ioctl\<close> hook of \<open>binder_interceptor.cpp\<close>: after every successful \<open>BINDER_WRITE_READ\<close> it
  walks the commands the driver returned in the caller's read buffer and redirects the
  transactions to be intercepted to the stub, in place. The state of a thread is the process
  memory, its queue of redirected transactions and the world of \<open>libbinder\<close>. The original
  \<open>ioctl\<close> and the PLT hooking library (a submodule that is not part of the repository) are
  parameters.
\<close>

type_synonym 'w hook_state = "mem \<times> txn_info list \<times> 'w"

section \<open>One transaction\<close>

text \<open>
  Whether a transaction is redirected: the new entry for the thread's queue, or \<open>None\<close>. The
  weak pointer in the entry owns a weak reference.
\<close>

definition decideInterception ::
  "('w, 'p, 'x) libbinder_ops_scheme \<Rightarrow> registry \<Rightarrow> binder_transaction_data \<Rightarrow> 'w
     \<Rightarrow> txn_info option \<times> 'w" where
  "decideInterception L reg transaction_data w =
     (if td_code transaction_data = kBackdoorCode \<and> td_sender_euid transaction_data = 0 then
        (let (target, w) = wp_assign_ptr L wp_null nullptr w
         in (Some \<lparr>ti_code = kBackdoorCode, ti_target = target\<rparr>, w))
      else if td_code transaction_data > kMaxUserTransactionCode then (None, w)
      else
        (let (acquired, w) = attemptIncStrong L (td_target transaction_data) w
         in if \<not> acquired then (None, w)
         else let target_binder = td_cookie transaction_data;
                  (weak_binder, w) = wp_fromExisting L target_binder w;
                  (should_intercept, w) =
                    shouldInterceptTransaction L reg weak_binder (td_code transaction_data) w;
                  (target, w) = (if should_intercept then wp_assign L wp_null weak_binder w
                                 else (wp_null, w));
                  w = decStrong L target_binder w;
                  w = wp_destroy L weak_binder w
              in (if should_intercept
                  then Some \<lparr>ti_code = td_code transaction_data, ti_target = target\<rparr> else None, w)))"

text \<open>The redirected structure: target, cookie and code of the stub.\<close>

definition redirect_in_place ::
  "('w, 'p, 'x) libbinder_ops_scheme \<Rightarrow> ptr \<Rightarrow> u64 \<Rightarrow> mem \<Rightarrow> 'w \<Rightarrow> mem" where
  "redirect_in_place L g_binder_stub addr m w =
     (let m = mem_write m addr (enc64 (getWeakRefs L g_binder_stub w));
          m = mem_write m (addr + 8) (enc64 g_binder_stub)
      in mem_write m (addr + 16) (enc32 kBackdoorCode))"

definition processBinderTransaction ::
  "('w, 'p, 'x) libbinder_ops_scheme \<Rightarrow> registry \<Rightarrow> ptr \<Rightarrow> u64 \<Rightarrow> 'w hook_state
     \<Rightarrow> bool \<times> 'w hook_state" where
  "processBinderTransaction L reg g_binder_stub addr s =
     (let (m, queue, w) = s;
          transaction_data = dec_td (mem_read m addr 64)
      in if addr = 0 \<or> td_target transaction_data = 0 then (False, s)
      else case decideInterception L reg transaction_data w of
        (None, w) \<Rightarrow> (False, (m, queue, w))
      | (Some transaction_info, w) \<Rightarrow>
          let m = redirect_in_place L g_binder_stub addr m w;
              (copied, w) = wp_copy L (ti_target transaction_info) w;
              queue = queue @ [transaction_info\<lparr>ti_target := copied\<rparr>];
              w = wp_destroy L (ti_target transaction_info) w
          in (True, (m, queue, w)))"

section \<open>The read buffer\<close>

abbreviation is_transaction :: "u32 \<Rightarrow> bool" where
  "is_transaction command \<equiv>
     command = br_code BR_TRANSACTION_SEC_CTX \<or> command = br_code BR_TRANSACTION"

text \<open>
  The loop over the commands. The transaction is the first member of the \<open>SEC_CTX\<close> structure,
  so both commands have it at the start of their payload.
\<close>

function process_commands ::
  "('w, 'p, 'x) libbinder_ops_scheme \<Rightarrow> registry \<Rightarrow> ptr \<Rightarrow> u64 \<Rightarrow> u64 \<Rightarrow> 'w hook_state \<Rightarrow> 'w hook_state" where
  "process_commands L reg g_binder_stub buffer_ptr remaining_bytes s =
     (if \<not> remaining_bytes > 0 then s
      else if remaining_bytes < 4 then s
      else let command = dec32 (mem_read (fst s) buffer_ptr 4);
               buffer_ptr = buffer_ptr + 4;
               remaining_bytes = remaining_bytes - 4;
               command_size = (ucast (IOC_SIZE command) :: u64)
           in if remaining_bytes < command_size then s
           else let s = (if is_transaction command
                         then snd (processBinderTransaction L reg g_binder_stub buffer_ptr s) else s)
                in process_commands L reg g_binder_stub (buffer_ptr + command_size)
                     (remaining_bytes - command_size) s)"
  by pat_completeness auto
termination
proof (relation "measure (\<lambda>(_, _, _, _, r, _). unat r)", goal_cases)
  case (2 L reg g b r s command b4 r4 size s')
  have "4 \<le> r" using 2(2) by simp
  then have "unat (r - 4) < unat r" by (simp add: unat_sub word_le_nat_alt)
  moreover have "unat (r - 4 - size) \<le> unat (r - 4)"
    using 2(4,5,7) by (simp add: unat_sub not_less)
  ultimately show ?case using 2(4,5) by simp
qed simp

declare process_commands.simps [simp del]

definition processBinderWriteRead ::
  "('w, 'p, 'x) libbinder_ops_scheme \<Rightarrow> registry \<Rightarrow> ptr \<Rightarrow> binder_write_read \<Rightarrow> 'w hook_state \<Rightarrow> 'w hook_state" where
  "processBinderWriteRead L reg g_binder_stub write_read_data s =
     (if bwr_read_buffer write_read_data = 0 \<or> bwr_read_size write_read_data = 0 \<or>
         bwr_read_consumed write_read_data \<le> 4 then s
      else let buffer_ptr = bwr_read_buffer write_read_data;
               remaining_bytes = bwr_read_consumed write_read_data;
               first_cmd = dec32 (mem_read (fst s) buffer_ptr 4)
           in if first_cmd \<noteq> br_code BR_TRANSACTION \<and> first_cmd \<noteq> br_code BR_TRANSACTION_SEC_CTX \<and>
                 remaining_bytes = 4 + ucast (IOC_SIZE first_cmd) then s
              else process_commands L reg g_binder_stub buffer_ptr remaining_bytes s)"

text \<open>
  The function that replaces \<open>ioctl\<close>. \<open>original_ioctl_function\<close> may change the memory (the
  driver fills the buffers) and the world.
\<close>

definition intercepted_ioctl_function ::
  "('w, 'p, 'x) libbinder_ops_scheme \<Rightarrow> registry \<Rightarrow> ptr
     \<Rightarrow> (u32 \<Rightarrow> u32 \<Rightarrow> u64 \<Rightarrow> mem \<times> 'w \<Rightarrow> u32 \<times> mem \<times> 'w) \<Rightarrow> u32 \<Rightarrow> u32 \<Rightarrow> u64 \<Rightarrow> 'w hook_state
     \<Rightarrow> u32 \<times> 'w hook_state" where
  "intercepted_ioctl_function L reg g_binder_stub original_ioctl_function fd request argument s =
     (let (m, queue, w) = s;
          (result, m, w) = original_ioctl_function fd request argument (m, w)
      in if sint result \<ge> 0 \<and> request = ioctl_code BINDER_WRITE_READ \<and> argument \<noteq> 0
         then (result, processBinderWriteRead L reg g_binder_stub
                 (dec_bwr (mem_read m argument 48)) (m, queue, w))
         else (result, (m, queue, w)))"

section \<open>Initialisation\<close>

definition kBinderLibraryName :: string where "kBinderLibraryName = ''libbinder.so''"
definition kIoctlFunctionName :: string where "kIoctlFunctionName = ''ioctl''"

record globals =
  g_binder_interceptor :: ptr
  g_binder_stub :: ptr
  original_ioctl :: ptr

text \<open>
  The hooking library: \<open>plti_add_hook\<close> takes the replacement and stores the original function
  in its last argument. \<open>new_object\<close> is the allocation and construction of an object.
\<close>

record 'w plti_ops =
  new_object :: "'w \<Rightarrow> ptr \<times> 'w"
  plti_init :: "'w \<Rightarrow> 'w"
  plti_add_lib :: "string \<Rightarrow> 'w \<Rightarrow> bool \<times> 'w"
  plti_add_hook :: "string \<Rightarrow> string \<Rightarrow> ptr \<Rightarrow> ptr \<Rightarrow> 'w \<Rightarrow> bool \<times> ptr \<times> 'w"

definition clear_globals ::
  "('w, 'x) refcount_ops_scheme \<Rightarrow> globals \<Rightarrow> 'w \<Rightarrow> globals \<times> 'w" where
  "clear_globals L g w =
     (let (i, w) = sp_clear L (g_binder_interceptor g) w;
          (s, w) = sp_clear L (g_binder_stub g) w
      in (g\<lparr>g_binder_interceptor := i, g_binder_stub := s\<rparr>, w))"

definition initializeBinderInterception ::
  "('w, 'x) refcount_ops_scheme \<Rightarrow> 'w plti_ops \<Rightarrow> ptr \<Rightarrow> globals \<Rightarrow> 'w \<Rightarrow> bool \<times> globals \<times> 'w" where
  "initializeBinderInterception L P intercepted g w =
     (let (obj, w) = new_object P w; (made, w) = sp_make L obj w;
          (i, _, w) = sp_assign_move L (g_binder_interceptor g) made w;
          (obj, w) = new_object P w; (made, w) = sp_make L obj w;
          (s, _, w) = sp_assign_move L (g_binder_stub g) made w;
          g = g\<lparr>g_binder_interceptor := i, g_binder_stub := s\<rparr>
      in if \<not> sp_bool i \<or> \<not> sp_bool s then (False, g, w)
      else let w = plti_init P w; (added, w) = plti_add_lib P kBinderLibraryName w
      in if \<not> added then (let (g, w) = clear_globals L g w in (False, g, w))
      else let (hooked, original, w) = plti_add_hook P kBinderLibraryName kIoctlFunctionName
                 intercepted (original_ioctl g) w;
               g = g\<lparr>original_ioctl := original\<rparr>
      in if \<not> hooked then (let (g, w) = clear_globals L g w in (False, g, w))
      else (True, g, w))"

definition entry ::
  "('w, 'x) refcount_ops_scheme \<Rightarrow> 'w plti_ops \<Rightarrow> ptr \<Rightarrow> u64 \<Rightarrow> globals \<Rightarrow> 'w \<Rightarrow> bool \<times> globals \<times> 'w" where
  "entry L P intercepted library_handle g w = initializeBinderInterception L P intercepted g w"

end
