(* ===== verification/Trace.thy ===== *)
theory Trace
  imports Libbinder
begin

text \<open>
  Observing what the interceptor does to the objects of \<open>libbinder\<close>. \<open>traced L obj\<close> behaves
  as the library \<open>L\<close> and appends to a log every strong and weak reference the interceptor's
  code takes (+1) or returns (-1) and every transaction it makes; what the library does inside
  a call is not logged. \<open>obj\<close> is \<open>weakref_type::refBase\<close>, the object a \<open>weakref_type\<close> belongs
  to. Net counts and the liveness of every callee are read off the log.
\<close>

datatype event = Strong ptr int | Weak ptr int | Called ptr u32

type_synonym event_log = "event list"

definition logged :: "('w \<Rightarrow> 'w) \<Rightarrow> event \<Rightarrow> 'w \<times> event_log \<Rightarrow> 'w \<times> event_log" where
  "logged f e x = (f (fst x), snd x @ [e])"

definition traced ::
  "('w, 'p) libbinder_ops \<Rightarrow> (ptr \<Rightarrow> ptr) \<Rightarrow> ('w \<times> event_log, 'p) libbinder_ops" where
  "traced L obj = \<lparr>
     incStrong = (\<lambda>p. logged (incStrong L p) (Strong p 1)),
     incStrongRequireStrong = (\<lambda>p. logged (incStrongRequireStrong L p) (Strong p 1)),
     decStrong = (\<lambda>p. logged (decStrong L p) (Strong p (-1))),
     getWeakRefs = (\<lambda>p x. getWeakRefs L p (fst x)),
     createWeak = (\<lambda>p x. let (r, w) = createWeak L p (fst x) in (r, (w, snd x @ [Weak r 1]))),
     incWeak = (\<lambda>r. logged (incWeak L r) (Weak r 1)),
     decWeak = (\<lambda>r. logged (decWeak L r) (Weak r (-1))),
     attemptIncStrong = (\<lambda>r x. let (b, w) = attemptIncStrong L r (fst x)
                               in (b, (w, if b then snd x @ [Strong (obj r) 1] else snd x))),
     newParcel = newParcel L, dataSize = dataSize L, dataPosition = dataPosition L,
     appendFrom = appendFrom L, freeData = freeData L, writeInt32 = writeInt32 L,
     writeUint32 = writeUint32 L, writeUint64 = writeUint64 L,
     writeStrongBinder = writeStrongBinder L, readInt32 = readInt32 L,
     readInt32Value = readInt32Value L, readUint32 = readUint32 L,
     readUint64Value = readUint64Value L,
     readStrongBinder = (\<lambda>d x. let (s, p, d', w) = readStrongBinder L d (fst x)
       in (s, p, d', (w, if p = nullptr then snd x else snd x @ [Strong p 1]))),
     localBinder = (\<lambda>p x. localBinder L p (fst x)),
     getCallingUid = (\<lambda>x. getCallingUid L (fst x)),
     getCallingPid = (\<lambda>x. getCallingPid L (fst x)),
     transactReply = (\<lambda>b c d r f x. let (s, r', w) = transactReply L b c d r f (fst x)
                                     in (s, r', (w, snd x @ [Called b c]))),
     transactNoReply = (\<lambda>b c d f x. let (s, w) = transactNoReply L b c d f (fst x)
                                     in (s, (w, snd x @ [Called b c])))\<rparr>"

lemma traced_simps [simp]:
  "incStrong (traced L obj) p x = (incStrong L p (fst x), snd x @ [Strong p 1])"
  "decStrong (traced L obj) p x = (decStrong L p (fst x), snd x @ [Strong p (-1)])"
  "incWeak (traced L obj) r x = (incWeak L r (fst x), snd x @ [Weak r 1])"
  "decWeak (traced L obj) r x = (decWeak L r (fst x), snd x @ [Weak r (-1)])"
  "getWeakRefs (traced L obj) p x = getWeakRefs L p (fst x)"
  "createWeak (traced L obj) p x =
     (let (r, w) = createWeak L p (fst x) in (r, (w, snd x @ [Weak r 1])))"
  "attemptIncStrong (traced L obj) r x =
     (let (b, w) = attemptIncStrong L r (fst x)
      in (b, (w, if b then snd x @ [Strong (obj r) 1] else snd x)))"
  "newParcel (traced L obj) = newParcel L" "dataSize (traced L obj) = dataSize L"
  "dataPosition (traced L obj) = dataPosition L" "appendFrom (traced L obj) = appendFrom L"
  "freeData (traced L obj) = freeData L" "writeInt32 (traced L obj) = writeInt32 L"
  "writeUint32 (traced L obj) = writeUint32 L" "writeUint64 (traced L obj) = writeUint64 L"
  "writeStrongBinder (traced L obj) = writeStrongBinder L"
  "readInt32 (traced L obj) = readInt32 L"
  "readInt32Value (traced L obj) = readInt32Value L" "readUint32 (traced L obj) = readUint32 L"
  "readUint64Value (traced L obj) = readUint64Value L"
  "readStrongBinder (traced L obj) d x = (let (s, p, d', w) = readStrongBinder L d (fst x)
     in (s, p, d', (w, if p = nullptr then snd x else snd x @ [Strong p 1])))"
  "localBinder (traced L obj) p x = localBinder L p (fst x)"
  "getCallingUid (traced L obj) x = getCallingUid L (fst x)"
  "getCallingPid (traced L obj) x = getCallingPid L (fst x)"
  "transactReply (traced L obj) b c d reply f x =
     (let (s, r', w) = transactReply L b c d reply f (fst x)
      in (s, r', (w, snd x @ [Called b c])))"
  "transactNoReply (traced L obj) b c d f x =
     (let (s, w) = transactNoReply L b c d f (fst x) in (s, (w, snd x @ [Called b c])))"
  by (simp_all add: traced_def logged_def)

section \<open>Reading the log\<close>

fun strong_net :: "event_log \<Rightarrow> ptr \<Rightarrow> int" where
  "strong_net [] p = 0"
| "strong_net (Strong q d # es) p = (if q = p then d else 0) + strong_net es p"
| "strong_net (e # es) p = strong_net es p"

fun weak_net :: "event_log \<Rightarrow> ptr \<Rightarrow> int" where
  "weak_net [] r = 0"
| "weak_net (Weak q d # es) r = (if q = r then d else 0) + weak_net es r"
| "weak_net (e # es) r = weak_net es r"

fun calls_to :: "ptr \<Rightarrow> event_log \<Rightarrow> nat" where
  "calls_to b [] = 0"
| "calls_to b (Called q c # es) = (if q = b then 1 else 0) + calls_to b es"
| "calls_to b (e # es) = calls_to b es"

text \<open>Every callee is strongly held, given the references \<open>f\<close> held when the log starts.\<close>

fun held_from :: "(ptr \<Rightarrow> int) \<Rightarrow> event_log \<Rightarrow> bool" where
  "held_from f [] = True"
| "held_from f (Strong q d # es) = held_from (f(q := f q + d)) es"
| "held_from f (Weak q d # es) = held_from f es"
| "held_from f (Called q c # es) = (1 \<le> f q \<and> held_from f es)"

abbreviation calls_held :: "event_log \<Rightarrow> bool" where
  "calls_held l \<equiv> held_from (\<lambda>_. 0) l"

lemma strong_net_append [simp]: "strong_net (l @ k) p = strong_net l p + strong_net k p"
  by (induction l p rule: strong_net.induct) auto

lemma weak_net_append [simp]: "weak_net (l @ k) r = weak_net l r + weak_net k r"
  by (induction l r rule: weak_net.induct) auto

lemma calls_to_append [simp]: "calls_to b (l @ k) = calls_to b l + calls_to b k"
  by (induction b l rule: calls_to.induct) auto

lemma held_from_append:
  "held_from f (l @ k) \<longleftrightarrow> held_from f l \<and> held_from (\<lambda>p. f p + strong_net l p) k"
proof (induction f l rule: held_from.induct)
  case (2 f q d es)
  have "(\<lambda>p. (f(q := f q + d)) p + strong_net es p) = (\<lambda>p. f p + strong_net (Strong q d # es) p)"
    by auto
  then show ?case using 2 by (simp only: append_Cons held_from.simps(2))
qed auto

lemma held_from_mono: "held_from f l \<Longrightarrow> (\<And>p. f p \<le> g p) \<Longrightarrow> held_from g l"
proof (induction f l arbitrary: g rule: held_from.induct)
  case (4 f q c es)
  then show ?case by (metis held_from.simps(4) order_trans)
qed (auto simp: fun_upd_def)

lemma transact_traced:
  "transact (traced L obj) b c d r f (w, l) =
     (let (s, r', w') = transact L b c d r f w in (s, r', (w', l @ [Called b c])))"
  by (simp add: transact_def Let_def split: option.splits prod.splits)

end
