(* ===== verification/List_Library.thy ===== *)
theory List_Library
  imports Trace
begin

text \<open>
  A concrete instance of the library's operations, on which the hypotheses of the properties
  about the interceptor are seen to hold: a parcel is a list of items with a read position,
  reference counts are counters, and the reply of every object to every code is given by a
  script. Sizes count items.
\<close>

datatype pitem = PI32 u32 | PU64 u64 | PBinder ptr

type_synonym lparcel = "pitem list \<times> nat"

definition append_items :: "lparcel \<Rightarrow> u64 \<Rightarrow> u64 \<Rightarrow> lparcel \<Rightarrow> status_t \<times> lparcel" where
  "append_items src off len dst =
     (if unat off + unat len \<le> length (fst src)
      then (status_of OK, (fst dst @ take (unat len) (drop (unat off) (fst src)), snd dst))
      else (status_of BAD_VALUE, dst))"

definition next_item :: "lparcel \<Rightarrow> pitem option" where
  "next_item d = (if snd d < length (fst d) then Some (fst d ! snd d) else None)"

definition list_lib ::
  "(ptr \<Rightarrow> u32 \<Rightarrow> status_t \<times> pitem list) \<Rightarrow> (counters, lparcel) libbinder_ops" where
  "list_lib script = \<lparr>
     incStrong = incStrong counting_refbase,
     incStrongRequireStrong = incStrongRequireStrong counting_refbase,
     decStrong = decStrong counting_refbase,
     getWeakRefs = getWeakRefs counting_refbase,
     createWeak = createWeak counting_refbase,
     incWeak = incWeak counting_refbase, decWeak = decWeak counting_refbase,
     attemptIncStrong = attemptIncStrong counting_refbase,
     newParcel = ([], 0), dataSize = (\<lambda>d. of_nat (length (fst d))),
     dataPosition = (\<lambda>d. of_nat (snd d)),
     appendFrom = append_items, freeData = (\<lambda>d. ([], 0)),
     writeInt32 = (\<lambda>v d. (status_of OK, (fst d @ [PI32 v], snd d))),
     writeUint32 = (\<lambda>v d. (status_of OK, (fst d @ [PI32 v], snd d))),
     writeUint64 = (\<lambda>v d. (status_of OK, (fst d @ [PU64 v], snd d))),
     writeStrongBinder = (\<lambda>p d. (status_of OK, (fst d @ [PBinder p], snd d))),
     readInt32 = (\<lambda>d. case next_item d of
         Some (PI32 v) \<Rightarrow> (status_of OK, v, (fst d, Suc (snd d))) | _ \<Rightarrow> (status_of BAD_VALUE, 0, d)),
     readInt32Value = (\<lambda>d. case next_item d of
         Some (PI32 v) \<Rightarrow> (v, (fst d, Suc (snd d))) | _ \<Rightarrow> (0, d)),
     readUint32 = (\<lambda>d. case next_item d of
         Some (PI32 v) \<Rightarrow> (status_of OK, v, (fst d, Suc (snd d))) | _ \<Rightarrow> (status_of BAD_VALUE, 0, d)),
     readUint64Value = (\<lambda>d. case next_item d of
         Some (PU64 v) \<Rightarrow> (v, (fst d, Suc (snd d))) | _ \<Rightarrow> (0, d)),
     readStrongBinder = (\<lambda>d w. case next_item d of
         Some (PBinder p) \<Rightarrow>
           if p = nullptr then (status_of UNEXPECTED_NULL, nullptr, (fst d, Suc (snd d)), w)
           else (status_of OK, p, (fst d, Suc (snd d)), incStrong counting_refbase p w)
       | _ \<Rightarrow> (status_of BAD_VALUE, nullptr, d, w)),
     localBinder = (\<lambda>p w. p), getCallingUid = (\<lambda>w. 10000), getCallingPid = (\<lambda>w. 42),
     transactReply = (\<lambda>b c d r f w. let (s, items) = script b c in (s, (fst r @ items, snd r), w)),
     transactNoReply = (\<lambda>b c d f w. (fst (script b c), w))\<rparr>"

text \<open>The world in which every object is held once by somebody else.\<close>

definition live_world :: counters where "live_world = (\<lambda>_. 1, \<lambda>_. 1)"

lemma list_lib_fields:
  "incStrong (list_lib sc) p w = ((fst w)(p := fst w p + 1), snd w)"
  "incStrongRequireStrong (list_lib sc) p w = ((fst w)(p := fst w p + 1), snd w)"
  "decStrong (list_lib sc) p w = ((fst w)(p := fst w p - 1), snd w)"
  "getWeakRefs (list_lib sc) p w = p + 8"
  "createWeak (list_lib sc) p w = (p + 8, (fst w, (snd w)(p + 8 := snd w (p + 8) + 1)))"
  "incWeak (list_lib sc) p w = (fst w, (snd w)(p := snd w p + 1))"
  "decWeak (list_lib sc) p w = (fst w, (snd w)(p := snd w p - 1))"
  "attemptIncStrong (list_lib sc) p w =
     (if fst w (p - 8) > 0 then (True, ((fst w)(p - 8 := fst w (p - 8) + 1), snd w)) else (False, w))"
  "newParcel (list_lib sc) = ([], 0)" "dataSize (list_lib sc) d = of_nat (length (fst d))"
  "dataPosition (list_lib sc) d = of_nat (snd d)" "appendFrom (list_lib sc) = append_items"
  "freeData (list_lib sc) d = ([], 0)"
  "writeInt32 (list_lib sc) v32 d = (status_of OK, (fst d @ [PI32 v32], snd d))"
  "writeUint32 (list_lib sc) v32 d = (status_of OK, (fst d @ [PI32 v32], snd d))"
  "writeUint64 (list_lib sc) v64 d = (status_of OK, (fst d @ [PU64 v64], snd d))"
  "writeStrongBinder (list_lib sc) p d = (status_of OK, (fst d @ [PBinder p], snd d))"
  "readInt32 (list_lib sc) d = (case next_item d of
     Some (PI32 v) \<Rightarrow> (status_of OK, v, (fst d, Suc (snd d))) | _ \<Rightarrow> (status_of BAD_VALUE, 0, d))"
  "readInt32Value (list_lib sc) d = (case next_item d of
     Some (PI32 v) \<Rightarrow> (v, (fst d, Suc (snd d))) | _ \<Rightarrow> (0, d))"
  "readUint32 (list_lib sc) d = (case next_item d of
     Some (PI32 v) \<Rightarrow> (status_of OK, v, (fst d, Suc (snd d))) | _ \<Rightarrow> (status_of BAD_VALUE, 0, d))"
  "readUint64Value (list_lib sc) d = (case next_item d of
     Some (PU64 v) \<Rightarrow> (v, (fst d, Suc (snd d))) | _ \<Rightarrow> (0, d))"
  "readStrongBinder (list_lib sc) d w = (case next_item d of
     Some (PBinder p) \<Rightarrow>
       if p = nullptr then (status_of UNEXPECTED_NULL, nullptr, (fst d, Suc (snd d)), w)
       else (status_of OK, p, (fst d, Suc (snd d)), ((fst w)(p := fst w p + 1), snd w))
   | _ \<Rightarrow> (status_of BAD_VALUE, nullptr, d, w))"
  "localBinder (list_lib sc) p w = p" "getCallingUid (list_lib sc) w = 10000"
  "getCallingPid (list_lib sc) w = 42"
  "transactReply (list_lib sc) b c d reply f w =
     (let (s, items) = sc b c in (s, (fst reply @ items, snd reply), w))"
  "transactNoReply (list_lib sc) b c d f w = (fst (sc b c), w)"
  by (simp_all add: list_lib_def counting_refbase_def split: prod.splits pitem.splits option.splits)

lemmas list_lib_simps = list_lib_fields counting_refbase_def append_items_def next_item_def
  live_world_def

end
