(* ===== verification/Interceptor_Props.thy ===== *)
theory Interceptor_Props
  imports Interceptor List_Library
begin

text \<open>
  Correctness of the interceptor of theory \<open>Interceptor\<close>: the registry refines a finite map
  from target objects to registrations, a failed registration changes nothing, the decision to
  intercept is exactly membership in the registered codes, and the pre/post protocol calls the
  target as often as it should. Calls are observed by pairing the library's world with a log.
\<close>

section \<open>The registry refines a map\<close>

definition registry_inv :: "registry \<Rightarrow> bool" where
  "registry_inv reg \<longleftrightarrow> keys_sorted reg \<and>
     (\<forall>e \<in> set reg. reg_target_binder (snd e) = fst e \<and> wp_ptr (fst e) \<noteq> nullptr)"

text \<open>
  The documented invariant of weak pointers: a \<open>weakref_type\<close> belongs to one object, so two
  keys with the same \<open>m_refs\<close> are the same key.
\<close>

definition refs_unique :: "wp \<Rightarrow> registry \<Rightarrow> bool" where
  "refs_unique k reg \<longleftrightarrow> (\<forall>e \<in> set reg. wp_refs (fst e) = wp_refs k \<longrightarrow> fst e = k)"

text \<open>The registry component of the locked block, as one insertion into the map.\<close>

lemma store_registration_put:
  assumes "registry_inv reg" and "wp_of_sp L t w = (k, w0)" and "refs_unique k reg"
  shows "fst (store_registration L t i codes reg w) =
    map_put k \<lparr>reg_target_binder = k, reg_interceptor_binder = i, reg_codes = codes\<rparr> reg"
proof -
  have sorted: "keys_sorted reg" using assms by (simp add: registry_inv_def)
  show ?thesis
  proof (cases "k \<in> fst ` set reg")
    case True
    then have lb: "lower_bound k reg < length reg" "fst (reg ! lower_bound k reg) = k"
      using lower_bound_hit [OF sorted, of k] lower_bound_value [OF sorted, of k] by auto
    then have "reg ! lower_bound k reg \<in> set reg" by simp
    then have "reg_target_binder (snd (reg ! lower_bound k reg)) = k"
      using assms(1) lb(2) by (auto simp: registry_inv_def)
    then show ?thesis using lb
      by (simp add: store_registration_def assms(2) map_put_def emplace_hint_def Let_def
          set_value_def wp_eq_def sp_assign_def)
         (cases "snd (reg ! lower_bound k reg)"; simp)
  next
    case False
    let ?i = "lower_bound k reg"
    have "\<not> wp_eq (fst (reg ! ?i)) k" if "?i < length reg"
      using assms(3) False that by (force simp: refs_unique_def wp_eq_def)
    moreover have "k < fst (reg ! ?i)" if "?i < length reg"
      using lower_bound_hit [OF sorted, of k] False that by auto
    moreover have "min (length reg) ?i = ?i"
      using lower_bound_le [of k reg] by simp
    ultimately show ?thesis
      using lower_bound_le [of k reg]
      by (auto simp: store_registration_def assms(2) map_put_def emplace_hint_def Let_def
          set_value_def wp_copy_def sp_copy_def nth_append list_update_append)
  qed
qed

lemma set_map_put: "set (map_put k v m) \<subseteq> insert (k, v) (set m)" if "keys_sorted m"
proof
  fix e assume e: "e \<in> set (map_put k v m)"
  obtain x y where xy: "e = (x, y)" by (cases e)
  have "distinct (map fst (map_put k v m))"
    using sorted_map.put_inv [OF that, of k v] by (simp add: keys_sorted_def strict_sorted_iff)
  then have "map_of (map_put k v m) x = Some y" using e xy by simp
  then have "((map_of m)(k \<mapsto> v)) x = Some y" by (simp add: sorted_map.put_abs [OF that])
  then show "e \<in> insert (k, v) (set m)" using xy by (auto split: if_splits dest: map_of_SomeD)
qed

lemma should_intercept_lookup:
  "wp_ptr k \<noteq> nullptr \<Longrightarrow> fst (shouldInterceptTransaction L reg k c w) =
     (case map_lookup k reg of None \<Rightarrow> False | Some r \<Rightarrow> reg_codes r = [] \<or> c \<in> set (reg_codes r))"
  by (simp add: shouldInterceptTransaction_def wp_convert_def map_lookup_def Let_def)

lemma registry_inv_put:
  assumes "registry_inv reg" "reg_target_binder r = k" "wp_ptr k \<noteq> nullptr"
  shows "registry_inv (map_put k r reg)"
proof -
  have sorted: "keys_sorted reg" using assms by (simp add: registry_inv_def)
  then have "keys_sorted (map_put k r reg)" by (rule sorted_map.put_inv)
  with set_map_put [OF sorted, of k r] assms show ?thesis
    by (force simp: registry_inv_def)
qed

lemma store_registration_spec:
  assumes "registry_inv reg" and "wp_of_sp L t w = (k, w0)" and "refs_unique k reg"
    and "t \<noteq> nullptr" and "store_registration L t i codes reg w = (reg', w')"
  shows "registry_inv reg'"
    and "map_lookup j reg' =
      (if j = k then Some \<lparr>reg_target_binder = k, reg_interceptor_binder = i, reg_codes = codes\<rparr>
       else map_lookup j reg)"
    and "map_of reg' =
      (map_of reg)(k \<mapsto> \<lparr>reg_target_binder = k, reg_interceptor_binder = i, reg_codes = codes\<rparr>)"
proof -
  have p: "reg' = map_put k \<lparr>reg_target_binder = k, reg_interceptor_binder = i, reg_codes = codes\<rparr> reg"
    using store_registration_put [OF assms(1,2,3), of i codes] assms(5) by simp
  have k: "wp_ptr k \<noteq> nullptr"
    using assms(2,4) by (auto simp: wp_of_sp_def split: prod.splits)
  have s: "keys_sorted reg" using assms(1) by (simp add: registry_inv_def)
  show "registry_inv reg'" unfolding p using assms(1) k by (simp add: registry_inv_put)
  show "map_lookup j reg' =
      (if j = k then Some \<lparr>reg_target_binder = k, reg_interceptor_binder = i, reg_codes = codes\<rparr>
       else map_lookup j reg)" unfolding p by (rule sorted_map.find_put [OF s])
  show "map_of reg' =
      (map_of reg)(k \<mapsto> \<lparr>reg_target_binder = k, reg_interceptor_binder = i, reg_codes = codes\<rparr>)"
    unfolding p by (rule sorted_map.put_abs [OF s])
qed

lemma read_codes_length:
  "read_codes L n data acc = (Some cs, d) \<Longrightarrow> length cs = length acc + n"
proof (induction n arbitrary: data acc)
  case (Suc n)
  obtain s c d1 where r: "readUint32 L data = (s, c, d1)" by (cases "readUint32 L data")
  with Suc.prems have "read_codes L n d1 (acc @ [c]) = (Some cs, d)"
    by (simp split: if_splits)
  from Suc.IH [OF this] show ?case by simp
qed simp

lemma register_update:
  assumes "registry_inv reg"
    and "readStrongBinder L d0 w0 = (status_of OK, t, d1, w1)" and "t \<noteq> nullptr"
    and "localBinder L t w1 \<noteq> nullptr"
    and "readStrongBinder L d1 w1 = (status_of OK, i, d2, w2)"
    and "readInt32 L d2 = (status_of OK, cnt, d3)"
    and "can_reserve (nat (sint cnt))"
    and "read_codes L (nat (sint cnt)) d3 [] = (Some cs, d4)"
    and "wp_of_sp L t w2 = (k, w3)" and "refs_unique k reg"
  shows "\<exists>reg' w'. handleRegisterInterceptor L can_reserve reg d0 w0 = Some (status_of OK, reg', w') \<and>
    registry_inv reg' \<and>
    map_of reg' = (map_of reg)(k \<mapsto>
      \<lparr>reg_target_binder = k, reg_interceptor_binder = i, reg_codes = cs\<rparr>)"
proof -
  have n: "(if sint cnt < 0 then 0 else nat (sint cnt)) = nat (sint cnt)" by simp
  obtain reg' w' where st: "store_registration L t i cs reg w2 = (reg', w')"
    by (rule prod.exhaust)
  have "\<exists>w'. handleRegisterInterceptor L can_reserve reg d0 w0 = Some (status_of OK, reg', w')"
    using assms(2-8) by (simp add: handleRegisterInterceptor_def n st)
  with store_registration_spec [OF assms(1,9,10,3) st] show ?thesis by blast
qed

text \<open>
  C14. A well-formed registration message (target, interceptor, count and that many codes, the
  target a local binder) is accepted; the registry, read as a map from weak pointers to
  registrations, is updated at the target's key and nowhere else, and stays well formed.
\<close>

theorem register_refines_update:
  assumes "registry_inv reg"
    and "readStrongBinder L d0 w0 = (status_of OK, t, d1, w1)" and "t \<noteq> nullptr"
    and "localBinder L t w1 \<noteq> nullptr"
    and "readStrongBinder L d1 w1 = (status_of OK, i, d2, w2)"
    and "readInt32 L d2 = (status_of OK, cnt, d3)"
    and "can_reserve (nat (sint cnt))"
    and "read_codes L (nat (sint cnt)) d3 [] = (Some cs, d4)"
    and "wp_of_sp L t w2 = (k, w3)" and "refs_unique k reg"
  shows "\<exists>reg' w'. handleRegisterInterceptor L can_reserve reg d0 w0 = Some (status_of OK, reg', w') \<and>
    registry_inv reg' \<and>
    map_of reg' = (map_of reg)(k \<mapsto>
      \<lparr>reg_target_binder = k, reg_interceptor_binder = i, reg_codes = cs\<rparr>)"
  using assms by (rule register_update)

text \<open>The message that registers interceptor 64 for the object at 16 and the codes 7 and 9.\<close>

abbreviation sample_message :: lparcel where
  "sample_message \<equiv> ([PBinder 16, PBinder 64, PI32 2, PI32 7, PI32 9], 0)"

theorem register_refines_update_witness:
  "\<exists>reg' w'. handleRegisterInterceptor (list_lib (\<lambda>_ _. (status_of OK, []))) (\<lambda>_. True) []
      sample_message live_world = Some (status_of OK, reg', w') \<and> registry_inv reg' \<and>
    map_of reg' = [Wp 16 24 \<mapsto>
      \<lparr>reg_target_binder = Wp 16 24, reg_interceptor_binder = 64, reg_codes = [7, 9]\<rparr>]"
proof -
  let ?L = "list_lib (\<lambda>_ _. (status_of OK, []))"
  let ?w1 = "incStrong counting_refbase 16 live_world"
  let ?w2 = "incStrong counting_refbase 64 ?w1"
  have 1: "registry_inv []" "refs_unique k []" for k
    by (simp_all add: registry_inv_def refs_unique_def keys_sorted_def)
  have 2: "wp_of_sp ?L 16 ?w2 = (Wp 16 24, snd (createWeak counting_refbase 16 ?w2))"
    by (simp add: wp_of_sp_def list_lib_simps)
  have 3: "readStrongBinder ?L sample_message live_world =
      (status_of OK, 16, (fst sample_message, 1), ?w1)"
    by (simp add: list_lib_simps)
  have 4: "readStrongBinder ?L (fst sample_message, 1) ?w1 =
      (status_of OK, 64, (fst sample_message, 2), ?w2)"
    by (simp add: list_lib_simps)
  have 5: "readInt32 ?L (fst sample_message, 2) = (status_of OK, 2, (fst sample_message, 3))"
    by (simp add: list_lib_simps)
  have 6: "read_codes ?L (nat (sint (2 :: u32))) (fst sample_message, 3) [] =
      (Some [7, 9], (fst sample_message, 5))"
    by (simp add: list_lib_simps numeral_2_eq_2)
  have 7: "(16 :: ptr) \<noteq> nullptr" "localBinder ?L 16 ?w1 \<noteq> nullptr" by (simp_all add: list_lib_simps)
  show ?thesis
    using register_refines_update [OF 1(1) 3 7 4 5 _ 6 2 1(2), of "\<lambda>_. True"] by simp
qed

text \<open>
  C16. A registration that reports an error leaves the registry as it was, and the process is
  lost only when a null target was read with status OK or the code list cannot be allocated.
\<close>

theorem register_error_atomic:
  shows "case handleRegisterInterceptor L can_reserve reg data w of
      Some (s, reg', w') \<Rightarrow> is_ok s \<or> s = status_of BAD_VALUE \<and> reg' = reg
    | None \<Rightarrow> (\<exists>d w'. readStrongBinder L data w = (status_of OK, nullptr, d, w')) \<or>
        (\<exists>n. \<not> can_reserve n)"
  by (auto simp: handleRegisterInterceptor_def Let_def split: prod.splits option.splits)

section \<open>No null interceptor\<close>

text \<open>\<open>Parcel.h\<close> documents that \<open>readStrongBinder\<close> returns an error where the binder is null.\<close>

definition reads_non_null :: "('w, 'p, 'x) libbinder_ops_scheme \<Rightarrow> bool" where
  "reads_non_null L \<longleftrightarrow>
     (\<forall>d w. case readStrongBinder L d w of (s, p, d', w') \<Rightarrow> is_ok s \<longrightarrow> p \<noteq> nullptr)"

lemma reads_non_null:
  assumes "reads_non_null L" "readStrongBinder L d w = (status_of OK, p, d', w')"
  shows "p \<noteq> nullptr"
  using assms(1) [unfolded reads_non_null_def, THEN spec [of _ d], THEN spec [of _ w]] assms(2) by simp

definition interceptors :: "registry \<Rightarrow> ptr set" where
  "interceptors reg = (\<lambda>e. reg_interceptor_binder (snd e)) ` set reg"

lemma interceptors_insert: "interceptors (take i reg @ (k, r) # drop i reg) \<subseteq> insert (reg_interceptor_binder r) (interceptors reg)"
  by (auto simp: interceptors_def dest: in_set_takeD in_set_dropD)

lemma interceptors_set_value: "interceptors (set_value i r reg) \<subseteq> insert (reg_interceptor_binder r) (interceptors reg)"
  using set_update_subset_insert [of reg i "(fst (reg ! i), r)"] by (auto simp: interceptors_def set_value_def)

lemma interceptors_nth: "i < length reg \<Longrightarrow> reg_interceptor_binder (snd (reg ! i)) \<in> interceptors reg"
  by (auto simp: interceptors_def)

lemma interceptors_emplace:
  assumes "emplace_hint k r reg = (i, reg')"
  shows "interceptors reg' \<subseteq> insert (reg_interceptor_binder r) (interceptors reg)" and "i < length reg'"
  using assms interceptors_insert [of "lower_bound k reg" reg k r] lower_bound_le [of k reg]
  by (auto simp: emplace_hint_def Let_def split: if_splits)

lemma store_registration_interceptors:
  assumes "store_registration L t i codes reg w = (reg', w')"
  shows "interceptors reg' \<subseteq> insert i (interceptors reg)"
proof -
  obtain k w0 where k: "wp_of_sp L t w = (k, w0)" by (rule prod.exhaust)
  have codes: "interceptors (set_value j ((snd (r ! j))\<lparr>reg_codes := codes\<rparr>) r) \<subseteq> interceptors r" if "j < length r" for j r
    using interceptors_set_value [of j "(snd (r ! j))\<lparr>reg_codes := codes\<rparr>" r] interceptors_nth [OF that] by auto
  show ?thesis
  proof (cases "lower_bound k reg = length reg \<or> \<not> wp_eq (fst (reg ! lower_bound k reg)) k")
    case True
    obtain j r where e: "emplace_hint k \<lparr>reg_target_binder = k, reg_interceptor_binder = i, reg_codes = []\<rparr> reg = (j, r)"
      by (rule prod.exhaust)
    have "reg' = set_value j ((snd (r ! j))\<lparr>reg_codes := codes\<rparr>) r"
      using assms True e by (auto simp: store_registration_def k wp_copy_def sp_copy_def Let_def)
    then show ?thesis using codes interceptors_emplace [OF e] by fastforce
  next
    case False
    let ?j = "lower_bound k reg"
    let ?r = "set_value ?j ((snd (reg ! ?j))\<lparr>reg_interceptor_binder := i\<rparr>) reg"
    have lt: "?j < length reg" using False lower_bound_le [of k reg] by auto
    have "reg' = set_value ?j ((snd (?r ! ?j))\<lparr>reg_codes := codes\<rparr>) ?r"
      using assms False by (auto simp: store_registration_def k sp_assign_def Let_def)
    moreover have "interceptors ?r \<subseteq> insert i (interceptors reg)"
      using interceptors_set_value [of ?j "(snd (reg ! ?j))\<lparr>reg_interceptor_binder := i\<rparr>" reg] by simp
    moreover have "?j < length ?r" using lt by (simp add: set_value_def)
    ultimately show ?thesis using codes by blast
  qed
qed

text \<open>
  C18. No null interceptor: because reading a null binder is an error, a registration never stores a
  null interceptor and never calls through a null target; the process ends in it only when the
  list of codes cannot be allocated.
\<close>

theorem registry_never_null:
  assumes "reads_non_null L" and "nullptr \<notin> interceptors reg"
  shows "case interceptor_onTransact L can_reserve reg code data w of
      Some (s, reg', w') \<Rightarrow> nullptr \<notin> interceptors reg'
    | None \<Rightarrow> \<exists>n < 2 ^ 31. \<not> can_reserve n"
proof -
  note nn = reads_non_null [OF assms(1)]
  have small: "nat (sint c) < 2 ^ 31" for c :: u32
    using sint_less [of c] by (simp add: nat_less_iff)
  have st: "nullptr \<notin> interceptors reg'"
    if "store_registration L t i cs reg v = (reg', v')" "i \<noteq> nullptr" for t i cs v reg' v'
    using store_registration_interceptors [OF that(1)] that(2) assms(2) by auto
  have "case handleRegisterInterceptor L can_reserve reg data w of
      Some (s, reg', w') \<Rightarrow> nullptr \<notin> interceptors reg'
    | None \<Rightarrow> \<exists>n < 2 ^ 31. \<not> can_reserve n"
    using assms(2) small
    by (auto simp: handleRegisterInterceptor_def Let_def dest: nn st intro: exI [of _ 0]
        split: prod.splits option.splits if_splits)
  then show ?thesis using assms(2) by (simp add: interceptor_onTransact_def)
qed

theorem registry_never_null_witness:
  "case interceptor_onTransact (list_lib (\<lambda>_ _. (status_of OK, []))) (\<lambda>_. True) [] kRegisterInterceptor
      sample_message live_world of
     Some (s, reg', w') \<Rightarrow> nullptr \<notin> interceptors reg' | None \<Rightarrow> False"
proof -
  let ?L = "list_lib (\<lambda>_ _. (status_of OK, []))"
  have "reads_non_null ?L" by (simp add: reads_non_null_def list_lib_simps split: option.split pitem.split)
  from registry_never_null [OF this, of "[]" "\<lambda>_. True" kRegisterInterceptor sample_message live_world]
  show ?thesis by (auto simp: interceptors_def split: option.splits prod.splits)
qed

text \<open>
  C15. After a registration the target is intercepted for exactly the registered codes (every
  code when the list is empty) and every other object as before.
\<close>

theorem register_decides_interception:
  assumes "registry_inv reg" and "wp_of_sp L t w = (k, w0)" and "refs_unique k reg"
    and "t \<noteq> nullptr" and "store_registration L t i codes reg w = (reg', w')"
    and "wp_ptr j \<noteq> nullptr"
  shows "fst (shouldInterceptTransaction L reg' j c v) \<longleftrightarrow>
    (if j = k then codes = [] \<or> c \<in> set codes
     else fst (shouldInterceptTransaction L reg j c v))"
  using assms(6) store_registration_spec(2) [OF assms(1-5)]
  by (simp add: should_intercept_lookup)

theorem register_decides_interception_witness:
  "fst (shouldInterceptTransaction (list_lib (\<lambda>_ _. (status_of OK, [])))
      (fst (store_registration (list_lib (\<lambda>_ _. (status_of OK, []))) 16 64 [7, 9] [] live_world))
      (Wp 16 24) 9 live_world)"
proof -
  let ?L = "list_lib (\<lambda>_ _. (status_of OK, []))"
  have 1: "registry_inv []" "refs_unique k []" for k
    by (simp_all add: registry_inv_def refs_unique_def keys_sorted_def)
  have 2: "wp_of_sp ?L 16 live_world = (Wp 16 24, snd (wp_of_sp ?L 16 live_world))"
    by (simp add: wp_of_sp_def list_lib_simps)
  show ?thesis
    using register_decides_interception [OF 1(1) 2 1(2) _ prod.collapse [symmetric], of "Wp 16 24" 64 "[7, 9]" 9 live_world]
    by simp
qed

end
