(* ===== verification/Interceptor_Refs.thy ===== *)
theory Interceptor_Refs
  imports Interceptor_Props
begin

text \<open>
  The references the interceptor holds. Registrations own one strong reference to their
  interceptor and two weak references to their target (the key and the member
  \<open>target_binder\<close>); a registration transaction, successful or not, keeps the balance between
  the references taken and the references the registry owns. The stub calls only objects it
  holds, releases what it took, and its calls are the ones of the reference trace.
\<close>

section \<open>What the registry owns\<close>

fun owned_sum :: "('e \<Rightarrow> int) \<Rightarrow> 'e list \<Rightarrow> int" where
  "owned_sum f [] = 0"
| "owned_sum f (e # es) = f e + owned_sum f es"

lemma owned_sum_append [simp]: "owned_sum f (xs @ ys) = owned_sum f xs + owned_sum f ys"
  by (induction xs) auto

lemma owned_sum_update:
  "i < length xs \<Longrightarrow> owned_sum f (xs[i := x]) = owned_sum f xs - f (xs ! i) + f x"
proof (induction xs arbitrary: i)
  case (Cons y xs)
  then show ?case by (cases i) auto
qed simp

lemma owned_sum_insert: "owned_sum f (take i xs @ x # drop i xs) = owned_sum f xs + f x"
proof -
  have "owned_sum f xs = owned_sum f (take i xs) + owned_sum f (drop i xs)"
    by (metis append_take_drop_id owned_sum_append)
  then show ?thesis by simp
qed

definition reg_strong :: "ptr \<Rightarrow> wp \<times> registration \<Rightarrow> int" where
  "reg_strong p e = (if reg_interceptor_binder (snd e) = p \<and> p \<noteq> nullptr then 1 else 0)"

definition reg_weak :: "ptr \<Rightarrow> wp \<times> registration \<Rightarrow> int" where
  "reg_weak r e = holds (fst e) r + holds (reg_target_binder (snd e)) r"

text \<open>
  Both balances of a locked block: the references taken minus the references the registry
  owns are as before.
\<close>

definition refs_kept :: "registry \<times> event_log \<Rightarrow> registry \<times> event_log \<Rightarrow> bool" where
  "refs_kept a b \<longleftrightarrow>
     (\<forall>p. strong_net (snd b) p - owned_sum (reg_strong p) (fst b) =
          strong_net (snd a) p - owned_sum (reg_strong p) (fst a)) \<and>
     (\<forall>r. weak_net (snd b) r - owned_sum (reg_weak r) (fst b) =
          weak_net (snd a) r - owned_sum (reg_weak r) (fst a))"

lemma store_registration_refs_kept:
  assumes "store_registration (traced L obj) t i codes reg (w, l) = (reg', (w', l'))"
    and "t \<noteq> nullptr"
  shows "refs_kept (reg, l) (reg', l')"
proof -
  obtain r w1 where cw: "createWeak L t w = (r, w1)" by (rule prod.exhaust)
  let ?k = "Wp t r"
  let ?i = "lower_bound ?k reg"
  have weak: "wp_of_sp (traced L obj) t (w, l) = (?k, (w1, l @ [Weak r 1]))"
    using assms(2) cw by (simp add: wp_of_sp_def)
  show ?thesis
  proof (cases "?i = length reg \<or> \<not> wp_eq (fst (reg ! ?i)) ?k")
    case True
    have fresh: "?k < fst (reg ! ?i)" if "?i < length reg"
    proof -
      have "\<not> fst (reg ! ?i) < ?k"
        using nth_length_takeWhile [of "\<lambda>e. fst e < ?k" reg] that by (simp add: lower_bound_def)
      moreover have "fst (reg ! ?i) \<noteq> ?k" using True that by (auto simp: wp_eq_def)
      ultimately show ?thesis by simp
    qed
    let ?e = "(?k, \<lparr>reg_target_binder = ?k, reg_interceptor_binder = i, reg_codes = codes\<rparr>)"
    have le: "?i \<le> length reg" by (rule lower_bound_le)
    have new: "reg' = take ?i reg @ ?e # drop ?i reg \<and>
       l' = l @ [Weak r 1, Weak r 1] @ (if i = nullptr then [] else [Strong i 1]) @
         [Weak r 1, Weak r 1, Weak r 1, Weak r (-1), Weak r (-1), Weak r (-1)]"
      using assms(1,2) True fresh le
      by (auto simp: store_registration_def weak wp_copy_def sp_copy_def wp_destroy_def
          emplace_hint_def set_value_def Let_def nth_append list_update_append split: if_splits)
    have sum: "owned_sum f reg' = owned_sum f reg + f ?e" for f
      using new owned_sum_insert [of f ?i reg ?e] by simp
    show ?thesis using new [THEN conjunct2]
      by (auto simp: refs_kept_def sum reg_strong_def reg_weak_def holds_def assms(2))
  next
    case False
    then have lt: "?i < length reg" using lower_bound_le [of ?k reg] by auto
    let ?r = "snd (reg ! ?i)"
    have new: "reg' = reg[?i := (fst (reg ! ?i), ?r\<lparr>reg_interceptor_binder := i, reg_codes := codes\<rparr>)] \<and>
       l' = l @ [Weak r 1] @ (if i = nullptr then [] else [Strong i 1]) @
         (if reg_interceptor_binder ?r = nullptr then [] else [Strong (reg_interceptor_binder ?r) (-1)]) @
         [Weak r (-1)]"
      using assms(1,2) False lt
      by (auto simp: store_registration_def weak sp_assign_def wp_destroy_def
          set_value_def Let_def split: if_splits)
    then show ?thesis using lt
      by (auto simp: refs_kept_def owned_sum_update reg_strong_def reg_weak_def holds_def assms(2))
  qed
qed

lemma sp_destroy_traced:
  "sp_destroy (traced L obj) p (w, l) =
     (if p = nullptr then (w, l) else (decStrong L p w, l @ [Strong p (-1)]))"
  by (simp add: sp_destroy_def)

text \<open>A pointer read from the message and released at the end leaves both balances alone.\<close>

lemma refs_kept_release:
  assumes "refs_kept (reg, if p = nullptr then l else l @ [Strong p 1]) (reg', l1)"
  shows "refs_kept (reg, l) (reg', if p = nullptr then l1 else l1 @ [Strong p (-1)])"
proof -
  have "strong_net l1 q - owned_sum (reg_strong q) reg' =
      strong_net (if p = nullptr then l else l @ [Strong p 1]) q - owned_sum (reg_strong q) reg"
    "weak_net l1 q - owned_sum (reg_weak q) reg' =
      weak_net (if p = nullptr then l else l @ [Strong p 1]) q - owned_sum (reg_weak q) reg" for q
    using assms by (simp_all add: refs_kept_def)
  then show ?thesis by (auto simp: refs_kept_def diff_eq_eq split: if_splits)
qed

lemma refs_kept_refl: "refs_kept a a"
  by (simp add: refs_kept_def)

lemma register_body_kept:
  assumes "t \<noteq> nullptr" and "handleRegisterInterceptor (traced L obj) can_reserve reg data (w, l) =
      Some (s, reg', (w', l'))"
    and "readStrongBinder L data w = (status_of OK, t, d1, w1)"
  shows "\<exists>l1. l' = l1 @ [Strong t (-1)] \<and> refs_kept (reg, l @ [Strong t 1]) (reg', l1)"
proof (cases "localBinder L t w1 = nullptr")
  case True
  then show ?thesis using assms
    by (auto simp: handleRegisterInterceptor_def sp_destroy_traced refs_kept_refl)
next
  case False
  obtain s2 i d2 w2 where r2: "readStrongBinder L d1 w1 = (s2, i, d2, w2)" by (rule prod_cases4)
  obtain s3 cnt d3 where r3: "readInt32 L d2 = (s3, cnt, d3)" by (rule prod_cases3)
  let ?l2 = "if i = nullptr then l @ [Strong t 1] else l @ [Strong t 1, Strong i 1]"
  have rel: "refs_kept (reg, l @ [Strong t 1])
      (reg'', if i = nullptr then l3 else l3 @ [Strong i (-1)])" if "refs_kept (reg, ?l2) (reg'', l3)"
    for reg'' l3
    using refs_kept_release [of reg i "l @ [Strong t 1]" reg'' l3] that by (cases "i = nullptr") simp_all
  let ?n = "if sint cnt < 0 then 0 else nat (sint cnt)"
  note step = handleRegisterInterceptor_def sp_destroy_traced
  show ?thesis
  proof (cases "is_ok s2 \<and> is_ok s3 \<and> (\<exists>cs. fst (read_codes (traced L obj) ?n d3 []) = Some cs)")
    case True
    then obtain cs where ok: "s2 = status_of OK" "s3 = status_of OK"
      "fst (read_codes (traced L obj) ?n d3 []) = Some cs" by auto
    obtain rg w3 l3 where st: "store_registration (traced L obj) t i cs reg (w2, ?l2) = (rg, (w3, l3))"
      by (rule prod_cases3)
    have k: "refs_kept (reg, ?l2) (rg, l3)"
      by (rule store_registration_refs_kept [OF st assms(1)])
    have "reg' = rg \<and> l' = (if i = nullptr then l3 else l3 @ [Strong i (-1)]) @ [Strong t (-1)]"
      using assms r2 r3 False ok st
      by (simp add: step Let_def split: if_splits)
    then show ?thesis using rel [OF k] by blast
  next
    case bad: False
    have "reg' = reg \<and> l' = (if i = nullptr then ?l2 else ?l2 @ [Strong i (-1)]) @ [Strong t (-1)]"
      using assms r2 r3 False bad
      by (auto simp: step Let_def split: if_splits option.splits)
    then show ?thesis using rel [OF refs_kept_refl, of] by blast
  qed
qed

lemma register_refs_kept:
  assumes "handleRegisterInterceptor (traced L obj) can_reserve reg data (w, l) =
      Some (s, reg', (w', l'))"
  shows "refs_kept (reg, l) (reg', l')"
proof -
  obtain s1 t d1 w1 where r1: "readStrongBinder L data w = (s1, t, d1, w1)" by (rule prod_cases4)
  show ?thesis
  proof (cases "is_ok s1")
    case False
    then show ?thesis using assms r1
      by (auto simp: handleRegisterInterceptor_def sp_destroy_traced refs_kept_def split: if_splits)
  next
    case True
    then have t: "t \<noteq> nullptr" using assms r1 by (auto simp: handleRegisterInterceptor_def)
    from register_body_kept [OF t assms] r1 True
    obtain l1 where l1: "l' = l1 @ [Strong t (-1)]" "refs_kept (reg, l @ [Strong t 1]) (reg', l1)"
      by auto
    show ?thesis using refs_kept_release [of reg t l reg' l1] l1 t by simp
  qed
qed

text \<open>
  C17. Registering an interceptor loses and leaks no reference on any path: what the handler
  takes and does not return is exactly what the registry owns afterwards, one strong reference
  per interceptor and two weak references per target; replacing an interceptor releases the
  old one.
\<close>

theorem register_conserves_references:
  assumes "handleRegisterInterceptor (traced L obj) can_reserve reg data (w, l) =
      Some (s, reg', (w', l'))"
  shows "strong_net l' p - owned_sum (reg_strong p) reg' =
      strong_net l p - owned_sum (reg_strong p) reg \<and>
    weak_net l' r - owned_sum (reg_weak r) reg' = weak_net l r - owned_sum (reg_weak r) reg"
  using register_refs_kept [OF assms] by (simp add: refs_kept_def)

lemma sample_registration:
  "\<exists>s w' l'. handleRegisterInterceptor (traced (list_lib sc) (\<lambda>r. r - 8)) (\<lambda>_. True) [] sample_message (live_world, []) =
     Some (s, [(Wp 16 24, \<lparr>reg_target_binder = Wp 16 24, reg_interceptor_binder = 64, reg_codes = [7, 9]\<rparr>)], (w', l'))"
proof -
  have n: "read_codes M 2 d cs = read_codes M (Suc (Suc 0)) d cs"
    for M :: "(counters \<times> event_log, lparcel) libbinder_ops" and d cs
    by (simp only: numeral_2_eq_2)
  show ?thesis
    by (simp add: handleRegisterInterceptor_def list_lib_simps store_registration_def n
        wp_of_sp_def wp_copy_def sp_copy_def wp_destroy_def emplace_hint_def set_value_def)
qed

theorem register_conserves_references_witness:
  "case handleRegisterInterceptor (traced (list_lib (\<lambda>_ _. (status_of OK, []))) (\<lambda>r. r - 8)) (\<lambda>_. True)
      [] sample_message (live_world, []) of
     Some (s, reg', (w', l')) \<Rightarrow> strong_net l' 64 = owned_sum (reg_strong 64) reg' \<and>
       strong_net l' 16 = 0 \<and> weak_net l' 24 = 2
   | None \<Rightarrow> False"
proof -
  obtain s reg' w' l' where r: "handleRegisterInterceptor (traced (list_lib (\<lambda>_ _. (status_of OK, []))) (\<lambda>r. r - 8))
      (\<lambda>_. True) [] sample_message (live_world, []) = Some (s, reg', (w', l'))" and
    reg: "reg' = [(Wp 16 24, \<lparr>reg_target_binder = Wp 16 24, reg_interceptor_binder = 64,
       reg_codes = [7, 9]\<rparr>)]"
    using sample_registration by blast
  from register_conserves_references [OF r, of 64 24] register_conserves_references [OF r, of 16 24]
  show ?thesis unfolding r by (simp add: reg reg_strong_def reg_weak_def holds_def)
qed

section \<open>The reference trace of the stub\<close>

text \<open>
  What one transaction through the stub does, as a function of four decisions: whether the
  pre-transact and post-transact calls are made (\<open>pre\<close>, \<open>post\<close>), whether the handler forwards
  to the target (\<open>fwd\<close>) and whether it reports the transaction handled. \<open>t\<close> is the target with
  its \<open>weakref_type\<close> at \<open>r\<close>, \<open>i\<close> the registered interceptor and \<open>c\<close> the code.
\<close>

definition emit :: "bool \<Rightarrow> event_log \<Rightarrow> event_log" where
  "emit b l = (if b then l else [])"

text \<open>The temporary \<open>sp<IBinder>\<close> a target is converted to when it is written to a parcel.\<close>

definition conversion :: "ptr \<Rightarrow> event_log" where
  "conversion t = [Strong t 1, Strong t (-1)]"

definition handler_trace ::
  "ptr \<Rightarrow> ptr \<Rightarrow> ptr \<Rightarrow> u32 \<Rightarrow> bool \<Rightarrow> bool \<Rightarrow> bool \<Rightarrow> event_log" where
  "handler_trace t r i c pre fwd post =
     [Weak r 1, Weak r (-1)] @ emit (i \<noteq> nullptr) [Strong i 1] @ [Strong t 1] @ conversion t @ [Strong t (-1)] @
     emit pre [Called i kPreTransact] @ emit fwd (Called t c # conversion t) @ emit post [Called i kPostTransact] @
     emit (i \<noteq> nullptr) [Strong i (-1)]"

definition stub_trace ::
  "ptr \<Rightarrow> ptr \<Rightarrow> ptr \<Rightarrow> u32 \<Rightarrow> bool \<Rightarrow> bool \<Rightarrow> bool \<Rightarrow> bool \<Rightarrow> event_log" where
  "stub_trace t r i c pre fwd post handled =
     [Weak r 1, Weak r (-1), Strong t 1, Strong t 1] @ handler_trace t r i c pre fwd post @
     [Strong t (-1)] @ emit (\<not> handled) [Called t c] @ [Strong t (-1), Weak r (-1)]"

lemmas trace_defs = handler_trace_def stub_trace_def emit_def conversion_def

lemma handle_pre_trace:
  assumes "t \<noteq> nullptr" "handle_pre (traced L obj) i t c q r f (w, l) = (out, (w', l'))"
  shows "\<exists>pre. l' = l @ [Strong t 1] @ conversion t @ [Strong t (-1)] @ emit pre [Called i kPreTransact] \<and>
    ((case out of PreForward _ \<Rightarrow> True | PreReturn b _ _ \<Rightarrow> b) \<longrightarrow> pre)"
  using assms
  by (fastforce simp: handle_pre_def writeInterceptorCallData_def write_binder_def Let_def sp_copy_def
      sp_destroy_traced emit_def conversion_def
      split: prod.splits if_splits option.splits)

lemma handle_post_trace:
  assumes "t \<noteq> nullptr" "handle_post (traced L obj) i t c q r f res (w, l) = (b, s, r', (w', l'))"
  shows "\<exists>post. l' = l @ conversion t @ emit post [Called i kPostTransact] \<and> (b \<longrightarrow> post)"
  using assms
  by (fastforce simp: handle_post_def writePostCallData_def write_binder_def Let_def sp_copy_def
      sp_destroy_traced emit_def conversion_def split: prod.splits if_splits option.splits)

text \<open>The order of the decisions: forwarding needs a pre call, the post call needs forwarding.\<close>

definition decisions_ok :: "bool \<Rightarrow> bool \<Rightarrow> bool \<Rightarrow> bool \<Rightarrow> bool" where
  "decisions_ok pre fwd post handled \<longleftrightarrow>
     (fwd \<longrightarrow> pre) \<and> (post \<longrightarrow> fwd) \<and> (handled \<longrightarrow> pre \<and> (fwd \<longrightarrow> post))"

lemma handle_body_trace:
  assumes "t \<noteq> nullptr" and "(case handle_pre (traced L obj) i t c q rp f (w, l) of
      (PreReturn b res r, x) \<Rightarrow> (b, res, r, x)
    | (PreForward m, x) \<Rightarrow>
        (let (res, r, x) = transact (traced L obj) t c m rp f x
         in handle_post (traced L obj) i t c q r f res x)) = (handled, res, r', (w', l'))"
  shows "\<exists>pre fwd post. l' = l @ [Strong t 1] @ conversion t @ [Strong t (-1)] @ emit pre [Called i kPreTransact] @
      emit fwd (Called t c # conversion t) @ emit post [Called i kPostTransact] \<and> decisions_ok pre fwd post handled \<and>
      (fwd \<longleftrightarrow> (\<exists>m. fst (handle_pre (traced L obj) i t c q rp f (w, l)) = PreForward m)) \<and>
      (fwd \<longrightarrow> handled \<longrightarrow> (\<exists>r res x. fst (handle_post (traced L obj) i t c q r f res x)))"
proof -
  obtain out w1 l1 where pre: "handle_pre (traced L obj) i t c q rp f (w, l) = (out, (w1, l1))"
    by (rule prod_cases3)
  from handle_pre_trace [OF assms(1) pre] obtain p where
    p: "l1 = l @ [Strong t 1] @ conversion t @ [Strong t (-1)] @ emit p [Called i kPreTransact]"
    "(case out of PreForward _ \<Rightarrow> True | PreReturn b _ _ \<Rightarrow> b) \<longrightarrow> p" by blast
  show ?thesis
  proof (cases out)
    case (PreReturn b s r)
    then have "l' = l1" "handled = b" using assms(2) pre by auto
    then show ?thesis using p PreReturn
      by (intro exI [of _ p] exI [of _ False]) (simp add: emit_def decisions_ok_def pre)
  next
    case (PreForward m)
    obtain s2 r2 w2 where tr: "transact L t c m rp f w1 = (s2, r2, w2)" by (rule prod_cases3)
    have post: "handle_post (traced L obj) i t c q r2 f s2 (w2, l1 @ [Called t c]) =
        (handled, res, r', (w', l'))"
      using assms(2) pre PreForward by (simp add: transact_traced tr)
    from handle_post_trace [OF assms(1) post] obtain k where
      k: "l' = (l1 @ [Called t c]) @ conversion t @ emit k [Called i kPostTransact]" "handled \<longrightarrow> k" by blast
    have "handled \<longrightarrow> (\<exists>r res x. fst (handle_post (traced L obj) i t c q r f res x))" using post by (metis fst_conv)
    then show ?thesis using p PreForward k
      by (intro exI [of _ p] exI [of _ True] exI [of _ k]) (simp add: emit_def decisions_ok_def pre)
  qed
qed

lemma handler_trace_shape:
  assumes "t \<noteq> nullptr" and "createWeak L t w = (r, w0)" and "map_lookup (Wp t r) reg = Some e"
    and "handleInterceptedTransaction (traced L obj) reg t c q rp f (w, l) = (handled, res, r', (w', l'))"
  shows "\<exists>pre fwd post. l' = l @ handler_trace t r (reg_interceptor_binder e) c pre fwd post \<and>
    decisions_ok pre fwd post handled \<and>
    ((\<forall>x. \<exists>m. fst (handle_pre (traced L obj) (reg_interceptor_binder e) t c q rp f x) = PreForward m) \<longrightarrow> fwd) \<and>
    (fwd \<longrightarrow> handled \<longrightarrow> (\<exists>r res x. fst (handle_post (traced L obj) (reg_interceptor_binder e) t c q r f res x)))"
proof -
  let ?T = "traced L obj" and ?i = "reg_interceptor_binder e"
  let ?w1 = "decWeak L r w0" and ?l1 = "l @ [Weak r 1, Weak r (-1)]"
  let ?x2 = "if ?i = nullptr then (?w1, ?l1) else (incStrong L ?i ?w1, ?l1 @ [Strong ?i 1])"
  have key: "wp_of_sp ?T t (w, l) = (Wp t r, (w0, l @ [Weak r 1]))"
    "wp_destroy ?T (Wp t r) (w0, l @ [Weak r 1]) = (?w1, ?l1)"
    using assms(1,2) by (simp_all add: wp_of_sp_def wp_destroy_def)
  have hit: "find_iter (Wp t r) reg \<noteq> length reg" "snd (reg ! find_iter (Wp t r) reg) = e"
    using assms(3) by (auto simp: map_lookup_def Let_def split: if_splits)
  have own: "sp_assign ?T nullptr ?i (?w1, ?l1) = (?i, ?x2)"
    by (simp add: sp_assign_def Let_def)
  obtain w2 l2 where x2: "?x2 = (w2, l2)" by (rule prod.exhaust)
  have l2: "l2 = ?l1 @ emit (?i \<noteq> nullptr) [Strong ?i 1]"
    using x2 by (auto simp: emit_def split: if_splits)
  obtain hd rs rr w3 l3 where body: "(case handle_pre ?T ?i t c q rp f (w2, l2) of
      (PreReturn b res r, x) \<Rightarrow> (b, res, r, x)
    | (PreForward m, x) \<Rightarrow> (let (res, r, x) = transact ?T t c m rp f x
         in handle_post ?T ?i t c q r f res x)) = (hd, rs, rr, (w3, l3))"
    by (rule prod_cases5)
  have fin: "sp_destroy ?T ?i (w3, l3) = (w', l') \<and> hd = handled"
    using assms(4) hit by (simp add: handleInterceptedTransaction_def key own x2 body)
  from handle_body_trace [OF assms(1) body] obtain pre fwd post where
    tr: "l3 = l2 @ [Strong t 1] @ conversion t @ [Strong t (-1)] @ emit pre [Called ?i kPreTransact] @
      emit fwd (Called t c # conversion t) @ emit post [Called ?i kPostTransact]"
    "decisions_ok pre fwd post hd"
    "fwd \<longleftrightarrow> (\<exists>m. fst (handle_pre ?T ?i t c q rp f (w2, l2)) = PreForward m)"
    "fwd \<longrightarrow> hd \<longrightarrow> (\<exists>r res x. fst (handle_post ?T ?i t c q r f res x))" by blast
  then have "l' = l @ handler_trace t r ?i c pre fwd post"
    using fin l2 by (simp add: sp_destroy_traced handler_trace_def emit_def split: if_splits)
  then show ?thesis using tr(2-4) fin by blast
qed

lemma handle_result_assigned:
  "handleInterceptedTransaction L reg t c q r f w = (True, res, r', w') \<Longrightarrow> \<exists>v. res = Some v"
  by (auto simp: handleInterceptedTransaction_def handle_pre_def handle_post_def Let_def
      split: prod.splits if_splits option.splits pre_outcome.splits)

lemma stub_dispatch:
  assumes "t \<noteq> nullptr"
    and "attemptIncStrong L r (decWeak L r (incWeak L r w)) = (True, w1)" and "obj r = t"
    and "handleInterceptedTransaction (traced L obj) reg t c q rp f
           (incStrong L t w1, l @ [Weak r 1, Weak r (-1), Strong t 1, Strong t 1]) =
         (handled, res, r1, (w2, l2))"
    and "stub_onTransact (traced L obj) reg g (\<lparr>ti_code = c, ti_target = Wp t r\<rparr> # rest) q rp f (w, l) =
         (s, r', queue', (w', l'))"
  shows "queue' = rest \<and>
    l' = l2 @ [Strong t (-1)] @ emit (\<not> handled) [Called t c] @ [Strong t (-1), Weak r (-1)]"
proof -
  let ?T = "traced L obj"
  have target: "\<not> wp_eq_ptr (Wp t r) nullptr" using assms(1) by (simp add: wp_eq_ptr_def)
  have weak: "wp_copy ?T (Wp t r) (w, l) = (Wp t r, (incWeak L r w, l @ [Weak r 1]))"
    "wp_destroy ?T (Wp t r) (v, k) = (decWeak L r v, k @ [Weak r (-1)])" for v k
    using assms(1) by (simp_all add: wp_copy_def wp_destroy_def)
  have promoted: "wp_promote ?T (Wp t r) (decWeak L r (incWeak L r w), k) = (t, (w1, k @ [Strong t 1]))"
    for k using assms(1-3) by (simp add: wp_promote_def sp_set_pointer_def)
  have strong: "sp_copy ?T t (v, k) = (t, (incStrong L t v, k @ [Strong t 1]))"
    "sp_destroy ?T t (v, k) = (decStrong L t v, k @ [Strong t (-1)])" for v k
    using assms(1) by (simp_all add: sp_copy_def sp_destroy_def)
  obtain s3 r3 w3 where tr: "transact L t c q r1 f (decStrong L t w2) = (s3, r3, w3)"
    by (rule prod_cases3)
  note step = stub_onTransact_def target weak promoted strong transact_traced assms(1,4) tr
  show ?thesis
  proof (cases handled)
    case True
    with assms(4) obtain v where "res = Some v" by (auto dest: handle_result_assigned)
    then show ?thesis using assms(5) True by (simp add: step emit_def)
  next
    case False
    then show ?thesis using assms(5) by (auto simp add: step emit_def)
  qed
qed

lemma stub_trace_shape:
  assumes "t \<noteq> nullptr"
    and "attemptIncStrong L r (decWeak L r (incWeak L r w)) = (True, w1)" and "obj r = t"
    and "createWeak L t (incStrong L t w1) = (r, w0)" and "map_lookup (Wp t r) reg = Some e"
    and "stub_onTransact (traced L obj) reg g (\<lparr>ti_code = c, ti_target = Wp t r\<rparr> # rest) q rp f (w, l) =
         (s, r', queue', (w', l'))"
  shows "\<exists>pre fwd post handled. queue' = rest \<and> decisions_ok pre fwd post handled \<and>
    l' = l @ stub_trace t r (reg_interceptor_binder e) c pre fwd post handled \<and>
    ((\<forall>x. \<exists>m. fst (handle_pre (traced L obj) (reg_interceptor_binder e) t c q rp f x) = PreForward m) \<longrightarrow> fwd) \<and>
    (fwd \<longrightarrow> handled \<longrightarrow> (\<exists>r res x. fst (handle_post (traced L obj) (reg_interceptor_binder e) t c q r f res x)))"
proof -
  let ?l1 = "l @ [Weak r 1, Weak r (-1), Strong t 1, Strong t 1]"
  obtain handled res r1 w2 l2 where
    h: "handleInterceptedTransaction (traced L obj) reg t c q rp f (incStrong L t w1, ?l1) =
      (handled, res, r1, (w2, l2))" by (rule prod_cases5)
  from handler_trace_shape [OF assms(1,4,5) h] obtain pre fwd post where
    "l2 = ?l1 @ handler_trace t r (reg_interceptor_binder e) c pre fwd post"
    "decisions_ok pre fwd post handled"
    "(\<forall>x. \<exists>m. fst (handle_pre (traced L obj) (reg_interceptor_binder e) t c q rp f x) = PreForward m) \<longrightarrow> fwd"
    "fwd \<longrightarrow> handled \<longrightarrow> (\<exists>r res x. fst (handle_post (traced L obj) (reg_interceptor_binder e) t c q r f res x))"
    by blast
  with stub_dispatch [where obj = obj, OF assms(1,2,3) h assms(6)] show ?thesis
    by (intro exI [of _ pre] exI [of _ fwd] exI [of _ post] exI [of _ handled])
       (simp add: stub_trace_def)
qed

lemma stub_trace_effects:
  assumes "t \<noteq> nullptr" "i \<noteq> nullptr"
  shows "calls_held (stub_trace t r i c pre fwd post handled)"
    and "strong_net (stub_trace t r i c pre fwd post handled) p = 0"
    and "weak_net (stub_trace t r i c pre fwd post handled) q = (if q = r then -1 else 0)"
  using assms by (auto simp: trace_defs)

lemma stub_trace_calls:
  "i \<noteq> t \<Longrightarrow> calls_to t (stub_trace t r i c pre fwd post handled) = of_bool fwd + of_bool (\<not> handled)"
  by (auto simp: trace_defs)

text \<open>Without the assumptions on the target: no path of the handler keeps or loses a reference.\<close>

lemma handler_balance:
  assumes "t \<noteq> nullptr"
    and "handleInterceptedTransaction (traced L obj) reg t c q rp f (w, l) = (handled, res, r', (w', l'))"
  shows "strong_net l' p = strong_net l p \<and> weak_net l' x = weak_net l x"
proof -
  obtain r w0 where cw: "createWeak L t w = (r, w0)" by (rule prod.exhaust)
  show ?thesis
  proof (cases "map_lookup (Wp t r) reg")
    case None
    have "l' = l @ [Weak r 1, Weak r (-1)]"
      using assms None cw by (simp add: handleInterceptedTransaction_def wp_of_sp_def wp_destroy_def
          map_lookup_def Let_def split: if_splits)
    then show ?thesis by simp
  next
    case (Some e)
    from handler_trace_shape [OF assms(1) cw Some assms(2)] obtain pre fwd post where
      "l' = l @ handler_trace t r (reg_interceptor_binder e) c pre fwd post" by blast
    then show ?thesis by (auto simp: trace_defs)
  qed
qed

lemma stub_balance:
  assumes "stub_onTransact (traced L obj) reg g (e # rest) q rp f (w, l) = (s, r', queue', (w', l'))"
    and "wp_ptr (ti_target e) \<noteq> nullptr \<Longrightarrow> obj (wp_refs (ti_target e)) = wp_ptr (ti_target e)"
  shows "queue' = rest" and "strong_net l' p = strong_net l p"
    and "weak_net l' x = weak_net l x - holds (ti_target e) x"
proof -
  obtain t r where t: "ti_target e = Wp t r" by (cases "ti_target e")
  have "queue' = rest \<and> strong_net l' p = strong_net l p \<and>
    weak_net l' x = weak_net l x - holds (ti_target e) x"
  proof (cases "t = nullptr")
    case True
    then show ?thesis using assms(1) t
      by (auto simp: stub_onTransact_def wp_copy_def wp_destroy_def wp_promote_def holds_def sp_set_pointer_def
          write_binder_def sp_copy_def sp_destroy_traced Let_def split: if_splits prod.splits)
  next
    case False
    have ob: "obj r = t" using assms(2) t False by simp
    have e: "e = \<lparr>ti_code = ti_code e, ti_target = Wp t r\<rparr>" using t by (cases e) simp
    obtain b w1 where at: "attemptIncStrong L r (decWeak L r (incWeak L r w)) = (b, w1)" by (rule prod.exhaust)
    show ?thesis
    proof (cases b)
      case True
      obtain hd rs r1 w2 l2 where h: "handleInterceptedTransaction (traced L obj) reg t (ti_code e) q rp f
           (incStrong L t w1, l @ [Weak r 1, Weak r (-1), Strong t 1, Strong t 1]) = (hd, rs, r1, (w2, l2))"
        by (rule prod_cases5)
      have "queue' = rest \<and> l' = l2 @ [Strong t (-1)] @ emit (\<not> hd) [Called t (ti_code e)] @ [Strong t (-1), Weak r (-1)]"
        using stub_dispatch [OF False _ ob h] at True assms(1) e by metis
      then show ?thesis using handler_balance [OF False h, of p x] t False
        by (auto simp: holds_def emit_def)
    next
      case fail: False
      then show ?thesis using assms(1) t False at
        by (auto simp: stub_onTransact_def wp_copy_def wp_destroy_def wp_promote_def holds_def wp_eq_ptr_def
            sp_set_pointer_def Let_def split: if_splits prod.splits)
    qed
  qed
  then show "queue' = rest" "strong_net l' p = strong_net l p"
    "weak_net l' x = weak_net l x - holds (ti_target e) x" by blast+
qed

text \<open>
  C3. A queued transaction for a live registered target runs the documented protocol: the log
  of what the stub does is the reference trace, the pre-transact call comes before the target
  and the post-transact call after it, and the target is called once for forwarding and once
  more only when the handler did not report the transaction handled.
\<close>

theorem stub_runs_protocol:
  assumes "t \<noteq> nullptr"
    and "attemptIncStrong L r (decWeak L r (incWeak L r w)) = (True, w1)" and "obj r = t"
    and "createWeak L t (incStrong L t w1) = (r, w0)" and "map_lookup (Wp t r) reg = Some e"
    and "reg_interceptor_binder e \<noteq> t"
    and "stub_onTransact (traced L obj) reg g (\<lparr>ti_code = c, ti_target = Wp t r\<rparr> # rest) q rp f (w, l) =
         (s, r', queue', (w', l'))"
  shows "\<exists>pre fwd post handled. queue' = rest \<and> decisions_ok pre fwd post handled \<and>
    l' = l @ stub_trace t r (reg_interceptor_binder e) c pre fwd post handled \<and>
    calls_to t l' = calls_to t l + of_bool fwd + of_bool (\<not> handled)"
proof -
  from stub_trace_shape [OF assms(1-5,7)] obtain pre fwd post handled where
    "queue' = rest" "decisions_ok pre fwd post handled"
    "l' = l @ stub_trace t r (reg_interceptor_binder e) c pre fwd post handled" by blast
  then show ?thesis
    by (intro exI [of _ pre] exI [of _ fwd] exI [of _ post] exI [of _ handled])
       (simp add: stub_trace_calls [OF assms(6)])
qed

text \<open>
  The stub never calls an object it does not hold a strong reference to, releases every
  strong reference it takes, and gives back exactly the weak reference the queue held on the
  target.
\<close>

lemma stub_holds_and_releases:
  assumes "t \<noteq> nullptr"
    and "attemptIncStrong L r (decWeak L r (incWeak L r w)) = (True, w1)" and "obj r = t"
    and "createWeak L t (incStrong L t w1) = (r, w0)" and "map_lookup (Wp t r) reg = Some e"
    and "reg_interceptor_binder e \<noteq> nullptr"
    and "stub_onTransact (traced L obj) reg g (\<lparr>ti_code = c, ti_target = Wp t r\<rparr> # rest) q rp f (w, l) =
         (s, r', queue', (w', l'))"
  shows "\<exists>es. l' = l @ es \<and> calls_held es \<and> (\<forall>p. strong_net es p = 0) \<and>
    (\<forall>q. weak_net es q = (if q = r then -1 else 0))"
proof -
  from stub_trace_shape [OF assms(1-5,7)] obtain pre fwd post handled where
    "l' = l @ stub_trace t r (reg_interceptor_binder e) c pre fwd post handled" by blast
  then show ?thesis
    by (intro exI [of _ "stub_trace t r (reg_interceptor_binder e) c pre fwd post handled"])
       (simp add: stub_trace_effects [OF assms(1,6)])
qed

section \<open>The protocol on a concrete library\<close>

text \<open>
  The object at 16 is registered with the interceptor at 64 for every code; the interceptor
  answers pre-transact with \<open>a\<close> and post-transact with \<open>b\<close>, the target answers 1.
\<close>

definition sample_script :: "u32 \<Rightarrow> u32 \<Rightarrow> ptr \<Rightarrow> u32 \<Rightarrow> status_t \<times> pitem list" where
  "sample_script a b o' c =
     (status_of OK, [PI32 (if o' = 16 then 1 else if c = kPreTransact then a else b)])"

definition sample_registry :: registry where
  "sample_registry = [(Wp 16 24,
     \<lparr>reg_target_binder = Wp 16 24, reg_interceptor_binder = 64, reg_codes = []\<rparr>)]"

definition sample_run :: "u32 \<Rightarrow> u32 \<Rightarrow> status_t \<times> lparcel option \<times> txn_info list \<times> counters \<times> event_log" where
  "sample_run a b = stub_onTransact (traced (list_lib (sample_script a b)) (\<lambda>r. r - 8)) sample_registry
     32 [\<lparr>ti_code = 7, ti_target = Wp 16 24\<rparr>] ([], 0) (Some ([], 0)) 0 (live_world, [])"

lemma sample_world:
  "attemptIncStrong (list_lib sc) 24 (decWeak (list_lib sc) 24 (incWeak (list_lib sc) 24 live_world)) =
    (True, (\<lambda>_. 1)(16 := 2), \<lambda>_. 1)"
  "createWeak (list_lib sc) 16 (incStrong (list_lib sc) 16 ((\<lambda>_. 1)(16 := 2), \<lambda>_. 1)) =
    (24, (\<lambda>_. 1)(16 := 3), (\<lambda>_. 1)(24 := 2))"
  by (auto simp: list_lib_simps)

lemma sample_lookup: "map_lookup (Wp 16 24) sample_registry =
    Some \<lparr>reg_target_binder = Wp 16 24, reg_interceptor_binder = 64, reg_codes = []\<rparr>"
  by (simp add: sample_registry_def map_lookup_def find_iter_def Let_def)

theorem stub_runs_protocol_witness:
  "\<exists>pre fwd post handled. decisions_ok pre fwd post handled \<and>
     snd (snd (snd (snd (sample_run 2 2)))) = stub_trace 16 24 64 7 pre fwd post handled"
proof -
  obtain s r' q' w' l' where run: "sample_run 2 2 = (s, r', q', (w', l'))" by (rule prod_cases5)
  from stub_runs_protocol [OF _ sample_world(1) _ sample_world(2) sample_lookup _ run [unfolded sample_run_def]]
  show ?thesis unfolding run by auto
qed

lemma stub_holds_and_releases_witness:
  "calls_held (snd (snd (snd (snd (sample_run 2 2)))))"
proof -
  obtain s r' q' w' l' where run: "sample_run 2 2 = (s, r', q', (w', l'))" by (rule prod_cases5)
  from stub_holds_and_releases [OF _ sample_world(1) _ sample_world(2) sample_lookup _ run [unfolded sample_run_def]]
  show ?thesis unfolding run by auto
qed

text \<open>
  An interceptor that lets a transaction through but whose answer to the post-transact call fails
  or is no action makes the stub call the target twice with the same transaction: the handler
  reports the transaction as not handled although the target has executed it.
\<close>

definition post_answer_fails :: "('w, 'p, 'x) libbinder_ops_scheme \<Rightarrow> ptr \<Rightarrow> bool" where
  "post_answer_fails L i \<longleftrightarrow> (\<forall>d w. case transactReply L i kPostTransact d (newParcel L) 0 w of
     (s, answer, w') \<Rightarrow> is_ok s \<longrightarrow> \<not> is_ok (fst (validateInterceptorResponse L answer)))"

lemma unreported:
  assumes "post_answer_fails L i"
  shows "\<not> fst (handle_post (traced L obj) i t c q r f res x)"
proof -
  have v: "validateInterceptorResponse (traced L obj) d = validateInterceptorResponse L d" for d
    by (simp add: validateInterceptorResponse_def)
  have "\<not> is_ok st"
    if "transactReply L i kPostTransact d (newParcel L) 0 y = (st0, ans, y')" "is_ok st0"
      "validateInterceptorResponse L ans = (st, a, p)" for d y st0 ans y' st a p
    using assms [unfolded post_answer_fails_def, THEN spec [of _ d], THEN spec [of _ y]] that by simp
  then show ?thesis by (auto simp: handle_post_def v Let_def split: prod.splits)
qed

text \<open>
  C13. A failed report repeats the transaction: when the interceptor lets a transaction through and
  its answer to the post-transact call fails, for whatever reason, the target, which has executed
  the transaction, is called a second time.
\<close>

theorem post_failure_repeats_target:
  assumes "t \<noteq> nullptr"
    and "attemptIncStrong L r (decWeak L r (incWeak L r w)) = (True, w1)" and "obj r = t"
    and "createWeak L t (incStrong L t w1) = (r, w0)" and "map_lookup (Wp t r) reg = Some e"
    and "reg_interceptor_binder e \<noteq> t"
    and "\<forall>x. \<exists>m. fst (handle_pre (traced L obj) (reg_interceptor_binder e) t c q rp f x) = PreForward m"
    and "post_answer_fails L (reg_interceptor_binder e)"
    and "stub_onTransact (traced L obj) reg g (\<lparr>ti_code = c, ti_target = Wp t r\<rparr> # rest) q rp f (w, l) =
         (s, r', queue', (w', l'))"
  shows "calls_to t l' = calls_to t l + 2"
proof -
  from stub_trace_shape [OF assms(1-5,9)] obtain pre fwd post handled where
    shape: "l' = l @ stub_trace t r (reg_interceptor_binder e) c pre fwd post handled" and
    "(\<forall>x. \<exists>m. fst (handle_pre (traced L obj) (reg_interceptor_binder e) t c q rp f x) = PreForward m) \<longrightarrow> fwd"
    "fwd \<longrightarrow> handled \<longrightarrow> (\<exists>r res x. fst (handle_post (traced L obj) (reg_interceptor_binder e) t c q r f res x))"
    by blast
  then have "fwd" "\<not> handled" using assms(7) unreported [OF assms(8)] by blast+
  with shape have "l' = l @ stub_trace t r (reg_interceptor_binder e) c pre True post False" by simp
  then show ?thesis by (simp add: stub_trace_calls [OF assms(6)])
qed

theorem post_failure_repeats_target_witness:
  "calls_to 16 (snd (snd (snd (snd (sample_run 2 9))))) = 2"
proof -
  obtain s r' q' w' l' where run: "sample_run 2 9 = (s, r', q', (w', l'))" by (rule prod_cases5)
  have "\<forall>x. \<exists>m. fst (handle_pre (traced (list_lib (sample_script 2 9)) (\<lambda>r. r - 8)) 64 16 7 ([], 0) (Some ([], 0)) 0 x) =
      PreForward m"
    by (simp add: handle_pre_def writeInterceptorCallData_def write_binder_def validateInterceptorResponse_def
        list_lib_simps if_ok_Pair sample_script_def intercept_constants sp_copy_def sp_destroy_def)
  moreover have "post_answer_fails (list_lib (sample_script 2 9)) 64"
    by (simp add: post_answer_fails_def validateInterceptorResponse_def list_lib_simps sample_script_def intercept_constants)
  ultimately show ?thesis
    using post_failure_repeats_target [OF _ sample_world(1) _ sample_world(2) sample_lookup _ _ _ run [unfolded sample_run_def]]
    unfolding run by simp
qed

end
