(* ===== verification/Hook_Props.thy ===== *)
theory Hook_Props
  imports Ioctl_Hook Interceptor_Refs
begin

text \<open>
  Correctness of the \<open>ioctl\<close> hook: it writes only inside the read buffer; its walk over the
  buffer is the walk over the list of commands the bytes encode; the early exit is an
  optimisation; it redirects exactly the transactions that are to be intercepted; and the
  references it takes are those the thread's queue holds.
\<close>

section \<open>Memory effects\<close>

lemma redirect_write:
  "redirect_in_place L stub a m w =
     mem_write m a (enc64 (getWeakRefs L stub w) @ enc64 stub @ enc32 kBackdoorCode)"
  by (simp add: redirect_in_place_def mem_write_append)

text \<open>The redirected transaction as a structure.\<close>

definition redirect_td ::
  "('w, 'p, 'x) libbinder_ops_scheme \<Rightarrow> ptr \<Rightarrow> binder_transaction_data \<Rightarrow> 'w \<Rightarrow> binder_transaction_data" where
  "redirect_td L stub td w =
     td\<lparr>td_target := getWeakRefs L stub w, td_cookie := stub, td_code := kBackdoorCode\<rparr>"

lemma enc_redirect_td:
  assumes "length bs = 64"
  shows "enc_td (redirect_td L stub (dec_td bs) w) =
    (enc64 (getWeakRefs L stub w) @ enc64 stub @ enc32 kBackdoorCode) @ drop 20 bs"
proof -
  have "drop 20 (enc_td (redirect_td L stub (dec_td bs) w)) = drop 20 (enc_td (dec_td bs))"
    by (simp add: redirect_td_def enc_td_def)
  then have "drop 20 (enc_td (redirect_td L stub (dec_td bs) w)) = drop 20 bs"
    by (simp add: enc_dec_td assms)
  moreover have "take 20 (enc_td (redirect_td L stub (dec_td bs) w)) =
      enc64 (getWeakRefs L stub w) @ enc64 stub @ enc32 kBackdoorCode"
    by (simp add: redirect_td_def enc_td_def)
  ultimately show ?thesis by (metis append_take_drop_id)
qed

lemma process_transaction_outside:
  assumes "processBinderTransaction L reg stub a (m, q, w) = (b, (m', q', w'))"
    and "\<not> in_region x a 64"
  shows "m' x = m x"
proof -
  have "\<not> in_region x a 20" using assms(2) by (simp add: in_region_def)
  then show ?thesis using assms(1)
    by (auto simp: processBinderTransaction_def Let_def redirect_write mem_write_outside
        split: prod.splits option.splits if_splits)
qed

lemma transaction_size: "is_transaction c \<Longrightarrow> 64 \<le> unat (IOC_SIZE c)"
  using br_size_field [of BR_TRANSACTION] br_size_field [of BR_TRANSACTION_SEC_CTX]
  by (auto simp: arg_size_def sizeof_uapi simp del: br_code.simps)

lemma loop_unfold:
  fixes r :: u64
  assumes "4 \<le> r" and "c = dec32 (mem_read (fst s) b 4)" and "n = unat (IOC_SIZE c)"
  shows "process_commands L reg stub b r s =
    (if unat r < 4 + n then s
     else process_commands L reg stub (b + of_nat (4 + n)) (r - of_nat (4 + n))
       (if is_transaction c then snd (processBinderTransaction L reg stub (b + 4) s) else s))"
proof -
  have sz: "(ucast (IOC_SIZE c) :: u64) = of_nat n" by (simp add: assms(3))
  have n: "n < 2 ^ 32" using unsigned_less [of "IOC_SIZE c", where ?'a = nat] by (simp add: assms(3))
  have "unat (r - 4) = unat r - 4" using assms(1) by (simp add: unat_sub)
  moreover have "4 \<le> unat r" using assms(1) by (simp add: word_le_nat_alt)
  moreover have "unat (of_nat n :: u64) = n" using n by (intro unat_of_nat64) simp
  ultimately have lt: "r - 4 < of_nat n \<longleftrightarrow> unat r < 4 + n"
    by (auto simp: word_less_nat_alt)
  have r: "r > 0" "\<not> r < 4" using assms(1) by (auto simp: word_less_nat_alt word_le_nat_alt)
  show ?thesis
    using r lt sz by (subst process_commands.simps) (simp add: assms(2) [symmetric] Let_def algebra_simps)
qed

lemma loop_stop:
  assumes "c = dec32 (mem_read (fst s) b 4)" and "unat r < 4 \<or> unat r < 4 + unat (IOC_SIZE c)"
  shows "process_commands L reg stub b r s = s"
proof (cases "4 \<le> r")
  case True
  then show ?thesis using loop_unfold [OF True assms(1) refl, of L reg stub] assms(2)
    by (auto simp: word_le_nat_alt)
qed (subst process_commands.simps, simp add: not_le)

text \<open>The early exit on a lone command that is no transaction returns what the loop would.\<close>

lemma early_exit:
  fixes r :: u64
  assumes "r = 4 + ucast (IOC_SIZE c)" and "c = dec32 (mem_read (fst s) b 4)" and "\<not> is_transaction c"
  shows "process_commands L reg stub b r s = s"
proof -
  have u: "(ucast (IOC_SIZE c) :: u64) = of_nat (unat (IOC_SIZE c))" by simp
  have small: "unat (IOC_SIZE c) < 2 ^ 32" using unsigned_less [of "IOC_SIZE c", where ?'a = nat] by simp
  have "unat r = 4 + unat (IOC_SIZE c)"
    using unat_of_nat64 [of "4 + unat (IOC_SIZE c)"] small by (simp add: assms(1))
  then have ge: "4 \<le> r" by (simp add: word_le_nat_alt)
  have "r - of_nat (4 + unat (IOC_SIZE c)) = 0" by (simp add: assms(1))
  moreover have "process_commands L reg stub b' 0 s = s" for b'
    by (subst process_commands.simps) simp
  moreover have "process_commands L reg stub b r s =
      process_commands L reg stub (b + of_nat (4 + unat (IOC_SIZE c))) (r - of_nat (4 + unat (IOC_SIZE c))) s"
    using loop_unfold [OF ge assms(2) refl, of L reg stub] assms(3) \<open>unat r = _\<close> by auto
  ultimately show ?thesis by simp
qed

lemma write_read_is_loop:
  "processBinderWriteRead L reg stub bwr s =
    (if bwr_read_buffer bwr = 0 \<or> bwr_read_size bwr = 0 \<or> bwr_read_consumed bwr \<le> 4 then s
     else process_commands L reg stub (bwr_read_buffer bwr) (bwr_read_consumed bwr) s)"
  using early_exit [of "bwr_read_consumed bwr" _ s "bwr_read_buffer bwr" L reg stub]
  by (auto simp: processBinderWriteRead_def Let_def)

section \<open>The commands in the buffer\<close>

text \<open>
  The read buffer as the list of its commands (code and payload) and the bytes after the last
  complete command.
\<close>

function parse_commands :: "byte list \<Rightarrow> (u32 \<times> byte list) list \<times> byte list" where
  "parse_commands bs =
     (if length bs < 4 then ([], bs)
      else let c = dec32 (take 4 bs); n = unat (IOC_SIZE c)
           in if length bs < 4 + n then ([], bs)
              else let (cs, rest) = parse_commands (drop (4 + n) bs)
                   in ((c, take n (drop 4 bs)) # cs, rest))"
  by pat_completeness auto
termination by (relation "measure length") auto

declare parse_commands.simps [simp del]

fun render_commands :: "(u32 \<times> byte list) list \<Rightarrow> byte list \<Rightarrow> byte list" where
  "render_commands [] rest = rest"
| "render_commands ((c, p) # cs) rest = enc32 c @ p @ render_commands cs rest"

lemma render_parse: "render_commands (fst (parse_commands bs)) (snd (parse_commands bs)) = bs"
proof (induction bs rule: parse_commands.induct)
  case (1 bs)
  let ?n = "unat (IOC_SIZE (dec32 (take 4 bs)))"
  show ?case
  proof (cases "length bs < 4 \<or> length bs < 4 + ?n")
    case True
    then show ?thesis by (subst (1 2) parse_commands.simps) (auto simp: Let_def)
  next
    case False
    obtain cs rest where p: "parse_commands (drop (4 + ?n) bs) = (cs, rest)" by (rule prod.exhaust)
    have "render_commands cs rest = drop (4 + ?n) bs"
      using 1 False p by auto
    moreover have "parse_commands bs = ((dec32 (take 4 bs), take ?n (drop 4 bs)) # cs, rest)"
      using False p by (subst parse_commands.simps) (simp add: Let_def)
    moreover have "bs = take 4 bs @ take ?n (drop 4 bs) @ drop (4 + ?n) bs"
      by (metis append_take_drop_id drop_drop add.commute)
    ultimately show ?thesis using False by (simp add: enc_dec32)
  qed
qed

text \<open>
  What the hook does to one command and to a list of them: a transaction to be intercepted is
  redirected and recorded in the queue, everything else passes unchanged.
\<close>

definition hook_command ::
  "('w, 'p, 'x) libbinder_ops_scheme \<Rightarrow> registry \<Rightarrow> ptr \<Rightarrow> u32 \<times> byte list \<Rightarrow> txn_info list \<times> 'w
     \<Rightarrow> (u32 \<times> byte list) \<times> txn_info list \<times> 'w" where
  "hook_command L reg stub cmd s =
     (let (c, p) = cmd; (q, w) = s; td = dec_td (take 64 p)
      in if \<not> is_transaction c \<or> td_target td = 0 then (cmd, s)
         else case decideInterception L reg td w of
           (None, w) \<Rightarrow> (cmd, (q, w))
         | (Some info, w) \<Rightarrow>
             let w' = snd (wp_copy L (ti_target info) w)
             in ((c, enc_td (redirect_td L stub td w) @ drop 64 p),
                 (q @ [info], wp_destroy L (ti_target info) w')))"

fun hook_commands ::
  "('w, 'p, 'x) libbinder_ops_scheme \<Rightarrow> registry \<Rightarrow> ptr \<Rightarrow> (u32 \<times> byte list) list \<Rightarrow> txn_info list \<times> 'w
     \<Rightarrow> (u32 \<times> byte list) list \<times> txn_info list \<times> 'w" where
  "hook_commands L reg stub [] s = ([], s)"
| "hook_commands L reg stub (cmd # cs) s =
     (let (cmd', s) = hook_command L reg stub cmd s; (cs', s) = hook_commands L reg stub cs s
      in (cmd' # cs', s))"

text \<open>One transaction in memory is one step of the specification.\<close>

lemma process_transaction_refines:
  assumes "is_transaction c" and "a \<noteq> 0" and "64 \<le> n" and "n < 2 ^ 64"
    and "processBinderTransaction L reg stub a (m, q, w) = (b, (m', q', w'))"
  shows "hook_command L reg stub (c, mem_read m a n) (q, w) = ((c, mem_read m' a n), (q', w'))"
proof -
  let ?td = "dec_td (mem_read m a 64)"
  have t: "take 64 (mem_read m a n) = mem_read m a 64" using assms(3) by (rule mem_read_take)
  have wr: "mem_read (redirect_in_place L stub a m v) a n =
      enc_td (redirect_td L stub ?td v) @ drop 64 (mem_read m a n)" for v
  proof -
    let ?f = "enc64 (getWeakRefs L stub v) @ enc64 stub @ enc32 kBackdoorCode"
    have "mem_read (redirect_in_place L stub a m v) a n = ?f @ drop 20 (mem_read m a n)"
      using mem_read_write_within [of 0 ?f n m a] assms(3,4) by (simp add: redirect_write)
    moreover have "drop 20 (mem_read m a n) = drop 20 (mem_read m a 64) @ drop 64 (mem_read m a n)"
      using mem_read_add [of m a 64 "n - 64"] assms(3) by simp
    ultimately show ?thesis by (simp add: enc_redirect_td)
  qed
  show ?thesis
  proof (cases "td_target ?td = 0")
    case True
    then have "(m', q', w') = (m, q, w)"
      using assms(2,5) by (simp add: processBinderTransaction_def)
    then show ?thesis using True by (simp add: hook_command_def t)
  next
    case False
    obtain d v where d: "decideInterception L reg ?td w = (d, v)" by (rule prod.exhaust)
    show ?thesis
    proof (cases d)
      case None
      then have "(m', q', w') = (m, q, v)"
        using assms(2,5) False d by (simp add: processBinderTransaction_def)
      then show ?thesis using assms(1) False d None by (auto simp: hook_command_def t Let_def)
    next
      case (Some info)
      then have "m' = redirect_in_place L stub a m v" "q' = q @ [info]"
        "w' = wp_destroy L (ti_target info) (snd (wp_copy L (ti_target info) v))"
        using assms(2,5) False d by (auto simp: processBinderTransaction_def Let_def wp_copy_def)
      then show ?thesis using assms(1) False d Some by (auto simp: hook_command_def t wr Let_def)
    qed
  qed
qed

text \<open>The first command of a buffer, as the loop and as the parser see it.\<close>

lemma buffer_split:
  assumes "4 + n \<le> k"
  shows "mem_read m b k =
    mem_read m b 4 @ mem_read m (b + 4) n @ mem_read m (b + of_nat (4 + n)) (k - (4 + n))"
proof -
  have "mem_read m b k = mem_read m b (4 + (n + (k - (4 + n))))" using assms by simp
  also have "\<dots> = mem_read m b 4 @ mem_read m (b + 4) (n + (k - (4 + n)))"
    by (simp only: mem_read_add of_nat_numeral)
  also have "mem_read m (b + 4) (n + (k - (4 + n))) =
      mem_read m (b + 4) n @ mem_read m (b + of_nat (4 + n)) (k - (4 + n))"
    by (simp only: mem_read_add) (simp add: algebra_simps)
  finally show ?thesis .
qed

lemma parse_buffer:
  assumes "n = unat (IOC_SIZE (dec32 (mem_read m b 4)))" and "4 + n \<le> k"
    and "parse_commands (mem_read m (b + of_nat (4 + n)) (k - (4 + n))) = (cs, rest)"
  shows "parse_commands (mem_read m b k) = ((dec32 (mem_read m b 4), mem_read m (b + 4) n) # cs, rest)"
proof -
  have t: "take 4 (mem_read m b k) = mem_read m b 4" using assms(2) by (simp add: mem_read_take)
  have d: "drop (4 + n) (mem_read m b k) = mem_read m (b + of_nat (4 + n)) (k - (4 + n))"
    using assms(2) by (rule mem_read_drop)
  have p: "take n (drop 4 (mem_read m b k)) = mem_read m (b + 4) n"
    using buffer_split [OF assms(2), of m b] by simp
  show ?thesis
    using assms(2,3) d by (subst parse_commands.simps) (simp add: t p assms(1) [symmetric] Let_def)
qed

lemma read_outside:
  assumes "\<And>x. \<not> in_region x c n \<Longrightarrow> m' x = m x" and "c = a + of_nat k" and "k + n < 2 ^ 64"
  shows "mem_read m' a k = mem_read m a k"
proof (rule mem_read_cong, rule assms(1))
  fix i assume i: "i < k"
  have e: "a + of_nat i - c = of_nat i - of_nat k" by (simp add: assms(2))
  have "unat (of_nat i - of_nat k :: u64) = 2 ^ 64 + i - k"
    using i assms(3) unat_sub_if_size [of "of_nat i :: u64" "of_nat k"]
    by (simp add: word_size unat_of_nat64)
  then show "\<not> in_region (a + of_nat i) c n"
    unfolding in_region_def e using assms(3) by simp
qed

lemma read_behind:
  assumes "\<And>x. \<not> in_region x a n \<Longrightarrow> m' x = m x" and "n + k < 2 ^ 64"
  shows "mem_read m' (a + of_nat n) k = mem_read m (a + of_nat n) k"
proof (rule mem_read_cong, rule assms(1))
  fix i assume "i < k"
  then show "\<not> in_region (a + of_nat n + of_nat i) a n"
    using not_in_region_of_nat [of n "n + i" a] assms(2) by (simp add: add.assoc)
qed

text \<open>
  One round of the loop: the command is processed as the specification says, memory changes
  only in its payload, and the loop goes on behind it.
\<close>

lemma loop_step:
  assumes "c = dec32 (mem_read m b 4)" and "n = unat (IOC_SIZE c)" and "4 + n \<le> unat r"
  obtains m1 q1 w1 where
    "process_commands L reg stub b r (m, q, w) =
       process_commands L reg stub (b + of_nat (4 + n)) (r - of_nat (4 + n)) (m1, q1, w1)"
    "\<And>x. \<not> in_region x (b + 4) n \<Longrightarrow> m1 x = m x"
    "b + 4 \<noteq> 0 \<Longrightarrow> hook_command L reg stub (c, mem_read m (b + 4) n) (q, w) =
       ((c, mem_read m1 (b + 4) n), (q1, w1))"
proof -
  have ge: "4 \<le> r" using assms(3) by (simp add: word_le_nat_alt)
  have n64: "n < 2 ^ 64" using assms(3) unat_lt_2p_64 [of r] by linarith
  note unf = loop_unfold [OF ge, of c "(m, q, w)" b n L reg stub]
  show thesis
  proof (cases "is_transaction c")
    case True
    then have n: "64 \<le> n" using transaction_size assms(2) by simp
    obtain d m1 q1 w1 where p: "processBinderTransaction L reg stub (b + 4) (m, q, w) = (d, (m1, q1, w1))"
      by (rule prod_cases4)
    show thesis
    proof (rule that)
      show "process_commands L reg stub b r (m, q, w) =
          process_commands L reg stub (b + of_nat (4 + n)) (r - of_nat (4 + n)) (m1, q1, w1)"
        using unf True assms p by simp
      show "m1 x = m x" if "\<not> in_region x (b + 4) n" for x
        using process_transaction_outside [OF p] that n by (auto simp: in_region_def)
      show "hook_command L reg stub (c, mem_read m (b + 4) n) (q, w) = ((c, mem_read m1 (b + 4) n), (q1, w1))"
        if "b + 4 \<noteq> 0" by (rule process_transaction_refines [OF True that n n64 p])
    qed
  next
    case False
    then show thesis using that [of m q w] unf assms by (simp add: hook_command_def)
  qed
qed

lemma unat_advance:
  assumes "4 + n \<le> unat (r :: u64)"
  shows "unat (r - of_nat (4 + n)) = unat r - (4 + n)"
proof -
  have "unat (of_nat (4 + n) :: u64) = 4 + n"
    using assms unat_lt_2p_64 [of r] by (intro unat_of_nat64) linarith
  then show ?thesis using assms by (simp add: unat_sub word_le_nat_alt)
qed

lemma process_commands_outside:
  "process_commands L reg stub b r (m, q, w) = (m', q', w') \<Longrightarrow> \<not> in_region x b (unat r) \<Longrightarrow> m' x = m x"
proof (induction "unat r" arbitrary: b r m q w rule: less_induct)
  case less
  define c where "c = dec32 (mem_read m b 4)"
  define n where "n = unat (IOC_SIZE c)"
  show ?case
  proof (cases "4 + n \<le> unat r")
    case False
    then show ?thesis
      using loop_stop [of c "(m, q, w)" b r L reg stub] less.prems by (auto simp: c_def n_def)
  next
    case True
    obtain m1 q1 w1 where go: "process_commands L reg stub (b + of_nat (4 + n)) (r - of_nat (4 + n))
        (m1, q1, w1) = (m', q', w')" and out: "\<not> in_region x (b + 4) n \<Longrightarrow> m1 x = m x"
      using loop_step [OF c_def n_def True, of L reg stub q w] less.prems(1) by metis
    have "\<not> in_region x (b + of_nat (4 + n)) (unat (r - of_nat (4 + n)))"
      "\<not> in_region x (b + of_nat 4) n"
      using in_region_sub [of x b "4 + n" "unat r - (4 + n)" "unat r"] in_region_sub [of x b 4 n "unat r"]
        less.prems(2) True unat_advance [OF True] by auto
    then show ?thesis using less.hyps [OF _ go] out True unat_advance [OF True] by auto
  qed
qed

lemma process_commands_refines:
  "\<lbrakk> process_commands L reg stub b r (m, q, w) = (m', q', w'); b \<noteq> 0; unat b + unat r < 2 ^ 64;
     parse_commands (mem_read m b (unat r)) = (cs, rest) \<rbrakk> \<Longrightarrow>
   \<exists>cs'. hook_commands L reg stub cs (q, w) = (cs', (q', w')) \<and>
     mem_read m' b (unat r) = render_commands cs' rest"
proof (induction "unat r" arbitrary: b r m q w cs rule: less_induct)
  case less
  define c where "c = dec32 (mem_read m b 4)"
  define n where "n = unat (IOC_SIZE c)"
  show ?case
  proof (cases "4 + n \<le> unat r")
    case False
    have "process_commands L reg stub b r (m, q, w) = (m, q, w)"
      using False by (intro loop_stop) (auto simp: c_def n_def)
    moreover have "(cs, rest) = ([], mem_read m b (unat r))"
      using less.prems(4) False mem_read_take [of 4 "unat r" m b]
      by (subst (asm) parse_commands.simps) (auto simp: c_def n_def Let_def split: if_splits)
    ultimately show ?thesis using less.prems(1) by simp
  next
    case True
    let ?b' = "b + of_nat (4 + n)" and ?r' = "r - of_nat (4 + n)"
    have ub: "unat (b + of_nat j) = unat b + j" if "j \<le> unat r" for j
      using that less.prems(3) by (simp add: unat_word_ariths(1) unat_of_nat)
    have b4: "b + 4 \<noteq> 0" "?b' \<noteq> 0" using ub [of 4] ub [of "4 + n"] True by auto
    obtain m1 q1 w1 where go: "process_commands L reg stub ?b' ?r' (m1, q1, w1) = (m', q', w')"
      and out: "\<And>x. \<not> in_region x (b + 4) n \<Longrightarrow> m1 x = m x"
      and cmd: "hook_command L reg stub (c, mem_read m (b + 4) n) (q, w) =
        ((c, mem_read m1 (b + 4) n), (q1, w1))"
      using loop_step [OF c_def n_def True, of L reg stub q w] less.prems(1) b4(1) by metis
    have lim: "4 + n + unat ?r' < 2 ^ 64" "unat ?r' = unat r - (4 + n)"
      using True unat_lt_2p_64 [of r] unat_advance [OF True] by simp_all
    have tl: "mem_read m1 ?b' (unat ?r') = mem_read m ?b' (unat ?r')"
      using read_behind [of "b + 4" n m1 m "unat ?r'"] out lim(1) by (simp add: algebra_simps)
    have hd1: "mem_read m1 b 4 = mem_read m b 4"
    proof (rule read_outside)
      show "m1 x = m x" if "\<not> in_region x (b + 4) n" for x using out that .
      show "4 + n < 2 ^ 64" using lim(1) by linarith
    qed simp
    have hd2: "mem_read m' b (4 + n) = mem_read m1 b (4 + n)"
      by (rule read_outside [OF process_commands_outside [OF go] refl lim(1)])
    obtain cs1 rest1 where p1: "parse_commands (mem_read m1 ?b' (unat ?r')) = (cs1, rest1)"
      by (rule prod.exhaust)
    have "parse_commands (mem_read m b (unat r)) = ((c, mem_read m (b + 4) n) # cs1, rest1)"
      unfolding c_def
    proof (rule parse_buffer)
      show "n = unat (IOC_SIZE (dec32 (mem_read m b 4)))" by (simp only: n_def c_def)
      show "parse_commands (mem_read m ?b' (unat r - (4 + n))) = (cs1, rest1)"
        using p1 unfolding tl unfolding lim(2) .
    qed (rule True)
    then have cs: "cs = (c, mem_read m (b + 4) n) # cs1" and "rest1 = rest"
      using less.prems(4) by simp_all
    with p1 have p2: "parse_commands (mem_read m1 ?b' (unat ?r')) = (cs1, rest)" by simp
    have lt: "unat ?r' < unat r" "unat ?b' + unat ?r' < 2 ^ 64"
      using ub [of "4 + n"] True less.prems(3) lim(2) by linarith+
    obtain cs1' where ih: "hook_commands L reg stub cs1 (q1, w1) = (cs1', (q', w'))"
      "mem_read m' ?b' (unat ?r') = render_commands cs1' rest"
      using less.hyps [OF lt(1) go b4(2) lt(2) p2] by blast
    have "mem_read m' b 4 @ mem_read m' (b + 4) n = mem_read m b 4 @ mem_read m1 (b + 4) n"
      using hd2 hd1 by (simp add: mem_read_add [of _ b 4 n])
    then have "mem_read m' b (unat r) = mem_read m b 4 @ mem_read m1 (b + 4) n @ render_commands cs1' rest"
      using buffer_split [OF True, of m' b] ih(2) by (simp only: lim(2) append_assoc [symmetric])
    then show ?thesis using cs cmd ih(1) enc_dec32 [of "mem_read m b 4"] by (auto simp: c_def)
  qed
qed

section \<open>Properties of the walk\<close>

text \<open>
  C19. The hook writes only inside the part of the read buffer that the driver filled.
\<close>

theorem hook_writes_within_buffer:
  assumes "processBinderWriteRead L reg stub bwr (m, q, w) = (m', q', w')"
    and "\<not> in_region x (bwr_read_buffer bwr) (unat (bwr_read_consumed bwr))"
  shows "m' x = m x"
  using assms process_commands_outside
  by (auto simp: write_read_is_loop split: if_splits)

text \<open>
  C2. For a buffer that does not wrap around the address space, the in-place walk is the walk
  over the list of commands the bytes encode: the new buffer holds the same commands in the
  same order with the intercepted transactions redirected, the bytes behind the last complete
  command are kept, and queue and world are those of the list walk. The early exit on a lone
  command is no exception.
\<close>

theorem hook_refines_command_list:
  assumes "bwr_read_buffer bwr \<noteq> 0" and "bwr_read_size bwr \<noteq> 0" and "4 < bwr_read_consumed bwr"
    and "unat (bwr_read_buffer bwr) + unat (bwr_read_consumed bwr) < 2 ^ 64"
    and "parse_commands (mem_read m (bwr_read_buffer bwr) (unat (bwr_read_consumed bwr))) = (cs, rest)"
    and "processBinderWriteRead L reg stub bwr (m, q, w) = (m', q', w')"
  shows "\<exists>cs'. hook_commands L reg stub cs (q, w) = (cs', (q', w')) \<and>
    mem_read m' (bwr_read_buffer bwr) (unat (bwr_read_consumed bwr)) = render_commands cs' rest"
proof (rule process_commands_refines)
  show "process_commands L reg stub (bwr_read_buffer bwr) (bwr_read_consumed bwr) (m, q, w) = (m', q', w')"
    using assms(1-3,6) by (simp add: write_read_is_loop not_le [symmetric])
qed (use assms in simp_all)

section \<open>Which transactions are redirected\<close>

text \<open>
  The interception rule as a predicate: the backdoor call of root, or a user code of a
  registered object that is still alive.
\<close>

definition to_intercept ::
  "('w, 'p, 'x) libbinder_ops_scheme \<Rightarrow> registry \<Rightarrow> binder_transaction_data \<Rightarrow> 'w \<Rightarrow> bool" where
  "to_intercept L reg td w \<longleftrightarrow>
     (if td_code td = kBackdoorCode \<and> td_sender_euid td = 0 then True
      else td_code td \<le> kMaxUserTransactionCode \<and> fst (attemptIncStrong L (td_target td) w) \<and>
        (case map_lookup (Wp (td_cookie td) (getWeakRefs L (td_cookie td)
                (snd (attemptIncStrong L (td_target td) w)))) reg of
           None \<Rightarrow> False | Some r \<Rightarrow> reg_codes r = [] \<or> td_code td \<in> set (reg_codes r)))"

lemma decide_iff:
  assumes "td_cookie td \<noteq> nullptr"
  shows "fst (decideInterception L reg td w) \<noteq> None \<longleftrightarrow> to_intercept L reg td w"
  using assms
  by (auto simp: decideInterception_def to_intercept_def Let_def wp_fromExisting_def not_le
      shouldInterceptTransaction_def wp_convert_def map_lookup_def wp_assign_ptr_def
      split: prod.splits option.splits if_splits)

lemma decide_entry:
  assumes "td_cookie td \<noteq> nullptr" and "decideInterception L reg td w = (Some info, w')"
  shows "info = (if td_code td = kBackdoorCode \<and> td_sender_euid td = 0
    then \<lparr>ti_code = kBackdoorCode, ti_target = wp_null\<rparr>
    else \<lparr>ti_code = td_code td, ti_target = Wp (td_cookie td) (getWeakRefs L (td_cookie td)
            (snd (attemptIncStrong L (td_target td) w)))\<rparr>)"
  using assms
  by (auto simp: decideInterception_def Let_def wp_fromExisting_def wp_assign_def
      shouldInterceptTransaction_def wp_assign_ptr_def wp_null_def
      split: prod.splits option.splits if_splits)

text \<open>
  C1. A transaction is redirected exactly when the interception rule holds: the backdoor code
  only for senders with effective uid 0, other codes only in the user range and only for live
  objects registered for that code. The redirected structure names the stub, keeps every other
  field, and one queue entry with the original code and target is appended; a transaction that
  is not redirected leaves memory and queue alone.
\<close>

theorem redirects_exactly:
  assumes "a \<noteq> 0" and "td = dec_td (mem_read m a 64)" and "td_target td \<noteq> 0" and "td_cookie td \<noteq> 0"
    and "processBinderTransaction L reg stub a (m, q, w) = (b, (m', q', w'))"
  shows "(b \<longleftrightarrow> to_intercept L reg td w) \<and>
    (if b then q' = q @ [if td_code td = kBackdoorCode \<and> td_sender_euid td = 0
                         then \<lparr>ti_code = kBackdoorCode, ti_target = wp_null\<rparr>
                         else \<lparr>ti_code = td_code td, ti_target = Wp (td_cookie td)
                           (getWeakRefs L (td_cookie td) (snd (attemptIncStrong L (td_target td) w)))\<rparr>] \<and>
       (\<exists>v. dec_td (mem_read m' a 64) = redirect_td L stub td v)
     else q' = q \<and> m' = m)"
proof -
  obtain d v where d: "decideInterception L reg td w = (d, v)" by (rule prod.exhaust)
  show ?thesis
  proof (cases d)
    case None
    then have "\<not> b" "q' = q" "m' = m"
      using assms(1,3,5) d by (auto simp: processBinderTransaction_def assms(2))
    then show ?thesis using decide_iff [of td L reg w] assms(4) d None by auto
  next
    case (Some info)
    then have "b" "q' = q @ [info]" and m': "m' = redirect_in_place L stub a m v"
      using assms(1,3,5) d by (auto simp: processBinderTransaction_def assms(2) Let_def wp_copy_def)
    moreover have "dec_td (mem_read m' a 64) = redirect_td L stub td v"
    proof -
      have "mem_read m' a 64 = enc_td (redirect_td L stub td v)"
        using mem_read_write_within [of 0 "enc64 (getWeakRefs L stub v) @ enc64 stub @ enc32 kBackdoorCode" 64 m a]
        by (simp add: m' redirect_write enc_redirect_td assms(2))
      then show ?thesis by (simp add: dec_enc_td)
    qed
    ultimately show ?thesis
      using decide_iff [of td L reg w] decide_entry [of td L reg w info v] assms(4) d Some by auto
  qed
qed

text \<open>
  System transactions (ping, dump, interface, shell command and the others of the binder
  protocol) are never redirected: their codes lie above the user range and none is the
  backdoor code. The user range is the range \<open>IBinder\<close> declares.
\<close>

lemma system_codes_pass:
  "kMaxUserTransactionCode = ibinder_code_value LAST_CALL_TRANSACTION \<and>
   (c \<noteq> FIRST_CALL_TRANSACTION \<and> c \<noteq> LAST_CALL_TRANSACTION \<longrightarrow> td_code td = ibinder_code_value c \<longrightarrow>
    \<not> to_intercept L reg td w)"
  by (cases c) (simp_all add: to_intercept_def pack4_def B_PACK_CHARS_def intercept_constants)

section \<open>The references the queue holds\<close>

abbreviation queue_held :: "txn_info list \<Rightarrow> ptr \<Rightarrow> int" where
  "queue_held q r \<equiv> held (map ti_target q) r"

lemma decide_refs:
  assumes "decideInterception (traced L obj) reg td (w, l) = (d, (w', l'))"
    and "obj (td_target td) = td_cookie td"
  shows "strong_net l' p = strong_net l p"
    and "weak_net l' r = weak_net l r + (case d of None \<Rightarrow> 0 | Some i \<Rightarrow> holds (ti_target i) r)"
  using assms
  by (auto simp: decideInterception_def Let_def wp_defs holds_def shouldInterceptTransaction_def
      split: prod.splits option.splits if_splits)

lemma hook_command_refs:
  assumes "hook_command (traced L obj) reg stub (c, p) (q, (w, l)) = (cmd', (q', (w', l')))"
    and "is_transaction c \<longrightarrow> td_target (dec_td (take 64 p)) \<noteq> 0 \<longrightarrow>
      obj (td_target (dec_td (take 64 p))) = td_cookie (dec_td (take 64 p))"
  shows "strong_net l' x = strong_net l x"
    and "weak_net l' r - queue_held q' r = weak_net l r - queue_held q r"
proof -
  let ?td = "dec_td (take 64 p)"
  have "strong_net l' x = strong_net l x \<and> weak_net l' r - queue_held q' r = weak_net l r - queue_held q r"
  proof (cases "is_transaction c \<and> td_target ?td \<noteq> 0")
    case False
    then show ?thesis using assms(1) by (auto simp: hook_command_def Let_def split: if_splits)
  next
    case True
    obtain d v k where d: "decideInterception (traced L obj) reg ?td (w, l) = (d, (v, k))"
      by (rule prod_cases3)
    have "obj (td_target ?td) = td_cookie ?td" using True assms(2) by blast
    note refs = decide_refs [OF d this]
    have "(q', (w', l')) = (case d of None \<Rightarrow> (q, (v, k))
        | Some i \<Rightarrow> (q @ [i], wp_destroy (traced L obj) (ti_target i) (snd (wp_copy (traced L obj) (ti_target i) (v, k)))))"
      using assms(1) True d by (auto simp: hook_command_def Let_def split: option.splits)
    then show ?thesis using refs
      by (cases d) (auto simp: wp_copy_def wp_destroy_def holds_def split: if_splits)
  qed
  then show "strong_net l' x = strong_net l x"
    and "weak_net l' r - queue_held q' r = weak_net l r - queue_held q r" by blast+
qed

text \<open>
  The driver's promise: a transaction names an object by the \<open>weakref_type\<close> and the address
  that the process registered together.
\<close>

definition driver_names_objects :: "(ptr \<Rightarrow> ptr) \<Rightarrow> (u32 \<times> byte list) list \<Rightarrow> bool" where
  "driver_names_objects obj cs \<longleftrightarrow> (\<forall>(c, p) \<in> set cs. is_transaction c \<longrightarrow>
     td_target (dec_td (take 64 p)) \<noteq> 0 \<longrightarrow> obj (td_target (dec_td (take 64 p))) = td_cookie (dec_td (take 64 p)))"

lemma hook_commands_refs:
  "hook_commands (traced L obj) reg stub cs (q, (w, l)) = (cs', (q', (w', l'))) \<Longrightarrow>
   driver_names_objects obj cs \<Longrightarrow>
   strong_net l' x = strong_net l x \<and> weak_net l' r - queue_held q' r = weak_net l r - queue_held q r"
proof (induction cs arbitrary: q w l cs')
  case (Cons cmd cs)
  obtain c p where cmd: "cmd = (c, p)" by (rule prod.exhaust)
  obtain cmd' q1 w1 l1 where h: "hook_command (traced L obj) reg stub (c, p) (q, (w, l)) = (cmd', (q1, (w1, l1)))"
    by (rule prod_cases4)
  obtain cs1 where "hook_commands (traced L obj) reg stub cs (q1, (w1, l1)) = (cs1, (q', (w', l')))"
    using Cons.prems(1) h cmd by (auto split: prod.splits)
  from Cons.IH [OF this] hook_command_refs(1) [OF h, of x] hook_command_refs(2) [OF h, of r] Cons.prems(2) cmd show ?case
    by (auto simp: driver_names_objects_def)
qed simp

text \<open>
  Processing a read buffer takes no strong reference that it does not return, and the weak
  references it keeps are exactly those of the entries it appended to the queue.
\<close>

lemma hook_conserves_references:
  assumes "bwr_read_buffer bwr \<noteq> 0" and "bwr_read_size bwr \<noteq> 0" and "4 < bwr_read_consumed bwr"
    and "unat (bwr_read_buffer bwr) + unat (bwr_read_consumed bwr) < 2 ^ 64"
    and "driver_names_objects obj
      (fst (parse_commands (mem_read m (bwr_read_buffer bwr) (unat (bwr_read_consumed bwr)))))"
    and "processBinderWriteRead (traced L obj) reg stub bwr (m, q, (w, l)) = (m', q', (w', l'))"
  shows "strong_net l' p = strong_net l p \<and>
    weak_net l' r - queue_held q' r = weak_net l r - queue_held q r"
proof -
  obtain cs rest where p: "parse_commands (mem_read m (bwr_read_buffer bwr) (unat (bwr_read_consumed bwr))) = (cs, rest)"
    by (rule prod.exhaust)
  have "process_commands (traced L obj) reg stub (bwr_read_buffer bwr) (bwr_read_consumed bwr) (m, q, (w, l)) =
      (m', q', (w', l'))"
    using assms(1-3,6) by (simp add: write_read_is_loop not_le [symmetric])
  from process_commands_refines [OF this assms(1,4) p] obtain cs' where
    "hook_commands (traced L obj) reg stub cs (q, (w, l)) = (cs', (q', (w', l')))" by blast
  from hook_commands_refs [OF this] assms(5) p show ?thesis by simp
qed

section \<open>A concrete buffer\<close>

lemma parse_render:
  "list_all (\<lambda>(c, p). length p = unat (IOC_SIZE c)) cs \<Longrightarrow> length rest < 4 \<Longrightarrow>
   parse_commands (render_commands cs rest) = (cs, rest)"
proof (induction cs)
  case Nil
  then show ?case by (subst parse_commands.simps) simp
next
  case (Cons cmd cs)
  obtain c p where "cmd = (c, p)" by (rule prod.exhaust)
  with Cons show ?case by (subst parse_commands.simps) (simp add: Let_def)
qed

text \<open>
  A read buffer at 4096 with a no-op and a transaction with code 7 from uid 10000 for the
  object at 16, which \<open>sample_registry\<close> registers.
\<close>

definition sample_td :: binder_transaction_data where
  "sample_td = \<lparr>td_target = 24, td_cookie = 16, td_code = 7, td_flags = 0, td_sender_pid = 42,
     td_sender_euid = 10000, td_data_size = 0, td_offsets_size = 0, td_buffer = 0, td_offsets = 0\<rparr>"

definition sample_commands :: "(u32 \<times> byte list) list" where
  "sample_commands = [(br_code BR_NOOP, []), (br_code BR_TRANSACTION, enc_td sample_td)]"

definition sample_memory :: mem where
  "sample_memory = mem_write (\<lambda>_. 0) 4096 (render_commands sample_commands [])"

definition sample_bwr :: binder_write_read where
  "sample_bwr = \<lparr>bwr_write_size = 0, bwr_write_consumed = 0, bwr_write_buffer = 0, bwr_read_size = 256,
     bwr_read_consumed = 72, bwr_read_buffer = 4096\<rparr>"

lemma sample_bwr_simps [simp]:
  "bwr_read_size sample_bwr = 256" "bwr_read_consumed sample_bwr = 72"
  "bwr_read_buffer sample_bwr = 4096"
  by (simp_all add: sample_bwr_def)

lemma sample_memory_read: "mem_read sample_memory 4096 72 = render_commands sample_commands []"
proof -
  have "length (render_commands sample_commands []) = 72"
    by (simp add: sample_commands_def enc_td_length)
  then show ?thesis
    using mem_read_write_same [of "render_commands sample_commands []" "\<lambda>_. 0" 4096]
    by (simp add: sample_memory_def)
qed

lemma sample_parse: "parse_commands (mem_read sample_memory 4096 72) = (sample_commands, [])"
proof -
  have "unat (IOC_SIZE (br_code BR_NOOP)) = 0" "unat (IOC_SIZE (br_code BR_TRANSACTION)) = 64"
    by (simp_all only: br_size_field) (simp_all add: arg_size_def sizeof_uapi)
  then show ?thesis unfolding sample_memory_read
    by (intro parse_render) (simp_all add: sample_commands_def enc_td_length)
qed

lemma sample_memory_td: "dec_td (mem_read sample_memory 4104 64) = sample_td"
proof -
  have "mem_read sample_memory 4104 64 = drop 8 (mem_read sample_memory 4096 72)"
    using mem_read_drop [of 8 72 sample_memory 4096] by simp
  then show ?thesis by (simp add: sample_memory_read sample_commands_def dec_enc_td)
qed

abbreviation sample_lib :: "(counters, lparcel) libbinder_ops" where
  "sample_lib \<equiv> list_lib (sample_script 2 2)"

theorem hook_writes_within_buffer_witness:
  "fst (processBinderWriteRead sample_lib sample_registry 32 sample_bwr
     (sample_memory, [], live_world)) 4168 = sample_memory 4168"
proof -
  obtain m' q' w' where r: "processBinderWriteRead sample_lib sample_registry 32 sample_bwr
     (sample_memory, [], live_world) = (m', q', w')" by (rule prod_cases3)
  have "\<not> in_region 4168 (bwr_read_buffer sample_bwr) (unat (bwr_read_consumed sample_bwr))"
    by (simp add: in_region_def)
  from hook_writes_within_buffer [OF r this] show ?thesis by (simp add: r)
qed

theorem hook_refines_command_list_witness:
  "\<exists>cs'. mem_read (fst (processBinderWriteRead sample_lib sample_registry 32 sample_bwr
     (sample_memory, [], live_world))) 4096 72 = render_commands cs' [] \<and>
     fst (hook_commands sample_lib sample_registry 32 sample_commands ([], live_world)) = cs'"
proof -
  obtain m' q' w' where r: "processBinderWriteRead sample_lib sample_registry 32 sample_bwr
     (sample_memory, [], live_world) = (m', q', w')" by (rule prod_cases3)
  have p: "parse_commands (mem_read sample_memory (bwr_read_buffer sample_bwr)
      (unat (bwr_read_consumed sample_bwr))) = (sample_commands, [])"
    using sample_parse by simp
  from hook_refines_command_list [OF _ _ _ _ p r] show ?thesis by (force simp: r)
qed

theorem redirects_exactly_witness:
  "fst (processBinderTransaction sample_lib sample_registry 32 4104 (sample_memory, [], live_world))"
proof -
  obtain b m' q' w' where r: "processBinderTransaction sample_lib sample_registry 32 4104
     (sample_memory, [], live_world) = (b, (m', q', w'))" by (rule prod_cases4)
  have "to_intercept sample_lib sample_registry sample_td live_world"
    by (simp add: to_intercept_def sample_td_def list_lib_simps sample_registry_def map_lookup_def
        find_iter_def intercept_constants)
  moreover have "td_target sample_td \<noteq> 0" "td_cookie sample_td \<noteq> 0" by (simp_all add: sample_td_def)
  ultimately show ?thesis
    using redirects_exactly [OF _ sample_memory_td [symmetric] _ _ r] by (simp add: r)
qed

lemma system_codes_pass_witness:
  "\<not> to_intercept sample_lib sample_registry
      (sample_td\<lparr>td_code := ibinder_code_value PING_TRANSACTION\<rparr>) live_world"
  using system_codes_pass [of PING_TRANSACTION "sample_td\<lparr>td_code := ibinder_code_value PING_TRANSACTION\<rparr>"
    sample_lib sample_registry live_world]
  by simp

lemma hook_conserves_references_witness:
  "case processBinderWriteRead (traced sample_lib (\<lambda>r. r - 8)) sample_registry 32 sample_bwr
     (sample_memory, [], (live_world, [])) of (m', q', (w', l')) \<Rightarrow>
       strong_net l' 16 = 0 \<and> weak_net l' 24 = queue_held q' 24"
proof -
  obtain m' q' w' l' where r: "processBinderWriteRead (traced sample_lib (\<lambda>r. r - 8)) sample_registry 32
     sample_bwr (sample_memory, [], (live_world, [])) = (m', q', (w', l'))" by (rule prod_cases4)
  have "driver_names_objects (\<lambda>r. r - 8) sample_commands"
    by (auto simp: driver_names_objects_def sample_commands_def enc_td_length dec_enc_td
        sample_td_def br_code_inject simp del: br_code.simps)
  from hook_conserves_references [OF _ _ _ _ _ r, of 16 24] this show ?thesis
    by (simp add: r sample_parse)
qed

end
