(* ===== verification/Session.thy ===== *)
theory Session
  imports Hook_Props
begin

text \<open>
  The interceptor in the process: any number of threads, each with its own queue of redirected
  transactions, and one registry. The steps are the entry points of \<open>binder_interceptor.cpp\<close>
  (a registration transaction, a read buffer processed by the \<open>ioctl\<close> hook, a transaction
  delivered to the stub) and whatever else the process does to its memory and objects, in any
  order. What holds in every reachable state is proved by rule induction: the queued targets are
  registered, the queues are delivered in order, and the references held are those of registry
  and queues.
\<close>

section \<open>Steps\<close>

record 'w session =
  ss_reg :: registry
  ss_mem :: mem
  ss_queues :: "txn_info list list"
  ss_world :: "'w \<times> event_log"

text \<open>
  What the code relies on about objects and their \<open>weakref_type\<close>: it is fixed for the life of an
  object, belongs to one object, and the driver names objects by both. As one function for every
  world it speaks of a period in which no address of a freed object is given to a new one.
\<close>

definition fixed_refs :: "('w, 'p) libbinder_ops \<Rightarrow> (ptr \<Rightarrow> ptr) \<Rightarrow> (ptr \<Rightarrow> ptr) \<Rightarrow> bool" where
  "fixed_refs L refs obj \<longleftrightarrow>
     (\<forall>p w. p \<noteq> nullptr \<longrightarrow> fst (createWeak L p w) = refs p \<and> getWeakRefs L p w = refs p \<and> obj (refs p) = p)"

definition driver_names :: "(ptr \<Rightarrow> ptr) \<Rightarrow> (u32 \<times> byte list) list \<Rightarrow> bool" where
  "driver_names refs cs \<longleftrightarrow> (\<forall>(c, p) \<in> set cs. is_transaction c \<longrightarrow> td_target (dec_td (take 64 p)) \<noteq> 0 \<longrightarrow>
     td_cookie (dec_td (take 64 p)) \<noteq> nullptr \<and>
     td_target (dec_td (take 64 p)) = refs (td_cookie (dec_td (take 64 p))))"

definition buffer_ok :: "(ptr \<Rightarrow> ptr) \<Rightarrow> binder_write_read \<Rightarrow> mem \<Rightarrow> bool" where
  "buffer_ok refs bwr m \<longleftrightarrow>
     unat (bwr_read_buffer bwr) + unat (bwr_read_consumed bwr) < 2 ^ 64 \<and>
     driver_names refs (fst (parse_commands (mem_read m (bwr_read_buffer bwr) (unat (bwr_read_consumed bwr)))))"

datatype label = Registered status_t | Redirected nat "txn_info list" | Delivered nat txn_info | Idle nat | Other

inductive session_step ::
  "('w, 'p) libbinder_ops \<Rightarrow> (ptr \<Rightarrow> ptr) \<Rightarrow> (ptr \<Rightarrow> ptr) \<Rightarrow> ptr \<Rightarrow> ptr \<Rightarrow> 'w session \<Rightarrow> label \<Rightarrow> 'w session \<Rightarrow> bool"
  for L refs obj interceptor stub where
  registered: "interceptor_onTransact (traced L obj) can_reserve (ss_reg s) code data (ss_world s) =
      Some (st, reg', x') \<Longrightarrow>
    session_step L refs obj interceptor stub s (Registered st) (s\<lparr>ss_reg := reg', ss_world := x'\<rparr>)"
| redirected: "i < length (ss_queues s) \<Longrightarrow> buffer_ok refs bwr (ss_mem s) \<Longrightarrow>
    processBinderWriteRead (traced L obj) (ss_reg s) stub bwr (ss_mem s, ss_queues s ! i, ss_world s) =
      (m', q', x') \<Longrightarrow>
    session_step L refs obj interceptor stub s (Redirected i (drop (length (ss_queues s ! i)) q'))
      (s\<lparr>ss_mem := m', ss_queues := (ss_queues s)[i := q'], ss_world := x'\<rparr>)"
| delivered: "i < length (ss_queues s) \<Longrightarrow>
    stub_onTransact (traced L obj) (ss_reg s) interceptor (ss_queues s ! i) data reply flags (ss_world s) =
      (st, reply', q', x') \<Longrightarrow>
    session_step L refs obj interceptor stub s
      (case ss_queues s ! i of [] \<Rightarrow> Idle i | e # _ \<Rightarrow> Delivered i e)
      (s\<lparr>ss_queues := (ss_queues s)[i := q'], ss_world := x'\<rparr>)"
| other: "session_step L refs obj interceptor stub s Other (s\<lparr>ss_mem := m', ss_world := (w', snd (ss_world s))\<rparr>)"

inductive session_run ::
  "('w, 'p) libbinder_ops \<Rightarrow> (ptr \<Rightarrow> ptr) \<Rightarrow> (ptr \<Rightarrow> ptr) \<Rightarrow> ptr \<Rightarrow> ptr \<Rightarrow> 'w session \<Rightarrow> label list \<Rightarrow> 'w session \<Rightarrow> bool"
  for L refs obj interceptor stub s where
  start: "session_run L refs obj interceptor stub s [] s"
| more_steps: "session_run L refs obj interceptor stub s ls s1 \<Longrightarrow> session_step L refs obj interceptor stub s1 l s2 \<Longrightarrow>
    session_run L refs obj interceptor stub s (ls @ [l]) s2"

text \<open>Every thread starts with an empty queue, and nothing is registered.\<close>

definition session_start :: "nat \<Rightarrow> mem \<Rightarrow> 'w \<Rightarrow> 'w session" where
  "session_start n m w = \<lparr>ss_reg = [], ss_mem = m, ss_queues = replicate n [], ss_world = (w, [])\<rparr>"

section \<open>What the hook appends\<close>

definition proper :: "(ptr \<Rightarrow> ptr) \<Rightarrow> wp \<Rightarrow> bool" where
  "proper refs k \<longleftrightarrow> wp_ptr k \<noteq> nullptr \<and> wp_refs k = refs (wp_ptr k)"

definition entry_ok :: "(ptr \<Rightarrow> ptr) \<Rightarrow> registry \<Rightarrow> txn_info \<Rightarrow> bool" where
  "entry_ok refs reg e \<longleftrightarrow>
     ti_target e = wp_null \<and> ti_code e = kBackdoorCode \<or>
     proper refs (ti_target e) \<and> ti_code e \<le> kMaxUserTransactionCode \<and> map_lookup (ti_target e) reg \<noteq> None"

lemma fixed_refs:
  assumes "fixed_refs L refs obj" "p \<noteq> nullptr"
  shows "fst (createWeak L p w) = refs p" "getWeakRefs L p w = refs p" "obj (refs p) = p"
  using assms unfolding fixed_refs_def by blast+

lemma decide_ok:
  assumes "fixed_refs L refs obj" "td_cookie td \<noteq> nullptr"
    and "decideInterception (traced L obj) reg td x = (Some e, x')"
  shows "entry_ok refs reg e"
proof -
  have "to_intercept (traced L obj) reg td x" using decide_iff [OF assms(2)] assms(3) by fastforce
  then show ?thesis using decide_entry [OF assms(2,3)] fixed_refs(2) [OF assms(1,2)] assms(2)
    by (auto simp: entry_ok_def to_intercept_def proper_def wp_null_def split: if_splits option.splits)
qed

lemma hook_command_appends:
  assumes "fixed_refs L refs obj" "driver_names refs [(c, p)]"
    and "hook_command (traced L obj) reg stub (c, p) (q, x) = (cmd', (q', x'))"
  shows "\<exists>es. q' = q @ es \<and> (\<forall>e \<in> set es. entry_ok refs reg e)"
proof (cases "is_transaction c \<and> td_target (dec_td (take 64 p)) \<noteq> 0")
  case True
  then have c: "td_cookie (dec_td (take 64 p)) \<noteq> nullptr" using assms(2) by (auto simp: driver_names_def)
  obtain d y where d: "decideInterception (traced L obj) reg (dec_td (take 64 p)) x = (d, y)" by (rule prod.exhaust)
  have "q' = (case d of None \<Rightarrow> q | Some e \<Rightarrow> q @ [e])"
    using assms(3) True d by (auto simp: hook_command_def Let_def split: option.splits)
  with decide_ok [OF assms(1) c] d show ?thesis by (cases d) simp_all
next
  case False
  then show ?thesis using assms(3) by (auto simp: hook_command_def Let_def split: if_splits)
qed

lemma hook_commands_append:
  "fixed_refs L refs obj \<Longrightarrow> driver_names refs cs \<Longrightarrow>
   hook_commands (traced L obj) reg stub cs (q, x) = (cs', (q', x')) \<Longrightarrow>
   \<exists>es. q' = q @ es \<and> (\<forall>e \<in> set es. entry_ok refs reg e)"
proof (induction cs arbitrary: q x cs')
  case (Cons cmd cs)
  obtain c p where cmd: "cmd = (c, p)" by (rule prod.exhaust)
  obtain cmd' q1 x1 where h: "hook_command (traced L obj) reg stub (c, p) (q, x) = (cmd', (q1, x1))"
    by (rule prod_cases3)
  obtain cs1 where r: "hook_commands (traced L obj) reg stub cs (q1, x1) = (cs1, (q', x'))"
    using Cons.prems(3) h cmd by (auto split: prod.splits)
  have "driver_names refs cs" "driver_names refs [(c, p)]" using Cons.prems(2) cmd by (auto simp: driver_names_def)
  with Cons.IH [OF Cons.prems(1) _ r] hook_command_appends [OF Cons.prems(1) _ h]
  obtain es es1 where "q' = q1 @ es1" "q1 = q @ es" "\<forall>e \<in> set es1. entry_ok refs reg e" "\<forall>e \<in> set es. entry_ok refs reg e"
    by blast
  then show ?case by (intro exI [of _ "es @ es1"]) auto
qed simp

text \<open>Processing a read buffer: what it appends, and the references it takes for that.\<close>

lemma write_read_effect:
  assumes "fixed_refs L refs obj" "buffer_ok refs bwr m"
    and "processBinderWriteRead (traced L obj) reg stub bwr (m, q, (w, l)) = (m', q', (w', l'))"
  shows "\<exists>es. q' = q @ es \<and> (\<forall>e \<in> set es. entry_ok refs reg e)"
    and "strong_net l' p = strong_net l p \<and> weak_net l' r - queue_held q' r = weak_net l r - queue_held q r"
proof -
  obtain cs rest where p: "parse_commands (mem_read m (bwr_read_buffer bwr) (unat (bwr_read_consumed bwr))) = (cs, rest)"
    by (rule prod.exhaust)
  have names: "driver_names refs cs" using assms(2) p by (simp add: buffer_ok_def)
  then have obj: "driver_names_objects obj cs"
    using fixed_refs(3) [OF assms(1)] by (force simp: driver_names_def driver_names_objects_def)
  have "(q', (w', l')) = (q, (w, l)) \<or> (\<exists>cs'. hook_commands (traced L obj) reg stub cs (q, (w, l)) = (cs', (q', (w', l'))))"
  proof (cases "bwr_read_buffer bwr = 0 \<or> bwr_read_size bwr = 0 \<or> bwr_read_consumed bwr \<le> 4")
    case True
    then show ?thesis using assms(3) by (simp add: write_read_is_loop)
  next
    case False
    then have "process_commands (traced L obj) reg stub (bwr_read_buffer bwr) (bwr_read_consumed bwr) (m, q, (w, l)) =
        (m', q', (w', l'))" using assms(3) by (simp add: write_read_is_loop)
    from process_commands_refines [OF this _ _ p] assms(2) False show ?thesis by (auto simp: buffer_ok_def)
  qed
  then consider "(q', (w', l')) = (q, (w, l))"
    | cs' where "hook_commands (traced L obj) reg stub cs (q, (w, l)) = (cs', (q', (w', l')))" by blast
  note cases = this
  show "\<exists>es. q' = q @ es \<and> (\<forall>e \<in> set es. entry_ok refs reg e)"
    by (cases rule: cases) (use hook_commands_append [OF assms(1) names] in auto)
  show "strong_net l' p = strong_net l p \<and> weak_net l' r - queue_held q' r = weak_net l r - queue_held q r"
    by (cases rule: cases) (use hook_commands_refs [OF _ obj] in \<open>simp, metis\<close>)
qed

section \<open>Registration\<close>

definition registry_ok :: "(ptr \<Rightarrow> ptr) \<Rightarrow> registry \<Rightarrow> bool" where
  "registry_ok refs reg \<longleftrightarrow> registry_inv reg \<and> (\<forall>e \<in> set reg. proper refs (fst e))"

lemma store_registration_ok:
  assumes "fixed_refs L refs obj" "registry_ok refs reg" "t \<noteq> nullptr"
    and "store_registration (traced L obj) t i codes reg x = (reg', x')"
  shows "registry_ok refs reg'" and "map_lookup k reg \<noteq> None \<Longrightarrow> map_lookup k reg' \<noteq> None"
proof -
  obtain w l where x: "x = (w, l)" by (rule prod.exhaust)
  obtain w0 where w0: "wp_of_sp (traced L obj) t x = (Wp t (refs t), w0)"
    using fixed_refs(1) [OF assms(1,3), of w] assms(3) by (cases "createWeak L t w") (auto simp: wp_of_sp_def x)
  have inj: "refs p = refs q \<Longrightarrow> p \<noteq> nullptr \<Longrightarrow> q \<noteq> nullptr \<Longrightarrow> p = q" for p q
    using fixed_refs(3) [OF assms(1)] by metis
  have u: "refs_unique (Wp t (refs t)) reg"
    using assms(2,3) inj by (auto simp: refs_unique_def registry_ok_def proper_def wp.expand)
  have inv: "registry_inv reg" using assms(2) by (simp add: registry_ok_def)
  note spec = store_registration_spec [OF inv w0 u assms(3,4)]
  have keys: "fst ` set reg' = insert (Wp t (refs t)) (fst ` set reg)"
    using spec(3) by (simp flip: dom_map_of_conv_image_fst)
  show "registry_ok refs reg'" using spec(1) keys assms(2,3)
    by (auto simp: registry_ok_def proper_def) (metis (no_types, lifting) imageE image_eqI insert_iff wp.sel fst_conv)+
  show "map_lookup k reg \<noteq> None \<Longrightarrow> map_lookup k reg' \<noteq> None" using spec(2) by simp
qed

lemma registration_ok:
  assumes "fixed_refs L refs obj" "registry_ok refs reg"
    and "interceptor_onTransact (traced L obj) cr reg code data x = Some (st, reg', x')"
  shows "registry_ok refs reg' \<and> (\<forall>k. map_lookup k reg \<noteq> None \<longrightarrow> map_lookup k reg' \<noteq> None)"
proof (cases "reg' = reg")
  case False
  then obtain t i cs y y' where "t \<noteq> nullptr" "store_registration (traced L obj) t i cs reg y = (reg', y')"
    using assms(3) by (auto simp: interceptor_onTransact_def handleRegisterInterceptor_def Let_def
        split: if_splits prod.splits option.splits)
  then show ?thesis using store_registration_ok [OF assms(1,2)] by blast
qed (use assms(2) in simp)

section \<open>Reachable states\<close>

definition session_inv :: "(ptr \<Rightarrow> ptr) \<Rightarrow> 'w session \<Rightarrow> bool" where
  "session_inv refs s \<longleftrightarrow> registry_ok refs (ss_reg s) \<and>
     (\<forall>q \<in> set (ss_queues s). \<forall>e \<in> set q. entry_ok refs (ss_reg s) e)"

definition session_balanced :: "'w session \<Rightarrow> bool" where
  "session_balanced s \<longleftrightarrow>
     (\<forall>p. strong_net (snd (ss_world s)) p = owned_sum (reg_strong p) (ss_reg s)) \<and>
     (\<forall>r. weak_net (snd (ss_world s)) r =
        owned_sum (reg_weak r) (ss_reg s) + owned_sum (\<lambda>q. queue_held q r) (ss_queues s))"

lemma entry_ok_mono:
  "entry_ok refs reg e \<Longrightarrow> \<forall>k. map_lookup k reg \<noteq> None \<longrightarrow> map_lookup k reg' \<noteq> None \<Longrightarrow> entry_ok refs reg' e"
  by (auto simp: entry_ok_def)

lemma stub_queue:
  "stub_onTransact (traced L obj) reg g q data reply flags x = (st, reply', q', x') \<Longrightarrow> q' = tl q"
  by (cases q) (auto simp: stub_onTransact_def Let_def split: prod.splits if_splits option.splits bool.splits)

lemma step_inv:
  assumes "fixed_refs L refs obj"
  shows "session_step L refs obj g stub s lb s' \<Longrightarrow> session_inv refs s \<Longrightarrow> session_inv refs s'"
proof (induction rule: session_step.induct)
  case (registered can_reserve s code data st reg' x')
  then show ?case using registration_ok [OF assms _ registered.hyps(1)] entry_ok_mono
    by (fastforce simp: session_inv_def)
next
  case (redirected i s bwr m' q' x')
  obtain w l w' l' where x: "ss_world s = (w, l)" "x' = (w', l')" by (metis prod.exhaust)
  obtain es where "q' = ss_queues s ! i @ es" "\<forall>e \<in> set es. entry_ok refs (ss_reg s) e"
    using write_read_effect(1) [OF assms redirected.hyps(2)] redirected.hyps(3) x by metis
  then have "\<forall>e \<in> set q'. entry_ok refs (ss_reg s) e"
    using redirected.prems redirected.hyps(1) by (auto simp: session_inv_def)
  then show ?case using redirected.prems set_update_subset_insert [of "ss_queues s" i q']
    by (auto simp: session_inv_def)
next
  case (delivered i s data reply flags st reply' q' x')
  then have "set q' \<subseteq> set (ss_queues s ! i)" using stub_queue [OF delivered.hyps(2)]
    by (metis list.set_sel(2) subsetI tl_Nil)
  then show ?case using delivered.prems delivered.hyps(1) set_update_subset_insert [of "ss_queues s" i q']
    by (force simp: session_inv_def)
qed (simp_all add: session_inv_def)

lemma session_step_balanced:
  assumes "fixed_refs L refs obj"
  shows "session_step L refs obj g stub s lb s' \<Longrightarrow> session_inv refs s \<Longrightarrow> session_balanced s \<Longrightarrow> session_balanced s'"
proof (induction rule: session_step.induct)
  case (registered can_reserve s code data st reg' x')
  obtain w l w' l' where x: "ss_world s = (w, l)" "x' = (w', l')" by (metis prod.exhaust)
  have "refs_kept (ss_reg s, l) (reg', l')"
    using registered.hyps x register_refs_kept [of L obj can_reserve "ss_reg s" data w l st reg' w' l']
    by (auto simp: interceptor_onTransact_def refs_kept_refl split: if_splits)
  then show ?case using registered.prems(2)
    by (simp add: session_balanced_def refs_kept_def x) (metis add_diff_cancel_left' diff_add_cancel eq_iff_diff_eq_0)
next
  case (redirected i s bwr m' q' x')
  obtain w l w' l' where x: "ss_world s = (w, l)" "x' = (w', l')" by (metis prod.exhaust)
  have k: "strong_net l' p = strong_net l p \<and> weak_net l' r - queue_held q' r = weak_net l r - queue_held (ss_queues s ! i) r"
    for p r using write_read_effect(2) [OF assms redirected.hyps(2)] redirected.hyps(3) x by metis
  have "weak_net l' r = weak_net l r - queue_held (ss_queues s ! i) r + queue_held q' r" for r
    using k [of 0 r] by simp
  then show ?case using redirected.prems(2) redirected.hyps(1) k
    by (simp add: session_balanced_def x owned_sum_update)
next
  case (delivered i s data reply flags st reply' q' x')
  obtain w l w' l' where x: "ss_world s = (w, l)" "x' = (w', l')" by (metis prod.exhaust)
  show ?case
  proof (cases "ss_queues s ! i")
    case Nil
    then have "q' = []" "x' = ss_world s" using delivered.hyps(2) by (auto simp: stub_onTransact_def)
    then show ?thesis using delivered.prems(2) delivered.hyps(1) Nil
      by (simp add: session_balanced_def owned_sum_update)
  next
    case (Cons e q)
    have "e \<in> set (ss_queues s ! i)" "ss_queues s ! i \<in> set (ss_queues s)"
      using Cons nth_mem [OF delivered.hyps(1)] by simp_all
    then have "entry_ok refs (ss_reg s) e" using delivered.prems(1) unfolding session_inv_def by blast
    then have ob: "wp_ptr (ti_target e) \<noteq> nullptr \<Longrightarrow> obj (wp_refs (ti_target e)) = wp_ptr (ti_target e)"
      using fixed_refs(3) [OF assms] by (auto simp: entry_ok_def proper_def wp_null_def)
    note b = stub_balance [OF delivered.hyps(2) [unfolded Cons x] ob]
    have "queue_held (ss_queues s ! i) r = holds (ti_target e) r + queue_held q' r" for r
      using b(1) Cons by simp
    then show ?thesis using delivered.prems(2) delivered.hyps(1) b(2,3)
      by (simp add: session_balanced_def x owned_sum_update)
  qed
next
  case (other s m' w')
  then show ?case by (simp add: session_balanced_def)
qed

lemma start_ok: "session_inv refs (session_start n m w)" "session_balanced (session_start n m w)"
proof -
  have "owned_sum (\<lambda>q. queue_held q r) (replicate n []) = 0" for r by (induction n) simp_all
  then show "session_inv refs (session_start n m w)" "session_balanced (session_start n m w)"
    by (simp_all add: session_start_def session_inv_def session_balanced_def registry_ok_def registry_inv_def
        keys_sorted_def)
qed

lemma run_ok:
  assumes "fixed_refs L refs obj"
  shows "session_run L refs obj g stub s0 ls s \<Longrightarrow> s0 = session_start n m w \<Longrightarrow> session_inv refs s \<and> session_balanced s"
proof (induction rule: session_run.induct)
  case start
  then show ?case by (simp add: start_ok)
next
  case (more_steps ls s1 l s2)
  then show ?case using step_inv [OF assms] session_step_balanced [OF assms] by blast
qed

text \<open>
  C8. In every reachable state of the process (registrations, hooked reads and deliveries by any
  number of threads in any order, with any other activity between them) each queued entry of
  each thread is the backdoor call or a user transaction for an object that is registered: an
  entry is never stale, because no operation removes a registration.
\<close>

theorem queued_targets_registered:
  assumes "fixed_refs L refs obj" and "session_run L refs obj g stub (session_start n m w) ls s"
  shows "list_all (list_all (entry_ok refs (ss_reg s))) (ss_queues s)"
  using run_ok [OF assms refl] by (simp add: session_inv_def list_all_iff)

text \<open>
  In every reachable state the references the interceptor has taken and not returned are
  exactly those its data hold: one strong reference per registered interceptor, two weak
  references per registered target and one per queued transaction.
\<close>

lemma session_conserves_references:
  assumes "fixed_refs L refs obj" and "session_run L refs obj g stub (session_start n m w) ls s"
  shows "strong_net (snd (ss_world s)) p = owned_sum (reg_strong p) (ss_reg s) \<and>
    weak_net (snd (ss_world s)) r =
      owned_sum (reg_weak r) (ss_reg s) + owned_sum (\<lambda>q. queue_held q r) (ss_queues s)"
  using run_ok [OF assms refl] by (simp_all add: session_balanced_def)

section \<open>Order of delivery\<close>

fun redirected_to :: "nat \<Rightarrow> label list \<Rightarrow> txn_info list" where
  "redirected_to i [] = []"
| "redirected_to i (Redirected j es # ls) = (if i = j then es else []) @ redirected_to i ls"
| "redirected_to i (l # ls) = redirected_to i ls"

fun delivered_to :: "nat \<Rightarrow> label list \<Rightarrow> txn_info list" where
  "delivered_to i [] = []"
| "delivered_to i (Delivered j e # ls) = (if i = j then [e] else []) @ delivered_to i ls"
| "delivered_to i (l # ls) = delivered_to i ls"

lemma redirected_to_append [simp]: "redirected_to i (ls @ ks) = redirected_to i ls @ redirected_to i ks"
  by (induction i ls rule: redirected_to.induct) auto

lemma delivered_to_append [simp]: "delivered_to i (ls @ ks) = delivered_to i ls @ delivered_to i ks"
  by (induction i ls rule: delivered_to.induct) auto

lemma step_queue:
  assumes "fixed_refs L refs obj"
  shows "session_step L refs obj g stub s lb s' \<Longrightarrow> i < length (ss_queues s) \<Longrightarrow>
    length (ss_queues s') = length (ss_queues s) \<and>
    ss_queues s ! i @ redirected_to i [lb] = delivered_to i [lb] @ ss_queues s' ! i"
proof (induction rule: session_step.induct)
  case (redirected j s bwr m' q' x')
  obtain w l w' l' where x: "ss_world s = (w, l)" "x' = (w', l')" by (metis prod.exhaust)
  obtain es where "q' = ss_queues s ! j @ es"
    using write_read_effect(1) [OF assms redirected.hyps(2)] redirected.hyps(3) x by metis
  then show ?case using redirected.prems by (auto simp: nth_list_update)
next
  case (delivered j s data reply flags st reply' q' x')
  then show ?case using stub_queue [OF delivered.hyps(2)]
    by (cases "ss_queues s ! j") (auto simp: nth_list_update)
qed simp_all

text \<open>
  Each thread delivers the transactions redirected on it once, in the order in which the
  driver returned them, and no other thread's: what was redirected to a thread is what it has
  delivered followed by what is still in its queue.
\<close>

lemma delivery_in_order:
  assumes "fixed_refs L refs obj" and "session_run L refs obj g stub (session_start n m w) ls s" and "i < n"
  shows "redirected_to i ls = delivered_to i ls @ ss_queues s ! i"
proof -
  have "s0 = session_start n m w \<Longrightarrow> length (ss_queues s) = n \<and> redirected_to i ls = delivered_to i ls @ ss_queues s ! i"
    if "session_run L refs obj g stub s0 ls s" for s0 using that
  proof (induction rule: session_run.induct)
    case start
    then show ?case using assms(3) by (simp add: session_start_def)
  next
    case (more_steps ls s1 l s2)
    then show ?case using step_queue [OF assms(1) more_steps.hyps(2), of i] assms(3)
      by (metis append.assoc delivered_to_append redirected_to_append)
  qed
  then show ?thesis using assms(2) by blast
qed

section \<open>A session\<close>

text \<open>
  One thread: the object at 16 is registered, the sample buffer is read, which redirects its
  transaction, and the transaction is delivered.
\<close>

abbreviation sample_traced :: "(counters \<times> event_log, lparcel) libbinder_ops" where
  "sample_traced \<equiv> traced sample_lib (\<lambda>r. r - 8)"

lemma sample_fixed: "fixed_refs sample_lib (\<lambda>p. p + 8) (\<lambda>r. r - 8)"
  by (simp add: fixed_refs_def list_lib_simps)

lemma sample_redirect:
  assumes "reg = [(Wp 16 24, \<lparr>reg_target_binder = Wp 16 24, reg_interceptor_binder = 64, reg_codes = [7, 9]\<rparr>)]"
    and "processBinderWriteRead sample_traced reg 32 sample_bwr (sample_memory, [], (live_world, l)) = (m', q', x')"
  shows "q' = [\<lparr>ti_code = 7, ti_target = Wp 16 24\<rparr>]"
proof -
  have "process_commands sample_traced reg 32 4096 72 (sample_memory, [], (live_world, l)) = (m', q', x')"
    using assms(2) by (simp add: write_read_is_loop)
  from process_commands_refines [OF this, of sample_commands "[]"] sample_parse obtain cs' where
    "hook_commands sample_traced reg 32 sample_commands ([], (live_world, l)) = (cs', (q', x'))" by auto
  then show ?thesis
    by (simp add: assms(1) sample_commands_def hook_command_def decideInterception_def list_lib_simps enc_td_length
        dec_enc_td sample_td_def br_code_inject shouldInterceptTransaction_def find_iter_def intercept_constants
        wp_fromExisting_def wp_convert_def wp_assign_def wp_copy_def wp_destroy_def wp_null_def
        del: br_code.simps split: if_splits)
qed

abbreviation sample_session :: "label list \<Rightarrow> counters session \<Rightarrow> bool" where
  "sample_session \<equiv> session_run sample_lib (\<lambda>p. p + 8) (\<lambda>r. r - 8) 48 32 (session_start 1 sample_memory live_world)"

lemma sample_buffer_ok: "buffer_ok (\<lambda>p. p + 8) sample_bwr sample_memory"
  by (auto simp: buffer_ok_def sample_parse driver_names_def sample_commands_def enc_td_length dec_enc_td
      sample_td_def br_code_inject simp del: br_code.simps)

lemma sample_session:
  obtains st s where
    "sample_session [Registered st, Other, Redirected 0 [\<lparr>ti_code = 7, ti_target = Wp 16 24\<rparr>]] s"
    "ss_queues s = [[\<lparr>ti_code = 7, ti_target = Wp 16 24\<rparr>]]" "map fst (ss_reg s) = [Wp 16 24]"
proof -
  let ?step = "session_step sample_lib (\<lambda>p. p + 8) (\<lambda>r. r - 8) 48 32"
  define s0 where "s0 = session_start 1 sample_memory live_world"
  define reg where "reg = [(Wp 16 24, \<lparr>reg_target_binder = Wp 16 24, reg_interceptor_binder = 64, reg_codes = [7, 9]\<rparr>)]"
  obtain st w1 l1 where "handleRegisterInterceptor sample_traced (\<lambda>_. True) [] sample_message (live_world, []) =
      Some (st, reg, (w1, l1))" using sample_registration unfolding reg_def by blast
  then have "interceptor_onTransact sample_traced (\<lambda>_. True) (ss_reg s0) kRegisterInterceptor sample_message
      (ss_world s0) = Some (st, reg, (w1, l1))"
    by (simp add: interceptor_onTransact_def s0_def session_start_def)
  then have 1: "?step s0 (Registered st) (s0\<lparr>ss_reg := reg, ss_world := (w1, l1)\<rparr>)" by (rule registered)
  define s2 where "s2 = s0\<lparr>ss_reg := reg, ss_world := (live_world, l1)\<rparr>"
  have 2: "?step (s0\<lparr>ss_reg := reg, ss_world := (w1, l1)\<rparr>) Other s2"
    using other [where s = "s0\<lparr>ss_reg := reg, ss_world := (w1, l1)\<rparr>" and m' = sample_memory and w' = live_world]
    by (simp add: s2_def s0_def session_start_def)
  obtain m' q' x' where p: "processBinderWriteRead sample_traced reg 32 sample_bwr (sample_memory, [], (live_world, l1)) =
      (m', q', x')" by (rule prod_cases3)
  have q': "q' = [\<lparr>ti_code = 7, ti_target = Wp 16 24\<rparr>]" by (rule sample_redirect [OF reg_def p])
  have "processBinderWriteRead sample_traced (ss_reg s2) 32 sample_bwr (ss_mem s2, ss_queues s2 ! 0, ss_world s2) =
      (m', q', x')" "buffer_ok (\<lambda>p. p + 8) sample_bwr (ss_mem s2)" "0 < length (ss_queues s2)"
    using p sample_buffer_ok by (simp_all add: s2_def s0_def session_start_def)
  from redirected [OF this(3,2,1)]
  have 3: "?step s2 (Redirected 0 q') (s2\<lparr>ss_mem := m', ss_queues := [q'], ss_world := x'\<rparr>)"
    by (simp add: s2_def s0_def session_start_def)
  have "sample_session (([] @ [Registered st]) @ [Other]) s2"
    unfolding s0_def [symmetric] by (rule more_steps [OF more_steps [OF start 1] 2])
  from more_steps [OF this 3] show thesis
    by (intro that [of st "s2\<lparr>ss_mem := m', ss_queues := [q'], ss_world := x'\<rparr>"])
      (simp_all add: q' s2_def reg_def)
qed

theorem queued_targets_registered_witness:
  "\<exists>ls s. sample_session ls s \<and> ss_queues s = [[\<lparr>ti_code = 7, ti_target = Wp 16 24\<rparr>]] \<and>
     map_lookup (Wp 16 24) (ss_reg s) \<noteq> None"
proof -
  obtain st s where s: "sample_session [Registered st, Other, Redirected 0 [\<lparr>ti_code = 7, ti_target = Wp 16 24\<rparr>]] s"
    "ss_queues s = [[\<lparr>ti_code = 7, ti_target = Wp 16 24\<rparr>]]" by (rule sample_session)
  from queued_targets_registered [OF sample_fixed s(1)] s show ?thesis
    by (auto simp: entry_ok_def wp_null_def)
qed

lemma session_conserves_references_witness:
  "\<exists>ls s. sample_session ls s \<and> weak_net (snd (ss_world s)) 24 = 3"
proof -
  obtain st s where s: "sample_session [Registered st, Other, Redirected 0 [\<lparr>ti_code = 7, ti_target = Wp 16 24\<rparr>]] s"
    "ss_queues s = [[\<lparr>ti_code = 7, ti_target = Wp 16 24\<rparr>]]" "map fst (ss_reg s) = [Wp 16 24]"
    by (rule sample_session)
  have inv: "registry_inv (ss_reg s)" using run_ok [OF sample_fixed s(1) refl]
    by (simp add: session_inv_def registry_ok_def)
  obtain r where "ss_reg s = [(Wp 16 24, r)]" "reg_target_binder r = Wp 16 24"
    using s(3) inv by (cases "ss_reg s") (auto simp: registry_inv_def)
  with session_conserves_references [OF sample_fixed s(1), of 64 24] s show ?thesis
    by (auto simp: reg_weak_def holds_def)
qed

lemma delivery_in_order_witness:
  "\<exists>ls s. sample_session ls s \<and> delivered_to 0 ls = [\<lparr>ti_code = 7, ti_target = Wp 16 24\<rparr>] \<and> ss_queues s ! 0 = []"
proof -
  obtain st s where s: "sample_session [Registered st, Other, Redirected 0 [\<lparr>ti_code = 7, ti_target = Wp 16 24\<rparr>]] s"
    "ss_queues s = [[\<lparr>ti_code = 7, ti_target = Wp 16 24\<rparr>]]" by (rule sample_session)
  obtain st2 r' q' x' where d: "stub_onTransact sample_traced (ss_reg s) 48 (ss_queues s ! 0) ([], 0) None 0 (ss_world s) =
      (st2, r', q', x')" by (rule prod_cases4)
  have q': "q' = []" using stub_queue [OF d] s(2) by simp
  have "0 < length (ss_queues s)" using s(2) by simp
  from more_steps [OF s(1) delivered [OF this d]]
  have r: "sample_session ([Registered st, Other, Redirected 0 [\<lparr>ti_code = 7, ti_target = Wp 16 24\<rparr>]] @
      [Delivered 0 \<lparr>ti_code = 7, ti_target = Wp 16 24\<rparr>]) (s\<lparr>ss_queues := [q'], ss_world := x'\<rparr>)"
    by (simp add: s(2))
  from delivery_in_order [OF sample_fixed r, of 0] r q' show ?thesis by fastforce
qed

end
