(* ===== verification/Delivery_Steps.thy ===== *)
theory Delivery_Steps
  imports Session
begin

text \<open>
  The hook and the stub of \<open>binder_interceptor.cpp\<close> taken apart at the points where other threads,
  or a nested transaction of the same thread, can act: between two commands of a read buffer, and
  in a delivery before the registry is read and after every call to another object. The parts
  put together again are the functions of \<open>Ioctl_Hook\<close> and \<open>Interceptor\<close>. How long a delivery
  can take is bounded by the rank of its phase.
\<close>

section \<open>The walk over a read buffer\<close>

text \<open>One turn of the loop: the rest of the buffer, or \<open>None\<close> at its end.\<close>

definition walk_command ::
  "('w, 'p, 'x) libbinder_ops_scheme \<Rightarrow> registry \<Rightarrow> ptr \<Rightarrow> u64 \<Rightarrow> u64 \<Rightarrow> 'w hook_state
     \<Rightarrow> (u64 \<times> u64) option \<times> 'w hook_state" where
  "walk_command L reg stub buffer_ptr remaining_bytes s =
     (if \<not> remaining_bytes > 0 then (None, s)
      else if remaining_bytes < 4 then (None, s)
      else let command = dec32 (mem_read (fst s) buffer_ptr 4);
               buffer_ptr = buffer_ptr + 4;
               remaining_bytes = remaining_bytes - 4;
               command_size = (ucast (IOC_SIZE command) :: u64)
           in if remaining_bytes < command_size then (None, s)
           else let s = (if is_transaction command
                         then snd (processBinderTransaction L reg stub buffer_ptr s) else s)
                in (Some (buffer_ptr + command_size, remaining_bytes - command_size), s))"

text \<open>What precedes the loop: whether it is entered, and where it starts.\<close>

definition enter_walk :: "binder_write_read \<Rightarrow> mem \<Rightarrow> (u64 \<times> u64) option" where
  "enter_walk write_read_data m =
     (if bwr_read_buffer write_read_data = 0 \<or> bwr_read_size write_read_data = 0 \<or>
         bwr_read_consumed write_read_data \<le> 4 then None
      else let buffer_ptr = bwr_read_buffer write_read_data;
               remaining_bytes = bwr_read_consumed write_read_data;
               first_cmd = dec32 (mem_read m buffer_ptr 4)
           in if first_cmd \<noteq> br_code BR_TRANSACTION \<and> first_cmd \<noteq> br_code BR_TRANSACTION_SEC_CTX \<and>
                 remaining_bytes = 4 + ucast (IOC_SIZE first_cmd) then None
              else Some (buffer_ptr, remaining_bytes))"

lemma walk_in_steps:
  "processBinderWriteRead L reg stub bwr s =
     (case enter_walk bwr (fst s) of None \<Rightarrow> s | Some (b, r) \<Rightarrow> process_commands L reg stub b r s)"
  "process_commands L reg stub b r s =
     (case walk_command L reg stub b r s of
        (None, s) \<Rightarrow> s | (Some (b, r), s) \<Rightarrow> process_commands L reg stub b r s)"
  by (simp add: processBinderWriteRead_def enter_walk_def Let_def)
    (subst process_commands.simps, simp add: walk_command_def Let_def)

text \<open>One turn in numbers: it ends the walk, or passes the header and the payload of a command.\<close>

lemma walk_turn:
  fixes r :: u64
  assumes "c = dec32 (mem_read (fst s) b 4)" and "n = unat (IOC_SIZE c)"
  shows "walk_command L reg stub b r s =
    (if unat r < 4 + n then (None, s)
     else (Some (b + of_nat (4 + n), r - of_nat (4 + n)),
       if is_transaction c then snd (processBinderTransaction L reg stub (b + 4) s) else s))"
proof (cases "4 \<le> r")
  case True
  have sz: "(ucast (IOC_SIZE c) :: u64) = of_nat n" by (simp add: assms(2))
  have "n < 2 ^ 32" using unsigned_less [of "IOC_SIZE c", where ?'a = nat] by (simp add: assms(2))
  then have "unat (of_nat n :: u64) = n" by (intro unat_of_nat64) simp
  moreover have "unat (r - 4) = unat r - 4" "4 \<le> unat r" using True by (simp_all add: unat_sub word_le_nat_alt)
  ultimately have "r - 4 < of_nat n \<longleftrightarrow> unat r < 4 + n" by (auto simp: word_less_nat_alt)
  moreover have "r > 0" "\<not> r < 4" using True by (auto simp: word_less_nat_alt word_le_nat_alt)
  ultimately show ?thesis using sz by (simp add: walk_command_def assms(1) [symmetric] Let_def algebra_simps)
next
  case False
  then show ?thesis by (auto simp: walk_command_def not_le word_less_nat_alt)
qed

section \<open>A delivery\<close>

text \<open>
  The variables of \<open>BinderStub::onTransact\<close> after the target was promoted: \<open>promoted_target\<close> (its
  copy, the argument of the handler, is the same pointer), the weak pointer and the parameters.
\<close>

record 'p delivery =
  dl_target :: ptr
  dl_weak :: wp
  dl_code :: u32
  dl_data :: 'p
  dl_reply :: "'p option"
  dl_flags :: u32

text \<open>
  The points at which a delivery can be interrupted: before the registry is read, before the
  pre-transact call, before the target is called, before the post-transact call, before the
  target is called because the handler did not deal with the transaction, and before the
  pointers are released.
\<close>

datatype 'p phase =
    Looking "'p delivery" | Asking ptr "'p delivery" | Forwarding ptr 'p "'p delivery"
  | Reporting ptr status_t "'p delivery" | Falling "'p delivery" | Releasing status_t "'p delivery"

fun rank :: "'p phase \<Rightarrow> nat" where
  "rank (Looking d) = 5" | "rank (Asking i d) = 4" | "rank (Forwarding i m d) = 3"
| "rank (Reporting i s d) = 2" | "rank (Falling d) = 1" | "rank (Releasing s d) = 0"

definition release_target :: "('w, 'p, 'x) libbinder_ops_scheme \<Rightarrow> 'p delivery \<Rightarrow> 'w \<Rightarrow> 'w" where
  "release_target L d w = wp_destroy L (dl_weak d) (sp_destroy L (dl_target d) w)"

text \<open>The handler has returned: its argument is released, and the stub returns or calls the target.\<close>

definition settle ::
  "('w, 'p, 'x) libbinder_ops_scheme \<Rightarrow> bool \<Rightarrow> status_t option \<Rightarrow> 'p delivery \<Rightarrow> 'w
     \<Rightarrow> ('p phase + status_t \<times> 'p option) \<times> 'w" where
  "settle L handled result d w =
     (let w = sp_destroy L (dl_target d) w
      in case (handled, result) of
           (True, Some result) \<Rightarrow> (Inr (result, dl_reply d), release_target L d w)
         | _ \<Rightarrow> (Inl (Falling d), w))"

fun advance ::
  "('w, 'p, 'x) libbinder_ops_scheme \<Rightarrow> registry \<Rightarrow> 'p phase \<Rightarrow> 'w
     \<Rightarrow> ('p phase + status_t \<times> 'p option) \<times> 'w" where
  "advance L reg (Looking d) w =
     (let (key, w) = wp_of_sp L (dl_target d) w;
          iterator = find_iter key reg;
          w = wp_destroy L key w
      in if iterator = length reg then settle L False None d w
      else let (interceptor_binder, w) = sp_assign L nullptr (reg_interceptor_binder (snd (reg ! iterator))) w
           in (Inl (Asking interceptor_binder d), w))"
| "advance L reg (Asking interceptor_binder d) w =
     (case handle_pre L interceptor_binder (dl_target d) (dl_code d) (dl_data d) (dl_reply d) (dl_flags d) w of
        (PreReturn handled result reply, w) \<Rightarrow>
          settle L handled result (d\<lparr>dl_reply := reply\<rparr>) (sp_destroy L interceptor_binder w)
      | (PreForward modified_request_data, w) \<Rightarrow> (Inl (Forwarding interceptor_binder modified_request_data d), w))"
| "advance L reg (Forwarding interceptor_binder modified_request_data d) w =
     (let (result, reply, w) = transact L (dl_target d) (dl_code d) modified_request_data (dl_reply d) (dl_flags d) w
      in (Inl (Reporting interceptor_binder result (d\<lparr>dl_reply := reply\<rparr>)), w))"
| "advance L reg (Reporting interceptor_binder result d) w =
     (let (handled, result, reply, w) =
            handle_post L interceptor_binder (dl_target d) (dl_code d) (dl_data d) (dl_reply d) (dl_flags d) result w
      in settle L handled result (d\<lparr>dl_reply := reply\<rparr>) (sp_destroy L interceptor_binder w))"
| "advance L reg (Falling d) w =
     (let (result, reply, w) = transact L (dl_target d) (dl_code d) (dl_data d) (dl_reply d) (dl_flags d) w
      in (Inl (Releasing result (d\<lparr>dl_reply := reply\<rparr>)), w))"
| "advance L reg (Releasing result d) w = (Inr (result, dl_reply d), release_target L d w)"

definition begin_delivery ::
  "('w, 'p, 'x) libbinder_ops_scheme \<Rightarrow> ptr \<Rightarrow> txn_info list \<Rightarrow> 'p \<Rightarrow> 'p option \<Rightarrow> u32 \<Rightarrow> 'w
     \<Rightarrow> ('p phase + status_t \<times> 'p option) \<times> txn_info list \<times> 'w" where
  "begin_delivery L interceptor queue data reply flags w =
     (case queue of
        [] \<Rightarrow> (Inr (status_of UNKNOWN_TRANSACTION, reply), queue, w)
      | front # queue \<Rightarrow>
          let (target_binder, w) = wp_copy L (ti_target front) w;
              w = wp_destroy L (ti_target front) w;
              code = ti_code front
          in if wp_eq_ptr target_binder nullptr \<and> code = kBackdoorCode \<and> reply \<noteq> None
             then (let (written, w) = write_binder L interceptor (the reply) w
                   in (Inr (status_of OK, Some (snd written)), queue, wp_destroy L target_binder w))
             else let (promoted_target, w) = wp_promote L target_binder w
             in if promoted_target \<noteq> nullptr then
                  (let (arg, w) = sp_copy L promoted_target w
                   in (Inl (Looking \<lparr>dl_target = promoted_target, dl_weak = target_binder, dl_code = code,
                         dl_data = data, dl_reply = reply, dl_flags = flags\<rparr>), queue, w))
                else (Inr (status_of DEAD_OBJECT, reply), queue, wp_destroy L target_binder w))"

text \<open>Every phase is followed by one of lower rank, so a delivery has at most seven parts.\<close>

lemma settle_rank: "settle L b s d w = (Inl f, w') \<Longrightarrow> rank f = 1"
  by (auto simp: settle_def Let_def split: bool.splits option.splits)

lemma advance_rank: "advance L reg f w = (Inl f', w') \<Longrightarrow> rank f' < rank f"
  by (cases f)
     (auto simp: Let_def dest!: settle_rank split: prod.splits if_splits pre_outcome.splits)

fun resume :: "('p phase \<Rightarrow> 'w \<Rightarrow> 'r \<times> 'w) \<Rightarrow> ('p phase + 'r) \<times> 'w \<Rightarrow> 'r \<times> 'w" where
  "resume k (Inl f, w) = k f w"
| "resume k (Inr x, w) = (x, w)"

lemma resume_cong [fundef_cong]:
  "x = y \<Longrightarrow> (\<And>f w. y = (Inl f, w) \<Longrightarrow> k f w = k' f w) \<Longrightarrow> resume k x = resume k' y"
  by (cases "(k, y)" rule: resume.cases) simp_all

function run_delivery ::
  "('w, 'p, 'x) libbinder_ops_scheme \<Rightarrow> registry \<Rightarrow> 'p phase \<Rightarrow> 'w \<Rightarrow> (status_t \<times> 'p option) \<times> 'w" where
  "run_delivery L reg f w = resume (run_delivery L reg) (advance L reg f w)"
  by pat_completeness auto
termination by (relation "measure (\<lambda>(_, _, f, _). rank f)") (auto dest: advance_rank)

declare run_delivery.simps [simp del]

section \<open>The parts put together\<close>

lemma run_falling:
  "run_delivery L reg (Falling d) w =
     (case transact L (dl_target d) (dl_code d) (dl_data d) (dl_reply d) (dl_flags d) w of
        (result, reply, w) \<Rightarrow> ((result, reply), release_target L d w))"
  by (simp add: run_delivery.simps [of _ _ "Falling d"] run_delivery.simps [of _ _ "Releasing _ _"]
      release_target_def split: prod.splits)

text \<open>Once the handler has returned: the stub's own part.\<close>

definition after_handler ::
  "('w, 'p, 'x) libbinder_ops_scheme \<Rightarrow> 'p delivery \<Rightarrow> bool \<times> status_t option \<times> 'p option \<times> 'w
     \<Rightarrow> (status_t \<times> 'p option) \<times> 'w" where
  "after_handler L d h =
     (case h of (handled, result, reply, w) \<Rightarrow>
        let w = sp_destroy L (dl_target d) w
        in case (handled, result) of
             (True, Some result) \<Rightarrow> ((result, reply), release_target L d w)
           | _ \<Rightarrow> (case transact L (dl_target d) (dl_code d) (dl_data d) reply (dl_flags d) w of
                     (result, reply, w) \<Rightarrow> ((result, reply), release_target L d w)))"

lemma release_target_reply [simp]: "release_target L (d\<lparr>dl_reply := r\<rparr>) = release_target L d"
  by (simp add: release_target_def fun_eq_iff)

lemma run_settle:
  "resume (run_delivery L reg) (settle L handled result (d\<lparr>dl_reply := reply\<rparr>) w) =
     after_handler L d (handled, result, reply, w)"
  by (cases handled; cases result) (simp_all add: settle_def after_handler_def Let_def run_falling)

lemma run_unhandled:
  "resume (run_delivery L reg) (settle L False None d w) = after_handler L d (False, None, dl_reply d, w)"
  by (simp add: settle_def after_handler_def Let_def run_falling)

lemma run_reporting:
  "run_delivery L reg (Reporting i result (d\<lparr>dl_reply := reply\<rparr>)) w =
     (case handle_post L i (dl_target d) (dl_code d) (dl_data d) reply (dl_flags d) result w of
        (handled, result, reply, w) \<Rightarrow> after_handler L d (handled, result, reply, sp_destroy L i w))"
  by (simp add: run_delivery.simps [of _ _ "Reporting _ _ _"] run_settle Let_def split: prod.split)

lemma run_asking:
  "run_delivery L reg (Asking i d) w =
     (case handle_pre L i (dl_target d) (dl_code d) (dl_data d) (dl_reply d) (dl_flags d) w of
        (PreReturn handled result reply, w) \<Rightarrow> after_handler L d (handled, result, reply, sp_destroy L i w)
      | (PreForward m, w) \<Rightarrow>
          (case transact L (dl_target d) (dl_code d) m (dl_reply d) (dl_flags d) w of
             (result, reply, w) \<Rightarrow>
               (case handle_post L i (dl_target d) (dl_code d) (dl_data d) reply (dl_flags d) result w of
                  (handled, result, reply, w) \<Rightarrow> after_handler L d (handled, result, reply, sp_destroy L i w))))"
  by (simp add: run_delivery.simps [of _ _ "Asking _ _"] run_delivery.simps [of _ _ "Forwarding _ _ _"]
      run_reporting run_settle split: prod.split pre_outcome.split)

lemma run_looking:
  "run_delivery L reg (Looking d) w = after_handler L d
     (handleInterceptedTransaction L reg (dl_target d) (dl_code d) (dl_data d) (dl_reply d) (dl_flags d) w)"
  by (simp add: run_delivery.simps [of _ _ "Looking d"] run_unhandled handleInterceptedTransaction_def run_asking Let_def
      split: prod.split pre_outcome.split)

lemma delivery_parts:
  "stub_onTransact L reg g q data reply flags w =
     (case begin_delivery L g q data reply flags w of
        (Inr (status, reply), q, w) \<Rightarrow> (status, reply, q, w)
      | (Inl f, q, w) \<Rightarrow> (case run_delivery L reg f w of ((status, reply), w) \<Rightarrow> (status, reply, q, w)))"
proof (cases q)
  case (Cons e rest)
  obtain t w1 where t: "wp_copy L (ti_target e) w = (t, w1)" by (rule prod.exhaust)
  obtain p w2 where p: "wp_promote L t (wp_destroy L (ti_target e) w1) = (p, w2)" by (rule prod.exhaust)
  obtain w3 where arg: "sp_copy L p w2 = (p, w3)" by (simp add: sp_copy_def)
  obtain handled result r1 w4 where h: "handleInterceptedTransaction L reg p (ti_code e) data reply flags
      w3 = (handled, result, r1, w4)" by (rule prod_cases4)
  show ?thesis using Cons t p h arg
    by (cases reply; cases handled; cases result)
      (simp_all add: stub_onTransact_def begin_delivery_def Let_def run_looking after_handler_def release_target_def
        split: prod.split)
qed (simp add: stub_onTransact_def begin_delivery_def)

end
