(* ===== verification/Interleaving.thy ===== *)
theory Interleaving
  imports Delivery_Steps
begin

text \<open>
  The process of \<open>Session\<close> at a finer grain: the walk over a read buffer and the delivery of a
  transaction are no longer single steps. Each thread has its queue and the stack of what it is
  doing (walks and deliveries, nested when a call it makes leads to another transaction on the same
  thread), and between any two parts of these anything else may happen: other threads, nested
  transactions, registrations that replace the interceptor a delivery is about to call. The
  conservation of references and the order of delivery hold at every such point, and no object is
  called that is not strongly held at that moment.
\<close>

section \<open>Steps\<close>

datatype 'p activity = Walk u64 u64 | Deliver "'p phase"

record 'p thread =
  th_queue :: "txn_info list"
  th_stack :: "'p activity list"

record ('w, 'p) process =
  pr_reg :: registry
  pr_mem :: mem
  pr_threads :: "'p thread list"
  pr_world :: "'w \<times> event_log"

definition push :: "('p phase + 'r) \<Rightarrow> 'p activity list \<Rightarrow> 'p activity list" where
  "push out as = (case out of Inl f \<Rightarrow> Deliver f # as | Inr _ \<Rightarrow> as)"

text \<open>What the driver promises of a complete command at \<open>b\<close>, when it is reached.\<close>

definition command_ok :: "(ptr \<Rightarrow> ptr) \<Rightarrow> mem \<Rightarrow> u64 \<Rightarrow> bool" where
  "command_ok refs m b \<longleftrightarrow> driver_names refs [(dec32 (mem_read m b 4), mem_read m (b + 4) 64)]"

inductive process_step ::
  "('w, 'p) libbinder_ops \<Rightarrow> (ptr \<Rightarrow> ptr) \<Rightarrow> (ptr \<Rightarrow> ptr) \<Rightarrow> ptr \<Rightarrow> ptr \<Rightarrow> ('w, 'p) process \<Rightarrow> label
     \<Rightarrow> ('w, 'p) process \<Rightarrow> bool"
  for L refs obj interceptor stub where
  registers: "interceptor_onTransact (traced L obj) can_reserve (pr_reg s) code data (pr_world s) =
      Some (st, reg', x') \<Longrightarrow>
    process_step L refs obj interceptor stub s (Registered st) (s\<lparr>pr_reg := reg', pr_world := x'\<rparr>)"
| enters: "i < length (pr_threads s) \<Longrightarrow> pr_threads s ! i = \<lparr>th_queue = q, th_stack = as\<rparr> \<Longrightarrow>
    enter_walk bwr (pr_mem s) = Some (b, r) \<Longrightarrow>
    process_step L refs obj interceptor stub s Other
      (s\<lparr>pr_threads := (pr_threads s)[i := \<lparr>th_queue = q, th_stack = Walk b r # as\<rparr>]\<rparr>)"
| walks: "i < length (pr_threads s) \<Longrightarrow> pr_threads s ! i = \<lparr>th_queue = q, th_stack = Walk b r # as\<rparr> \<Longrightarrow>
    next \<noteq> None \<longrightarrow> command_ok refs (pr_mem s) b \<Longrightarrow>
    walk_command (traced L obj) (pr_reg s) stub b r (pr_mem s, q, pr_world s) = (next, (m', q', x')) \<Longrightarrow>
    process_step L refs obj interceptor stub s (Redirected i (drop (length q) q'))
      (s\<lparr>pr_mem := m', pr_world := x', pr_threads := (pr_threads s)[i := \<lparr>th_queue = q',
         th_stack = (case next of None \<Rightarrow> as | Some (b, r) \<Rightarrow> Walk b r # as)\<rparr>]\<rparr>)"
| begins: "i < length (pr_threads s) \<Longrightarrow> pr_threads s ! i = \<lparr>th_queue = q, th_stack = as\<rparr> \<Longrightarrow>
    begin_delivery (traced L obj) interceptor q data reply flags (pr_world s) = (out, q', x') \<Longrightarrow>
    process_step L refs obj interceptor stub s (case q of [] \<Rightarrow> Idle i | e # _ \<Rightarrow> Delivered i e)
      (s\<lparr>pr_world := x', pr_threads := (pr_threads s)[i := \<lparr>th_queue = q', th_stack = push out as\<rparr>]\<rparr>)"
| advances: "i < length (pr_threads s) \<Longrightarrow> pr_threads s ! i = \<lparr>th_queue = q, th_stack = Deliver f # as\<rparr> \<Longrightarrow>
    advance (traced L obj) (pr_reg s) f (pr_world s) = (out, x') \<Longrightarrow>
    process_step L refs obj interceptor stub s Other
      (s\<lparr>pr_world := x', pr_threads := (pr_threads s)[i := \<lparr>th_queue = q, th_stack = push out as\<rparr>]\<rparr>)"
| others: "process_step L refs obj interceptor stub s Other
    (s\<lparr>pr_mem := m', pr_world := (w', snd (pr_world s))\<rparr>)"

inductive process_run ::
  "('w, 'p) libbinder_ops \<Rightarrow> (ptr \<Rightarrow> ptr) \<Rightarrow> (ptr \<Rightarrow> ptr) \<Rightarrow> ptr \<Rightarrow> ptr \<Rightarrow> ('w, 'p) process \<Rightarrow> label list
     \<Rightarrow> ('w, 'p) process \<Rightarrow> bool"
  for L refs obj interceptor stub s where
  no_step: "process_run L refs obj interceptor stub s [] s"
| then_step: "process_run L refs obj interceptor stub s ls s1 \<Longrightarrow> process_step L refs obj interceptor stub s1 l s2 \<Longrightarrow>
    process_run L refs obj interceptor stub s (ls @ [l]) s2"

text \<open>Every thread starts with an empty queue and nothing to do, and nothing is registered.\<close>

definition process_start :: "nat \<Rightarrow> mem \<Rightarrow> 'w \<Rightarrow> ('w, 'p) process" where
  "process_start n m w = \<lparr>pr_reg = [], pr_mem = m,
     pr_threads = replicate n \<lparr>th_queue = [], th_stack = []\<rparr>, pr_world = (w, [])\<rparr>"

section \<open>What a delivery holds\<close>

fun phase_of :: "'p phase \<Rightarrow> 'p delivery" where
  "phase_of (Looking d) = d" | "phase_of (Asking i d) = d" | "phase_of (Forwarding i m d) = d"
| "phase_of (Reporting i s d) = d" | "phase_of (Falling d) = d" | "phase_of (Releasing s d) = d"

definition one :: "ptr \<Rightarrow> ptr \<Rightarrow> int" where
  "one a p = (if a = p \<and> a \<noteq> nullptr then 1 else 0)"

text \<open>
  The stub's pointer and the argument of the handler hold the target, the handler's copy the
  interceptor; after the handler only the stub's pointer is left.
\<close>

fun phase_strong :: "ptr \<Rightarrow> 'p phase \<Rightarrow> int" where
  "phase_strong p (Looking d) = 2 * one (dl_target d) p"
| "phase_strong p (Asking i d) = 2 * one (dl_target d) p + one i p"
| "phase_strong p (Forwarding i m d) = 2 * one (dl_target d) p + one i p"
| "phase_strong p (Reporting i s d) = 2 * one (dl_target d) p + one i p"
| "phase_strong p (Falling d) = one (dl_target d) p"
| "phase_strong p (Releasing s d) = one (dl_target d) p"

definition phase_weak :: "ptr \<Rightarrow> 'p phase \<Rightarrow> int" where
  "phase_weak r f = holds (dl_weak (phase_of f)) r"

text \<open>The target of a delivery is a registered object, and the weak pointer is its own.\<close>

definition phase_ok :: "(ptr \<Rightarrow> ptr) \<Rightarrow> registry \<Rightarrow> 'p phase \<Rightarrow> bool" where
  "phase_ok refs reg f \<longleftrightarrow> dl_target (phase_of f) \<noteq> nullptr \<and>
     dl_weak (phase_of f) = Wp (dl_target (phase_of f)) (refs (dl_target (phase_of f))) \<and>
     dl_code (phase_of f) \<le> kMaxUserTransactionCode \<and> map_lookup (dl_weak (phase_of f)) reg \<noteq> None"

fun out_strong :: "ptr \<Rightarrow> 'p phase + 'r \<Rightarrow> int" where
  "out_strong p (Inl f) = phase_strong p f" | "out_strong p (Inr x) = 0"

fun out_weak :: "ptr \<Rightarrow> 'p phase + 'r \<Rightarrow> int" where
  "out_weak r (Inl f) = phase_weak r f" | "out_weak r (Inr x) = 0"

fun out_ok :: "(ptr \<Rightarrow> ptr) \<Rightarrow> registry \<Rightarrow> 'p phase + 'r \<Rightarrow> bool" where
  "out_ok refs reg (Inl f) = phase_ok refs reg f" | "out_ok refs reg (Inr x) = True"

text \<open>
  Calls through a null interceptor aside (a registration may store one), a log is safe when
  every callee was strongly held when it was called.
\<close>

definition safe_log :: "event_log \<Rightarrow> bool" where
  "safe_log l \<longleftrightarrow> held_from (\<lambda>p. if p = nullptr then 1 else 0) l"

lemma safe_log_append:
  "safe_log (l @ k) \<longleftrightarrow> safe_log l \<and> held_from (\<lambda>p. (if p = nullptr then 1 else 0) + strong_net l p) k"
  by (simp add: safe_log_def held_from_append)


section \<open>The parts of a delivery\<close>

text \<open>From \<open>l\<close> to \<open>l'\<close> a delivery goes from holding \<open>s\<close> and \<open>k\<close> to holding what \<open>out\<close> does.\<close>

definition exchanges ::
  "(ptr \<Rightarrow> int) \<Rightarrow> (ptr \<Rightarrow> int) \<Rightarrow> event_log \<Rightarrow> ('p phase + 'r) \<Rightarrow> event_log \<Rightarrow> bool" where
  "exchanges s k l out l' \<longleftrightarrow>
     (\<forall>p. strong_net l' p = strong_net l p - s p + out_strong p out) \<and>
     (\<forall>r. weak_net l' r = weak_net l r - k r + out_weak r out)"

lemma release_traced:
  assumes "dl_target d \<noteq> nullptr" "wp_ptr (dl_weak d) = dl_target d"
  shows "\<exists>w'. release_target (traced L obj) d (w, l) =
    (w', l @ [Strong (dl_target d) (-1), Weak (wp_refs (dl_weak d)) (-1)])"
  using assms by (simp add: release_target_def sp_destroy_traced wp_destroy_def)

lemma leave_effect:
  assumes "settle (traced L obj) b res d (sp_destroy (traced L obj) i (w, l)) = (out, (w', l'))"
    and "dl_target d \<noteq> nullptr" "wp_ptr (dl_weak d) = dl_target d"
  shows "exchanges (\<lambda>p. 2 * one (dl_target d) p + one i p) (holds (dl_weak d)) l out l'"
    and "safe_log l' \<longleftrightarrow> safe_log l" and "out = Inl f \<Longrightarrow> f = Falling d"
  using assms
  by (auto simp: settle_def sp_destroy_traced release_target_def wp_destroy_def Let_def exchanges_def one_def holds_def
      phase_weak_def safe_log_append split: bool.splits option.splits if_splits)

text \<open>One part of a delivery, when the log accounts for at least what the delivery holds.\<close>

definition accounted :: "event_log \<Rightarrow> 'p phase \<Rightarrow> bool" where
  "accounted l f \<longleftrightarrow> safe_log l \<and> (\<forall>p. phase_strong p f \<le> strong_net l p)"

definition part_ok ::
  "(ptr \<Rightarrow> ptr) \<Rightarrow> registry \<Rightarrow> 'p phase \<Rightarrow> event_log \<Rightarrow> ('p phase + 'r) \<Rightarrow> event_log \<Rightarrow> bool" where
  "part_ok refs reg f l out l' \<longleftrightarrow>
     exchanges (\<lambda>p. phase_strong p f) (\<lambda>r. phase_weak r f) l out l' \<and> safe_log l' \<and> out_ok refs reg out"

lemmas part_defs = part_ok_def exchanges_def phase_weak_def phase_ok_def safe_log_append

text \<open>Whom a delivery may call: its target, and the interceptor it asks or reports to.\<close>

lemma may_call:
  assumes "accounted l f" "f = Asking i d \<or> f = Reporting i s d"
  shows "safe_log (l @ [Called i c])"
proof -
  have "phase_strong i f \<le> strong_net l i" "safe_log l" using assms(1) by (auto simp: accounted_def)
  then show ?thesis using assms(2) by (auto simp: safe_log_append one_def split: if_splits)
qed

lemma may_call_target:
  assumes "accounted l f" "dl_target (phase_of f) \<noteq> nullptr" "\<forall>d. f \<noteq> Releasing s d"
  shows "safe_log (l @ [Called (dl_target (phase_of f)) c])"
proof -
  have "phase_strong (dl_target (phase_of f)) f \<le> strong_net l (dl_target (phase_of f))" "safe_log l"
    using assms(1) by (auto simp: accounted_def)
  then show ?thesis using assms(2) by (cases f) (auto simp: safe_log_append one_def split: if_splits)
qed

lemma looking_effect:
  assumes "fixed_refs L refs obj" "phase_ok refs reg (Looking d)" "accounted l (Looking d)"
    and "advance (traced L obj) reg (Looking d) (w, l) = (out, (w', l'))"
  shows "part_ok refs reg (Looking d) l out l'"
    and "\<exists>e. map_lookup (dl_weak d) reg = Some e \<and> out = Inl (Asking (reg_interceptor_binder e) d)"
proof -
  have t: "dl_target d \<noteq> nullptr" and hit: "map_lookup (Wp (dl_target d) (refs (dl_target d))) reg \<noteq> None"
    using assms(2) by (auto simp: phase_ok_def)
  obtain w1 where key: "createWeak L (dl_target d) w = (refs (dl_target d), w1)"
    using fixed_refs(1) [OF assms(1) t] by (metis prod.collapse)
  have "find_iter (Wp (dl_target d) (refs (dl_target d))) reg \<noteq> length reg"
    using hit by (auto simp: map_lookup_def Let_def split: if_splits)
  then obtain i where found: "out = Inl (Asking i d)"
    "\<exists>e. map_lookup (Wp (dl_target d) (refs (dl_target d))) reg = Some e \<and> i = reg_interceptor_binder e"
    "l' = l @ [Weak (refs (dl_target d)) 1, Weak (refs (dl_target d)) (-1)] @
      emit (i \<noteq> nullptr) [Strong i 1]"
    using assms(4) t key
    by (auto simp: wp_of_sp_def wp_destroy_def sp_assign_def emit_def map_lookup_def Let_def split: if_splits)
  then show "part_ok refs reg (Looking d) l out l'" using assms(2,3)
    by (auto simp: part_defs accounted_def emit_def one_def)
  show "\<exists>e. map_lookup (dl_weak d) reg = Some e \<and> out = Inl (Asking (reg_interceptor_binder e) d)"
    using found assms(2) by (auto simp: phase_ok_def)
qed

lemma asking_effect:
  assumes "phase_ok refs reg (Asking i d)" "accounted l (Asking i d)"
    and "advance (traced L obj) reg (Asking i d) (w, l) = (out, (w', l'))"
  shows "part_ok refs reg (Asking i d) l out l'"
proof -
  have t: "dl_target d \<noteq> nullptr" "wp_ptr (dl_weak d) = dl_target d" using assms(1) by (auto simp: phase_ok_def)
  obtain o1 w1 l1 where pre: "handle_pre (traced L obj) i (dl_target d) (dl_code d) (dl_data d) (dl_reply d)
      (dl_flags d) (w, l) = (o1, (w1, l1))" by (rule prod_cases3)
  from handle_pre_trace [OF t(1) pre] obtain b where
    l1: "l1 = l @ [Strong (dl_target d) 1] @ conversion (dl_target d) @ [Strong (dl_target d) (-1)] @
      emit b [Called i kPreTransact]" by blast
  have safe: "safe_log l1" using may_call [OF assms(2) disjI1 [OF refl], of kPreTransact] assms(2)
    by (auto simp: l1 safe_log_append emit_def conversion_def accounted_def)
  have net: "strong_net l1 p = strong_net l p" "weak_net l1 r = weak_net l r" for p r
    by (auto simp: l1 emit_def conversion_def)
  show ?thesis
  proof (cases o1)
    case (PreForward m)
    then show ?thesis using assms(1,3) pre safe net by (auto simp: part_defs)
  next
    case (PreReturn h res rp)
    then have "settle (traced L obj) h res (d\<lparr>dl_reply := rp\<rparr>) (sp_destroy (traced L obj) i (w1, l1)) = (out, (w', l'))"
      using assms(3) pre by simp
    note left = leave_effect [OF this, simplified, OF t]
    have "out_ok refs reg out" using left(3) assms(1) by (cases out) (auto simp: phase_ok_def)
    then show ?thesis using left(1,2) safe net by (simp add: part_ok_def exchanges_def phase_weak_def)
  qed
qed

lemma forwarding_effect:
  assumes "phase_ok refs reg (Forwarding i m d)" "accounted l (Forwarding i m d)"
    and "advance (traced L obj) reg (Forwarding i m d) (w, l) = (out, (w', l'))"
  shows "part_ok refs reg (Forwarding i m d) l out l'"
proof -
  obtain s2 r2 w2 where tr: "transact L (dl_target d) (dl_code d) m (dl_reply d) (dl_flags d) w = (s2, r2, w2)"
    by (rule prod_cases3)
  have "out = Inl (Reporting i s2 (d\<lparr>dl_reply := r2\<rparr>))" "l' = l @ [Called (dl_target d) (dl_code d)]"
    using assms(3) by (simp_all add: transact_traced tr)
  then show ?thesis using assms(1) may_call_target [OF assms(2), where c = "dl_code d"]
    by (auto simp: part_ok_def exchanges_def phase_weak_def phase_ok_def)
qed

lemma reporting_effect:
  assumes "phase_ok refs reg (Reporting i res d)" "accounted l (Reporting i res d)"
    and "advance (traced L obj) reg (Reporting i res d) (w, l) = (out, (w', l'))"
  shows "part_ok refs reg (Reporting i res d) l out l'"
proof -
  have t: "dl_target d \<noteq> nullptr" "wp_ptr (dl_weak d) = dl_target d" using assms(1) by (auto simp: phase_ok_def)
  obtain h s2 rp w1 l1 where post: "handle_post (traced L obj) i (dl_target d) (dl_code d) (dl_data d) (dl_reply d)
      (dl_flags d) res (w, l) = (h, s2, rp, (w1, l1))" by (rule prod_cases5)
  from handle_post_trace [OF t(1) post] obtain b where
    l1: "l1 = l @ conversion (dl_target d) @ emit b [Called i kPostTransact]" by blast
  have safe: "safe_log l1" using may_call [OF assms(2) disjI2 [OF refl], of kPostTransact] assms(2)
    by (auto simp: l1 safe_log_append emit_def conversion_def accounted_def)
  have net: "strong_net l1 p = strong_net l p" "weak_net l1 r = weak_net l r" for p r
    by (auto simp: l1 emit_def conversion_def)
  have "settle (traced L obj) h s2 (d\<lparr>dl_reply := rp\<rparr>) (sp_destroy (traced L obj) i (w1, l1)) = (out, (w', l'))"
    using assms(3) post by simp
  note left = leave_effect [OF this, simplified, OF t]
  have "out_ok refs reg out" using left(3) assms(1) by (cases out) (auto simp: phase_ok_def)
  then show ?thesis using left(1,2) safe net by (simp add: part_ok_def exchanges_def phase_weak_def)
qed

lemma falling_effect:
  assumes "phase_ok refs reg (Falling d)" "accounted l (Falling d)"
    and "advance (traced L obj) reg (Falling d) (w, l) = (out, (w', l'))"
  shows "part_ok refs reg (Falling d) l out l'"
proof -
  obtain s2 r2 w2 where tr: "transact L (dl_target d) (dl_code d) (dl_data d) (dl_reply d) (dl_flags d) w = (s2, r2, w2)"
    by (rule prod_cases3)
  have "out = Inl (Releasing s2 (d\<lparr>dl_reply := r2\<rparr>))" "l' = l @ [Called (dl_target d) (dl_code d)]"
    using assms(3) by (simp_all add: transact_traced tr)
  then show ?thesis using assms(1) may_call_target [OF assms(2), where c = "dl_code d"]
    by (auto simp: part_ok_def exchanges_def phase_weak_def phase_ok_def)
qed

lemma releasing_effect:
  assumes "phase_ok refs reg (Releasing res d)" "accounted l (Releasing res d)"
    and "advance (traced L obj) reg (Releasing res d) (w, l) = (out, (w', l'))"
  shows "part_ok refs reg (Releasing res d) l out l'"
  using assms
  by (auto simp: part_defs accounted_def release_target_def sp_destroy_traced wp_destroy_def one_def holds_def)

lemma advance_effect:
  assumes "fixed_refs L refs obj" "phase_ok refs reg f" "accounted l f"
    and "advance (traced L obj) reg f (w, l) = (out, (w', l'))"
  shows "part_ok refs reg f l out l'"
proof (cases f)
  case (Looking d)
  show ?thesis using looking_effect(1) [OF assms [unfolded Looking]] Looking by simp
next
  case (Asking i d)
  show ?thesis using asking_effect [OF assms(2-4) [unfolded Asking]] Asking by simp
next
  case (Forwarding i m d)
  show ?thesis using forwarding_effect [OF assms(2-4) [unfolded Forwarding]] Forwarding by simp
next
  case (Reporting i res d)
  show ?thesis using reporting_effect [OF assms(2-4) [unfolded Reporting]] Reporting by simp
next
  case (Falling d)
  show ?thesis using falling_effect [OF assms(2-4) [unfolded Falling]] Falling by simp
next
  case (Releasing res d)
  show ?thesis using releasing_effect [OF assms(2-4) [unfolded Releasing]] Releasing by simp
qed

text \<open>Taking the first entry of the queue: its weak reference passes to the delivery.\<close>

lemma begin_queue: "begin_delivery L g q data reply flags w = (out, q', x') \<Longrightarrow> q' = tl q"
  by (cases q) (auto simp: begin_delivery_def Let_def split: prod.splits if_splits)

lemma begin_effect:
  assumes "fixed_refs L refs obj" "entry_ok refs reg e" "safe_log l"
    and "begin_delivery (traced L obj) g (e # q) data reply flags (w, l) = (out, q', (w', l'))"
  shows "exchanges (\<lambda>_. 0) (holds (ti_target e)) l out l' \<and> safe_log l' \<and> out_ok refs reg out"
proof (cases "wp_ptr (ti_target e) = nullptr")
  case True
  then show ?thesis using assms(3,4)
    by (auto simp: begin_delivery_def wp_copy_def wp_destroy_def wp_promote_def sp_set_pointer_def holds_def
        write_binder_def sp_copy_def sp_destroy_traced safe_log_append exchanges_def Let_def split: if_splits)
next
  case False
  then have e: "proper refs (ti_target e)" "ti_code e \<le> kMaxUserTransactionCode"
    "map_lookup (ti_target e) reg \<noteq> None" using assms(2) by (auto simp: entry_ok_def wp_null_def)
  then obtain t where t: "ti_target e = Wp t (refs t)" "t \<noteq> nullptr"
    by (cases "ti_target e") (auto simp: proper_def)
  obtain b w1 where at: "attemptIncStrong L (refs t) (decWeak L (refs t) (incWeak L (refs t) w)) = (b, w1)"
    by (rule prod.exhaust)
  show ?thesis using assms(3,4) t at e fixed_refs(3) [OF assms(1) t(2)]
    by (auto simp: begin_delivery_def wp_copy_def wp_destroy_def wp_promote_def sp_set_pointer_def sp_copy_def
        wp_eq_ptr_def part_defs holds_def one_def Let_def split: if_splits)
qed

section \<open>The other steps\<close>

lemma store_registration_calls:
  "store_registration (traced L obj) t i codes reg (w, l) = (reg', (w', l')) \<Longrightarrow> safe_log l' \<longleftrightarrow> safe_log l"
  by (auto simp: store_registration_def wp_of_sp_def wp_copy_def sp_copy_def sp_assign_def wp_destroy_def
      safe_log_append Let_def split: prod.splits if_splits)

lemma registration_calls:
  assumes "interceptor_onTransact (traced L obj) can_reserve reg code data (w, l) = Some (st, reg', (w', l'))"
  shows "safe_log l' \<longleftrightarrow> safe_log l"
  using assms
  by (auto simp: interceptor_onTransact_def handleRegisterInterceptor_def sp_destroy_traced safe_log_append Let_def
      dest!: store_registration_calls split: prod.splits if_splits option.splits)

lemma decide_calls:
  "decideInterception (traced L obj) reg td (w, l) = (d, (w', l')) \<Longrightarrow> safe_log l' \<longleftrightarrow> safe_log l"
  by (auto simp: decideInterception_def Let_def wp_defs shouldInterceptTransaction_def safe_log_append
      split: prod.splits option.splits if_splits)

lemma transaction_calls:
  "processBinderTransaction (traced L obj) reg stub a (m, q, (w, l)) = (b, (m', q', (w', l'))) \<Longrightarrow>
   safe_log l' \<longleftrightarrow> safe_log l"
  by (auto simp: processBinderTransaction_def Let_def wp_copy_def wp_destroy_def safe_log_append
      dest!: decide_calls split: prod.splits option.splits if_splits)

text \<open>One command of a read buffer: what it appends, and the references it takes for that.\<close>

lemma walk_effect:
  assumes "fixed_refs L refs obj" "next \<noteq> None \<longrightarrow> command_ok refs m b"
    and "walk_command (traced L obj) reg stub b r (m, q, (w, l)) = (next, (m', q', (w', l')))"
  shows "\<exists>es. q' = q @ es \<and> (\<forall>e \<in> set es. entry_ok refs reg e)"
    and "strong_net l' p = strong_net l p \<and> weak_net l' x - queue_held q' x = weak_net l x - queue_held q x"
    and "safe_log l' \<longleftrightarrow> safe_log l"
proof -
  let ?c = "dec32 (mem_read m b 4)" and ?p = "mem_read m (b + 4) 64"
  obtain d m1 q1 w1 l1 where p: "processBinderTransaction (traced L obj) reg stub (b + 4) (m, q, (w, l)) =
      (d, (m1, q1, (w1, l1)))" by (rule prod_cases5)
  consider "(q', (w', l')) = (q, (w, l))"
    | "is_transaction ?c" "b + 4 \<noteq> 0" "(q', (w', l')) = (q1, (w1, l1))" "next \<noteq> None"
    using assms(3) p
    by (cases "b + 4 = 0") (auto simp: walk_command_def processBinderTransaction_def Let_def split: if_splits)
  note cases = this
  have h: "hook_command (traced L obj) reg stub (?c, ?p) (q, (w, l)) = ((?c, mem_read m1 (b + 4) 64), (q1, (w1, l1)))"
    if "is_transaction ?c" "b + 4 \<noteq> 0" using process_transaction_refines [OF that _ _ p, of 64] by simp
  have names: "driver_names refs [(?c, ?p)]" if "next \<noteq> None" using assms(2) that by (simp add: command_ok_def)
  then have obj: "is_transaction ?c \<longrightarrow> td_target (dec_td (take 64 ?p)) \<noteq> 0 \<longrightarrow>
      obj (td_target (dec_td (take 64 ?p))) = td_cookie (dec_td (take 64 ?p))" if "next \<noteq> None"
    using fixed_refs(3) [OF assms(1)] that by (auto simp: driver_names_def)
  show "\<exists>es. q' = q @ es \<and> (\<forall>e \<in> set es. entry_ok refs reg e)"
    by (cases rule: cases) (use hook_command_appends [OF assms(1) names h] in auto)
  show "strong_net l' p = strong_net l p \<and> weak_net l' x - queue_held q' x = weak_net l x - queue_held q x"
  proof (cases rule: cases)
    case 2
    then show ?thesis using hook_command_refs(1) [OF h [OF 2(1,2)] obj [OF 2(4)], of p]
        hook_command_refs(2) [OF h [OF 2(1,2)] obj [OF 2(4)], of x] by simp
  qed simp
  show "safe_log l' \<longleftrightarrow> safe_log l"
    by (cases rule: cases) (use transaction_calls [OF p] in auto)
qed

section \<open>Reachable states\<close>

fun activity_strong :: "ptr \<Rightarrow> 'p activity \<Rightarrow> int" where
  "activity_strong p (Walk b r) = 0" | "activity_strong p (Deliver f) = phase_strong p f"

fun activity_weak :: "ptr \<Rightarrow> 'p activity \<Rightarrow> int" where
  "activity_weak r (Walk b k) = 0" | "activity_weak r (Deliver f) = phase_weak r f"

fun activity_ok :: "(ptr \<Rightarrow> ptr) \<Rightarrow> registry \<Rightarrow> 'p activity \<Rightarrow> bool" where
  "activity_ok refs reg (Walk b r) = True" | "activity_ok refs reg (Deliver f) = phase_ok refs reg f"

definition thread_strong :: "ptr \<Rightarrow> 'p thread \<Rightarrow> int" where
  "thread_strong p t = owned_sum (activity_strong p) (th_stack t)"

definition thread_weak :: "ptr \<Rightarrow> 'p thread \<Rightarrow> int" where
  "thread_weak r t = queue_held (th_queue t) r + owned_sum (activity_weak r) (th_stack t)"

definition thread_ok :: "(ptr \<Rightarrow> ptr) \<Rightarrow> registry \<Rightarrow> 'p thread \<Rightarrow> bool" where
  "thread_ok refs reg t \<longleftrightarrow>
     (\<forall>e \<in> set (th_queue t). entry_ok refs reg e) \<and> (\<forall>a \<in> set (th_stack t). activity_ok refs reg a)"

definition process_inv :: "(ptr \<Rightarrow> ptr) \<Rightarrow> ('w, 'p) process \<Rightarrow> bool" where
  "process_inv refs s \<longleftrightarrow> registry_ok refs (pr_reg s) \<and> (\<forall>t \<in> set (pr_threads s). thread_ok refs (pr_reg s) t) \<and>
     safe_log (snd (pr_world s)) \<and>
     (\<forall>p. strong_net (snd (pr_world s)) p =
        owned_sum (reg_strong p) (pr_reg s) + owned_sum (thread_strong p) (pr_threads s)) \<and>
     (\<forall>r. weak_net (snd (pr_world s)) r =
        owned_sum (reg_weak r) (pr_reg s) + owned_sum (thread_weak r) (pr_threads s))"

lemma owned_nonneg: "(\<And>e. 0 \<le> f e) \<Longrightarrow> 0 \<le> owned_sum f xs"
  by (induction xs) (auto simp: add_nonneg_nonneg)

lemma owned_member: "(\<And>e. 0 \<le> f e) \<Longrightarrow> i < length xs \<Longrightarrow> f (xs ! i) \<le> owned_sum f xs"
proof (induction xs arbitrary: i)
  case (Cons x xs)
  then show ?case using owned_nonneg [of f xs]
    by (cases i) (auto intro: order_trans add_increasing)
qed simp

lemma strong_nonneg: "0 \<le> activity_strong p a" "0 \<le> thread_strong p t" "0 \<le> reg_strong p e"
proof -
  have a: "0 \<le> activity_strong p a" for a :: "'x activity"
  proof (cases a)
    case (Deliver f)
    then show ?thesis by (cases f) (simp_all add: one_def)
  qed simp
  show "0 \<le> activity_strong p a" by (rule a)
  show "0 \<le> thread_strong p t" unfolding thread_strong_def by (intro owned_nonneg a)
  show "0 \<le> reg_strong p e" by (simp add: reg_strong_def)
qed

text \<open>The log of a reachable state accounts for each delivery that is next to act.\<close>

lemma top_accounted:
  assumes "process_inv refs s" "i < length (pr_threads s)"
    and "pr_threads s ! i = \<lparr>th_queue = q, th_stack = Deliver f # as\<rparr>"
  shows "accounted (snd (pr_world s)) f" and "phase_ok refs (pr_reg s) f"
proof -
  have "phase_strong p f \<le> strong_net (snd (pr_world s)) p" for p
  proof -
    have "phase_strong p f \<le> thread_strong p (pr_threads s ! i)"
      using assms(3) owned_nonneg [of "activity_strong p" as, OF strong_nonneg(1)] by (simp add: thread_strong_def)
    also have "\<dots> \<le> owned_sum (thread_strong p) (pr_threads s)"
      by (intro owned_member strong_nonneg assms(2))
    also have "\<dots> \<le> strong_net (snd (pr_world s)) p"
      using assms(1) owned_nonneg [of "reg_strong p" "pr_reg s", OF strong_nonneg(3)] by (simp add: process_inv_def)
    finally show ?thesis .
  qed
  then show "accounted (snd (pr_world s)) f" using assms(1) by (simp add: accounted_def process_inv_def)
  have "thread_ok refs (pr_reg s) (pr_threads s ! i)" using assms(1,2) by (simp add: process_inv_def)
  then show "phase_ok refs (pr_reg s) f" using assms(3) by (simp add: thread_ok_def)
qed

text \<open>A step of one thread that leaves the registry alone: its own balance is what counts.\<close>

lemma thread_step_inv:
  assumes "process_inv refs s" "i < length (pr_threads s)" "pr_threads s ! i = t"
    and "pr_reg s' = pr_reg s" "pr_threads s' = (pr_threads s)[i := t']" "snd (pr_world s') = l'"
    and "thread_ok refs (pr_reg s) t'" "safe_log l'"
    and "\<And>p. strong_net l' p = strong_net (snd (pr_world s)) p - thread_strong p t + thread_strong p t'"
    and "\<And>r. weak_net l' r = weak_net (snd (pr_world s)) r - thread_weak r t + thread_weak r t'"
  shows "process_inv refs s'"
  using assms set_update_subset_insert [of "pr_threads s" i t']
  by (auto simp: process_inv_def owned_sum_update)

lemma push_owned:
  "owned_sum (activity_strong p) (push out as) = out_strong p out + owned_sum (activity_strong p) as"
  "owned_sum (activity_weak r) (push out as) = out_weak r out + owned_sum (activity_weak r) as"
  "(\<forall>a \<in> set (push out as). activity_ok refs reg a) \<longleftrightarrow>
     out_ok refs reg out \<and> (\<forall>a \<in> set as. activity_ok refs reg a)"
  by (cases out; simp add: push_def)+

lemma activity_ok_mono:
  "activity_ok refs reg a \<Longrightarrow> \<forall>k. map_lookup k reg \<noteq> None \<longrightarrow> map_lookup k reg' \<noteq> None \<Longrightarrow> activity_ok refs reg' a"
  by (cases a) (auto simp: phase_ok_def)

lemma registers_inv:
  assumes "fixed_refs L refs obj" "process_inv refs s"
    and "interceptor_onTransact (traced L obj) can_reserve (pr_reg s) code data (pr_world s) = Some (st, reg', x')"
  shows "process_inv refs (s\<lparr>pr_reg := reg', pr_world := x'\<rparr>)"
proof -
  obtain w l w' l' where x: "pr_world s = (w, l)" "x' = (w', l')" by (metis prod.exhaust)
  have ok: "registry_ok refs reg'" "\<forall>k. map_lookup k (pr_reg s) \<noteq> None \<longrightarrow> map_lookup k reg' \<noteq> None"
    using registration_ok [OF assms(1) _ assms(3)] assms(2) by (auto simp: process_inv_def)
  have threads: "\<forall>t \<in> set (pr_threads s). thread_ok refs reg' t"
    using assms(2) entry_ok_mono [OF _ ok(2)] activity_ok_mono [OF _ ok(2)]
    by (fastforce simp: process_inv_def thread_ok_def)
  have "refs_kept (pr_reg s, l) (reg', l')"
    using assms(3) x register_refs_kept [of L obj can_reserve "pr_reg s" data w l st reg' w' l']
    by (auto simp: interceptor_onTransact_def refs_kept_refl split: if_splits)
  then have "strong_net l' p = strong_net l p - owned_sum (reg_strong p) (pr_reg s) + owned_sum (reg_strong p) reg'"
    "weak_net l' r = weak_net l r - owned_sum (reg_weak r) (pr_reg s) + owned_sum (reg_weak r) reg'" for p r
    unfolding refs_kept_def by (metis add.commute diff_add_cancel fst_conv snd_conv)+
  then show ?thesis using assms(2) threads ok(1) registration_calls [OF assms(3) [unfolded x]]
    by (simp add: process_inv_def x)
qed

lemma process_step_inv:
  assumes "fixed_refs L refs obj"
  shows "process_step L refs obj g stub s lb s' \<Longrightarrow> process_inv refs s \<Longrightarrow> process_inv refs s'"
proof (induction rule: process_step.induct)
  case (registers can_reserve s code data st reg' x')
  then show ?case by (blast intro: registers_inv [OF assms])
next
  case (enters i s q as bwr b r)
  have "thread_ok refs (pr_reg s) (pr_threads s ! i)" using enters.hyps(1) enters.prems by (simp add: process_inv_def)
  then show ?case
    by (intro thread_step_inv [where t' = "\<lparr>th_queue = q, th_stack = Walk b r # as\<rparr>", OF enters.prems enters.hyps(1,2)])
      (use enters in \<open>auto simp: process_inv_def thread_ok_def thread_strong_def thread_weak_def\<close>)
next
  case (walks i s q b r as next' m' q' x')
  obtain w l w' l' where x: "pr_world s = (w, l)" "x' = (w', l')" by (metis prod.exhaust)
  note eff = walk_effect [OF assms walks.hyps(3) walks.hyps(4) [unfolded x]]
  have "thread_ok refs (pr_reg s) (pr_threads s ! i)" using walks.hyps(1) walks.prems by (simp add: process_inv_def)
  moreover have "safe_log l'" using eff(3) walks.prems by (simp add: process_inv_def x)
  moreover have "strong_net l' p = strong_net l p" for p using eff(2) by blast
  moreover have "weak_net l' r = weak_net l r - queue_held q r + queue_held q' r" for r
    using eff(2) [of 0 r] by simp
  ultimately show ?case using eff(1)
    by (intro thread_step_inv [where l' = l' and t' = "\<lparr>th_queue = q',
         th_stack = (case next' of None \<Rightarrow> as | Some (b, r) \<Rightarrow> Walk b r # as)\<rparr>", OF walks.prems walks.hyps(1,2)])
      (auto simp: x thread_ok_def thread_strong_def thread_weak_def walks.hyps(2) split: option.splits)
next
  case (begins i s q as data reply flags out q' x')
  obtain w l w' l' where x: "pr_world s = (w, l)" "x' = (w', l')" by (metis prod.exhaust)
  have t: "thread_ok refs (pr_reg s) (pr_threads s ! i)" using begins.hyps(1) begins.prems by (simp add: process_inv_def)
  have safe: "safe_log l" using begins.prems by (simp add: process_inv_def x)
  show ?case
  proof (cases q)
    case Nil
    then have "out = Inr (status_of UNKNOWN_TRANSACTION, reply)" "q' = []" "x' = pr_world s"
      using begins.hyps(3) by (simp_all add: begin_delivery_def)
    then show ?thesis using t safe x Nil
      by (intro thread_step_inv [where l' = l' and t' = "\<lparr>th_queue = q', th_stack = push out as\<rparr>",
         OF begins.prems begins.hyps(1,2)])
        (auto simp: push_def begins.hyps(2))
  next
    case (Cons e rest)
    have "entry_ok refs (pr_reg s) e" using t begins.hyps(2) Cons by (simp add: thread_ok_def)
    from begin_effect [OF assms this safe begins.hyps(3) [unfolded Cons x]] begin_queue [OF begins.hyps(3)] Cons t safe
    show ?thesis
      by (intro thread_step_inv [where l' = l' and t' = "\<lparr>th_queue = q', th_stack = push out as\<rparr>",
         OF begins.prems begins.hyps(1,2)])
        (auto simp: x thread_ok_def thread_strong_def thread_weak_def begins.hyps(2) push_owned exchanges_def)
  qed
next
  case (advances i s q f as out x')
  obtain w l w' l' where x: "pr_world s = (w, l)" "x' = (w', l')" by (metis prod.exhaust)
  have t: "thread_ok refs (pr_reg s) (pr_threads s ! i)" using advances.hyps(1) advances.prems by (simp add: process_inv_def)
  note top = top_accounted [OF advances.prems advances.hyps(1,2)]
  from advance_effect [OF assms top(2) _ advances.hyps(3) [unfolded x]] top(1) t show ?case
    by (intro thread_step_inv [where l' = l' and t' = "\<lparr>th_queue = q, th_stack = push out as\<rparr>",
         OF advances.prems advances.hyps(1,2)])
      (auto simp: x thread_ok_def thread_strong_def thread_weak_def advances.hyps(2) push_owned part_ok_def exchanges_def)
next
  case (others s m' w')
  then show ?case by (simp add: process_inv_def)
qed

lemma owned_replicate: "f x = 0 \<Longrightarrow> owned_sum f (replicate n x) = 0"
  by (induction n) simp_all

lemma process_start_inv: "process_inv refs (process_start n m w)"
  by (auto simp: process_start_def process_inv_def registry_ok_def registry_inv_def keys_sorted_def thread_ok_def
      thread_strong_def thread_weak_def safe_log_def intro!: owned_replicate)

lemma process_run_inv:
  assumes "fixed_refs L refs obj"
  shows "process_run L refs obj g stub s0 ls s \<Longrightarrow> s0 = process_start n m w \<Longrightarrow> process_inv refs s"
proof (induction rule: process_run.induct)
  case no_step
  then show ?case by (simp add: process_start_inv)
next
  case (then_step ls s1 l s2)
  then show ?case using process_step_inv [OF assms] by blast
qed

text \<open>
  C11. However the steps of the threads are interleaved, at every point between two of them the
  references taken and not returned are exactly those the data hold: registrations, queues, and
  the local pointers of each delivery under way.
\<close>

theorem interleaved_references_conserved:
  assumes "fixed_refs L refs obj" and "process_run L refs obj g stub (process_start n m w) ls s"
  shows "strong_net (snd (pr_world s)) p =
      owned_sum (reg_strong p) (pr_reg s) + owned_sum (thread_strong p) (pr_threads s) \<and>
    weak_net (snd (pr_world s)) r =
      owned_sum (reg_weak r) (pr_reg s) + owned_sum (thread_weak r) (pr_threads s)"
  using process_run_inv [OF assms refl] by (simp add: process_inv_def)

text \<open>
  C9. No interleaving makes the interceptor call an object it does not hold: a registration that
  replaces the interceptor while a delivery is about to call the old one does not take the
  delivery's own reference away. Calls through a null interceptor are set aside.
\<close>

theorem callees_strongly_held:
  assumes "fixed_refs L refs obj" and "process_run L refs obj g stub (process_start n m w) ls s"
  shows "safe_log (snd (pr_world s))"
  using process_run_inv [OF assms refl] by (simp add: process_inv_def)

text \<open>
  C12. A delivery that is about to read the registry always finds its target there, whatever was
  registered since the transaction was redirected, and asks the interceptor registered last.
\<close>

theorem delivery_asks_current_interceptor:
  assumes "fixed_refs L refs obj" and "process_run L refs obj g stub (process_start n m w) ls s"
    and "i < length (pr_threads s)" and "th_stack (pr_threads s ! i) = Deliver (Looking d) # as"
    and "advance (traced L obj) (pr_reg s) (Looking d) (pr_world s) = (out, x')"
  shows "\<exists>e. map_lookup (dl_weak d) (pr_reg s) = Some e \<and> out = Inl (Asking (reg_interceptor_binder e) d)"
proof -
  have "pr_threads s ! i = \<lparr>th_queue = th_queue (pr_threads s ! i), th_stack = Deliver (Looking d) # as\<rparr>"
    using assms(4) by simp
  note top = top_accounted [OF process_run_inv [OF assms(1,2) refl] assms(3) this]
  show ?thesis using looking_effect(2) [OF assms(1) top(2,1)] assms(5)
    by (metis prod.collapse)
qed

section \<open>Order of delivery\<close>

lemma process_step_queue:
  assumes "fixed_refs L refs obj"
  shows "process_step L refs obj g stub s lb s' \<Longrightarrow> i < length (pr_threads s) \<Longrightarrow>
    length (pr_threads s') = length (pr_threads s) \<and>
    th_queue (pr_threads s ! i) @ redirected_to i [lb] = delivered_to i [lb] @ th_queue (pr_threads s' ! i)"
proof (induction rule: process_step.induct)
  case (walks j s q b r as next' m' q' x')
  obtain w l w' l' where x: "pr_world s = (w, l)" "x' = (w', l')" by (metis prod.exhaust)
  obtain es where "q' = q @ es" using walk_effect(1) [OF assms walks.hyps(3) walks.hyps(4) [unfolded x]] by blast
  then show ?case using walks by (auto simp: nth_list_update)
next
  case (begins j s q as data reply flags out q' x')
  then show ?case using begin_queue [OF begins.hyps(3)] by (cases q) (auto simp: nth_list_update)
qed (auto simp: nth_list_update)

lemma run_in_order:
  assumes "fixed_refs L refs obj" and "process_run L refs obj g stub (process_start n m w) ls s" and "i < n"
  shows "redirected_to i ls = delivered_to i ls @ th_queue (pr_threads s ! i)"
proof -
  have "s0 = process_start n m w \<Longrightarrow>
      length (pr_threads s) = n \<and> redirected_to i ls = delivered_to i ls @ th_queue (pr_threads s ! i)"
    if "process_run L refs obj g stub s0 ls s" for s0 using that
  proof (induction rule: process_run.induct)
    case no_step
    then show ?case using assms(3) by (simp add: process_start_def)
  next
    case (then_step ls s1 l s2)
    then show ?case using process_step_queue [OF assms(1) then_step.hyps(2), of i] assms(3)
      by (metis append.assoc delivered_to_append redirected_to_append)
  qed
  then show ?thesis using assms(2) by blast
qed

text \<open>
  What it means that the transaction \<open>e\<close> is served: a backdoor call is answered with the
  interceptor; otherwise the target of \<open>e\<close> is promoted, and a delivery of the code of \<open>e\<close> to it
  begins, or, if it is dead, the caller is told so. \<open>w1\<close> is the world in which the entry has been
  moved out of the queue.
\<close>

definition serves ::
  "('w, 'p, 'x) libbinder_ops_scheme \<Rightarrow> ptr \<Rightarrow> txn_info \<Rightarrow> 'p \<Rightarrow> 'p option \<Rightarrow> u32 \<Rightarrow> 'w
     \<Rightarrow> ('p phase + status_t \<times> 'p option) \<Rightarrow> bool" where
  "serves L g e data reply flags w out \<longleftrightarrow>
     (let w1 = wp_destroy L (ti_target e) (snd (wp_copy L (ti_target e) w));
          alive = (wp_ptr (ti_target e) \<noteq> nullptr \<and> fst (attemptIncStrong L (wp_refs (ti_target e)) w1))
      in if wp_ptr (ti_target e) = nullptr \<and> ti_code e = kBackdoorCode \<and> reply \<noteq> None
         then out = Inr (status_of OK, Some (snd (writeStrongBinder L g (the reply))))
         else if alive
         then out = Inl (Looking \<lparr>dl_target = wp_ptr (ti_target e), dl_weak = ti_target e, dl_code = ti_code e,
           dl_data = data, dl_reply = reply, dl_flags = flags\<rparr>)
         else out = Inr (status_of DEAD_OBJECT, reply))"

lemma begin_serves:
  assumes "begin_delivery L g (e # q) data reply flags w = (out, q', x')"
  shows "serves L g e data reply flags w out"
  using assms
  by (auto simp: begin_delivery_def serves_def wp_copy_def wp_destroy_def wp_promote_def sp_set_pointer_def sp_copy_def
      wp_eq_ptr_def write_binder_def Let_def split: prod.splits if_splits)

text \<open>
  C10. Each thread serves the transactions redirected on it once and in the order in which the
  driver returned them, also when deliveries are nested in one another and when the walk over a
  buffer is interrupted: in every reachable state, the call of the stub that comes next serves the
  first of the redirected transactions that have not been delivered, and takes it off the queue.
\<close>

theorem interleaved_delivery_in_order:
  assumes "fixed_refs L refs obj" and "process_run L refs obj g stub (process_start n m w) ls s" and "i < n"
    and "th_queue (pr_threads s ! i) \<noteq> []"
    and "begin_delivery (traced L obj) g (th_queue (pr_threads s ! i)) data reply flags (pr_world s) = (out, q', x')"
  shows "\<exists>e. redirected_to i ls = delivered_to i ls @ e # q' \<and>
    serves (traced L obj) g e data reply flags (pr_world s) out"
proof -
  obtain e q where q: "th_queue (pr_threads s ! i) = e # q" using assms(4) by (cases "th_queue (pr_threads s ! i)") auto
  have "q' = q" using begin_queue [OF assms(5)] q by simp
  then show ?thesis using run_in_order [OF assms(1-3)] begin_serves [OF assms(5) [unfolded q]] q by auto
qed

section \<open>A run\<close>

text \<open>
  One thread: the object at 16 is registered; the sample buffer is entered, its no-op passed and
  its transaction redirected; and the delivery of the transaction begins.
\<close>

abbreviation sample_run_to :: "label list \<Rightarrow> (counters, lparcel) process \<Rightarrow> bool" where
  "sample_run_to \<equiv> process_run sample_lib (\<lambda>p. p + 8) (\<lambda>r. r - 8) 48 32 (process_start 1 sample_memory live_world)"

abbreviation sample_registered :: registry where
  "sample_registered \<equiv> [(Wp 16 24, \<lparr>reg_target_binder = Wp 16 24, reg_interceptor_binder = 64, reg_codes = [7, 9]\<rparr>)]"

abbreviation sample_entry :: txn_info where
  "sample_entry \<equiv> \<lparr>ti_code = 7, ti_target = Wp 16 24\<rparr>"

abbreviation sample_state :: "counters \<times> event_log \<Rightarrow> mem \<Rightarrow> lparcel thread \<Rightarrow> (counters, lparcel) process" where
  "sample_state x m t \<equiv> \<lparr>pr_reg = sample_registered, pr_mem = m, pr_threads = [t], pr_world = x\<rparr>"

lemma sample_first_command: "mem_read sample_memory 4096 4 = enc32 (br_code BR_NOOP)"
proof -
  have "mem_read sample_memory 4096 4 = take 4 (mem_read sample_memory 4096 72)" by (simp add: mem_read_take)
  then show ?thesis by (simp only: sample_memory_read) (simp add: sample_commands_def)
qed

lemma sample_second_command: "mem_read sample_memory 4100 4 = enc32 (br_code BR_TRANSACTION)"
proof -
  have "mem_read sample_memory 4100 4 = take 4 (drop 4 (mem_read sample_memory 4096 72))"
    using mem_read_drop [of 4 72 sample_memory 4096] by (simp add: mem_read_take)
  then show ?thesis by (simp only: sample_memory_read) (simp add: sample_commands_def)
qed

lemma sample_sizes: "IOC_SIZE (br_code BR_NOOP) = 0" "IOC_SIZE (br_code BR_TRANSACTION) = 64"
  by (simp_all only: word_unat_eq_iff br_size_field) (simp_all add: arg_size_def sizeof_uapi)

lemma sample_walk_noop:
  "walk_command sample_traced reg 32 4096 72 (sample_memory, q, x) = (Some (4100, 68), (sample_memory, q, x))"
  by (simp add: walk_command_def sample_first_command sample_sizes br_code_inject Let_def del: br_code.simps)

lemma sample_enter: "enter_walk sample_bwr sample_memory = Some (4096, 72)"
  by (simp add: enter_walk_def sample_first_command sample_sizes br_code_inject Let_def del: br_code.simps)

lemma sample_commands_ok:
  "command_ok (\<lambda>p. p + 8) sample_memory 4096" "command_ok (\<lambda>p. p + 8) sample_memory 4100"
  by (simp_all add: command_ok_def driver_names_def sample_first_command sample_second_command sample_memory_td
      sample_td_def br_code_inject del: br_code.simps)

lemma sample_walk_transaction:
  "\<exists>m' x'. walk_command sample_traced sample_registered 32 4100 68 (sample_memory, [], (live_world, l)) =
     (Some (4168, 0), (m', [sample_entry], x'))"
proof -
  obtain b m' q' w' l' where p: "processBinderTransaction sample_traced sample_registered 32 4104
      (sample_memory, [], (live_world, l)) = (b, (m', q', (w', l')))" by (rule prod_cases5)
  from process_transaction_refines [OF _ _ _ _ p, of "br_code BR_TRANSACTION" 64]
  have "hook_command sample_traced sample_registered 32 (br_code BR_TRANSACTION, mem_read sample_memory 4104 64)
      ([], (live_world, l)) = ((br_code BR_TRANSACTION, mem_read m' 4104 64), (q', (w', l')))" by simp
  then have q': "q' = [sample_entry]"
    by (simp add: hook_command_def sample_memory_td decideInterception_def list_lib_simps sample_td_def
        shouldInterceptTransaction_def find_iter_def intercept_constants wp_fromExisting_def wp_convert_def
        wp_assign_def wp_copy_def wp_destroy_def wp_null_def del: br_code.simps split: if_splits)
  then show ?thesis using p
    by (simp add: walk_command_def sample_second_command sample_sizes Let_def del: br_code.simps)
qed

definition sample_delivery :: "lparcel delivery" where
  "sample_delivery = \<lparr>dl_target = 16, dl_weak = Wp 16 24, dl_code = 7, dl_data = ([], 0), dl_reply = None, dl_flags = 0\<rparr>"

lemma sample_begin:
  "\<exists>x'. begin_delivery sample_traced 48 [sample_entry] ([], 0) None 0 (live_world, l) =
     (Inl (Looking sample_delivery), [], x')"
  by (simp add: begin_delivery_def sample_delivery_def list_lib_simps wp_copy_def wp_destroy_def wp_eq_ptr_def
      wp_promote_def sp_set_pointer_def sp_copy_def)

lemma sample_process:
  obtains st x1 m x2 x3 where
    "sample_run_to [Registered st] (sample_state x1 sample_memory \<lparr>th_queue = [], th_stack = []\<rparr>)"
    "sample_run_to [Registered st, Other, Other, Redirected 0 [], Redirected 0 [sample_entry]]
       (sample_state x2 m \<lparr>th_queue = [sample_entry], th_stack = [Walk 4168 0]\<rparr>)"
    "sample_run_to [Registered st, Other, Other, Redirected 0 [], Redirected 0 [sample_entry], Other,
        Redirected 0 [], Delivered 0 sample_entry]
       (sample_state x3 sample_memory \<lparr>th_queue = [], th_stack = [Deliver (Looking sample_delivery)]\<rparr>)"
proof -
  let ?step = "process_step sample_lib (\<lambda>p. p + 8) (\<lambda>r. r - 8) 48 32"
  let ?idle = "\<lparr>th_queue = [], th_stack = []\<rparr> :: lparcel thread"
  define s0 where "s0 = (process_start 1 sample_memory live_world :: (counters, lparcel) process)"
  have s0: "s0 = \<lparr>pr_reg = [], pr_mem = sample_memory, pr_threads = [?idle], pr_world = (live_world, [])\<rparr>"
    by (simp add: s0_def process_start_def)
  obtain st w1 l where "handleRegisterInterceptor sample_traced (\<lambda>_. True) [] sample_message (live_world, []) =
      Some (st, sample_registered, (w1, l))" using sample_registration by blast
  then have 1: "?step s0 (Registered st) (sample_state (w1, l) sample_memory ?idle)"
    using registers [where L = sample_lib and obj = "\<lambda>r. r - 8" and s = s0 and code = kRegisterInterceptor
        and can_reserve = "\<lambda>_. True" and data = sample_message]
    by (simp add: interceptor_onTransact_def s0)
  have 2: "?step (sample_state x m t) Other (sample_state (live_world, snd x) m' t)" for x m m' t
    using others [where s = "sample_state x m t" and w' = live_world] by simp
  have 3: "?step (sample_state x sample_memory ?idle) Other
      (sample_state x sample_memory \<lparr>th_queue = [], th_stack = [Walk 4096 72]\<rparr>)" for x
    using enters [where s = "sample_state x sample_memory ?idle" and bwr = sample_bwr and b = 4096 and r = 72]
    by (simp add: sample_enter)
  have walk: "?step (sample_state x m \<lparr>th_queue = q, th_stack = [Walk b r]\<rparr>) (Redirected 0 (drop (length q) q'))
      (sample_state x' m' \<lparr>th_queue = q', th_stack = (case next of None \<Rightarrow> [] | Some (b, r) \<Rightarrow> [Walk b r])\<rparr>)"
    if "next \<noteq> None \<longrightarrow> command_ok (\<lambda>p. p + 8) m b" "walk_command sample_traced sample_registered 32 b r (m, q, x) = (next, (m', q', x'))"
    for x m q b r x' m' q' "next"
    using walks [where s = "sample_state x m \<lparr>th_queue = q, th_stack = [Walk b r]\<rparr>" and as = "[]"
        and refs = "\<lambda>p. p + 8"] that
    by simp
  obtain m' x2 where 5: "walk_command sample_traced sample_registered 32 4100 68 (sample_memory, [], (live_world, l)) =
      (Some (4168, 0), (m', [sample_entry], x2))" using sample_walk_transaction by blast
  have 7: "walk_command sample_traced sample_registered 32 4168 0 (m, q, x) = (None, (m, q, x))" for m q x
    by (simp add: walk_command_def)
  obtain x3 where 8: "begin_delivery sample_traced 48 [sample_entry] ([], 0) None 0 (live_world, snd x2) =
      (Inl (Looking sample_delivery), [], x3)" using sample_begin by blast
  have 9: "?step (sample_state (live_world, snd x2) sample_memory \<lparr>th_queue = [sample_entry], th_stack = []\<rparr>)
      (Delivered 0 sample_entry)
      (sample_state x3 sample_memory \<lparr>th_queue = [], th_stack = [Deliver (Looking sample_delivery)]\<rparr>)"
    using begins [where s = "sample_state (live_world, snd x2) sample_memory \<lparr>th_queue = [sample_entry], th_stack = []\<rparr>"
        and i = 0 and q = "[sample_entry]" and refs = "\<lambda>p. p + 8" and L = sample_lib and obj = "\<lambda>r. r - 8"
        and interceptor = 48 and data = "([], 0)" and reply = None and flags = 0 and stub = 32
        and as = "[]" and out = "Inl (Looking sample_delivery)"] 8
    by (simp add: push_def)
  note more = process_run.then_step
  have r1: "sample_run_to ([] @ [Registered st]) (sample_state (w1, l) sample_memory ?idle)"
    using more [OF no_step 1 [unfolded s0_def]] .
  have "sample_run_to ((([] @ [Registered st]) @ [Other]) @ [Other])
      (sample_state (live_world, l) sample_memory \<lparr>th_queue = [], th_stack = [Walk 4096 72]\<rparr>)"
    using more [OF more [OF r1 2, of sample_memory] 3] by simp
  from more [OF more [OF this walk [OF impI [OF sample_commands_ok(1)] sample_walk_noop], simplified]
    walk [OF impI [OF sample_commands_ok(2)] 5, simplified]]
  have r2: "sample_run_to [Registered st, Other, Other, Redirected 0 [], Redirected 0 [sample_entry]]
      (sample_state x2 m' \<lparr>th_queue = [sample_entry], th_stack = [Walk 4168 0]\<rparr>)" by simp
  from more [OF more [OF more [OF r2 2] walk [OF _ 7, simplified]] 9]
  have "sample_run_to [Registered st, Other, Other, Redirected 0 [], Redirected 0 [sample_entry], Other,
      Redirected 0 [], Delivered 0 sample_entry]
      (sample_state x3 sample_memory \<lparr>th_queue = [], th_stack = [Deliver (Looking sample_delivery)]\<rparr>)" by simp
  with r1 r2 show thesis by (intro that) simp_all
qed

theorem interleaved_references_conserved_witness:
  "\<exists>ls s. sample_run_to ls s \<and> weak_net (snd (pr_world s)) 24 = 3 \<and> strong_net (snd (pr_world s)) 16 = 2 \<and>
     strong_net (snd (pr_world s)) 64 = 1"
proof -
  obtain ls x where r: "sample_run_to ls
      (sample_state x sample_memory \<lparr>th_queue = [], th_stack = [Deliver (Looking sample_delivery)]\<rparr>)"
    using sample_process by blast
  note c = interleaved_references_conserved [OF sample_fixed r]
  show ?thesis using r c [of 16 24] c [of 64 24]
    by (intro exI [of _ ls] exI conjI) (assumption | simp add: reg_strong_def reg_weak_def holds_def thread_strong_def
      thread_weak_def phase_weak_def one_def sample_delivery_def)+
qed

theorem callees_strongly_held_witness:
  "\<exists>ls s. sample_run_to ls s \<and> length (snd (pr_world s)) > 0 \<and> safe_log (snd (pr_world s))"
proof -
  obtain ls x where r: "sample_run_to ls
      (sample_state x sample_memory \<lparr>th_queue = [], th_stack = [Deliver (Looking sample_delivery)]\<rparr>)"
    using sample_process by blast
  have "strong_net (snd x) 64 = 1"
    using process_run_inv [OF sample_fixed r refl]
    by (simp add: process_inv_def reg_strong_def thread_strong_def one_def sample_delivery_def)
  then have "snd x \<noteq> []" by auto
  then show ?thesis using r callees_strongly_held [OF sample_fixed r]
    by (intro exI [of _ ls] exI conjI) (assumption | simp)+
qed

theorem delivery_asks_current_interceptor_witness:
  "\<exists>ls s. sample_run_to ls s \<and>
     fst (advance sample_traced (pr_reg s) (Looking sample_delivery) (pr_world s)) = Inl (Asking 64 sample_delivery)"
proof -
  obtain ls x where r: "sample_run_to ls
      (sample_state x sample_memory \<lparr>th_queue = [], th_stack = [Deliver (Looking sample_delivery)]\<rparr>)"
    using sample_process by blast
  let ?s = "sample_state x sample_memory \<lparr>th_queue = [], th_stack = [Deliver (Looking sample_delivery)]\<rparr>"
  obtain out x' where a: "advance sample_traced (pr_reg ?s) (Looking sample_delivery) (pr_world ?s) = (out, x')"
    by (rule prod.exhaust)
  from delivery_asks_current_interceptor [OF sample_fixed r _ _ a, of 0 "[]"]
  have "out = Inl (Asking 64 sample_delivery)"
    by (simp add: sample_delivery_def map_lookup_def find_iter_def)
  then show ?thesis using r a by (intro exI [of _ ls] exI [of _ ?s]) simp
qed

theorem interleaved_delivery_in_order_witness:
  "\<exists>ls s out x'. sample_run_to ls s \<and> delivered_to 0 ls = [] \<and> redirected_to 0 ls = [sample_entry] \<and>
     begin_delivery sample_traced 48 (th_queue (pr_threads s ! 0)) ([], 0) None 0 (pr_world s) = (out, [], x') \<and>
     serves sample_traced 48 sample_entry ([], 0) None 0 (pr_world s) out"
proof -
  obtain st x m where r: "sample_run_to [Registered st, Other, Other, Redirected 0 [], Redirected 0 [sample_entry]]
      (sample_state x m \<lparr>th_queue = [sample_entry], th_stack = [Walk 4168 0]\<rparr>)"
    using sample_process by blast
  let ?s = "sample_state x m \<lparr>th_queue = [sample_entry], th_stack = [Walk 4168 0]\<rparr>"
  obtain out q' x' where b: "begin_delivery sample_traced 48 (th_queue (pr_threads ?s ! 0)) ([], 0) None 0 (pr_world ?s) =
      (out, q', x')" by (rule prod_cases3)
  from interleaved_delivery_in_order [OF sample_fixed r _ _ b] have
    "q' = []" "serves sample_traced 48 sample_entry ([], 0) None 0 (pr_world ?s) out" by simp_all
  then show ?thesis using r b by (intro exI conjI) (assumption | simp)+
qed

end
