(* ===== verification/Session_Steps.thy ===== *)
theory Session_Steps
  imports Interleaving
begin

text \<open>
  The process of \<open>Session\<close>, whose threads process a read buffer or deliver a transaction in one
  step, is an abstraction of the process of \<open>Interleaving\<close>: each of its steps is a run in which
  one thread acts alone.
\<close>

section \<open>Runs\<close>

lemma run_append:
  assumes "process_run L refs obj g stub s ls s1"
  shows "process_run L refs obj g stub s1 ks s2 \<Longrightarrow> process_run L refs obj g stub s (ls @ ks) s2"
proof (induction rule: process_run.induct)
  case no_step
  then show ?case using assms by simp
next
  case (then_step ks s2 l s3)
  then show ?case using process_run.then_step [OF then_step.IH then_step.hyps(2)] by simp
qed

lemma run_one: "process_step L refs obj g stub s l s1 \<Longrightarrow> process_run L refs obj g stub s [l] s1"
  using process_run.then_step [OF no_step] by fastforce

text \<open>A run that is for the queues what one step is.\<close>

definition same_moves :: "label list \<Rightarrow> label list \<Rightarrow> bool" where
  "same_moves ls ks \<longleftrightarrow> (\<forall>i. redirected_to i ls = redirected_to i ks \<and> delivered_to i ls = delivered_to i ks)"

lemma same_moves_append: "same_moves ls ks \<Longrightarrow> same_moves ls' ks' \<Longrightarrow> same_moves (ls @ ls') (ks @ ks')"
  by (simp add: same_moves_def)

section \<open>A walk\<close>

abbreviation at_thread :: "('w, 'p) process \<Rightarrow> nat \<Rightarrow> mem \<Rightarrow> 'w \<times> event_log \<Rightarrow> 'p thread \<Rightarrow> ('w, 'p) process" where
  "at_thread s i m x t \<equiv> s\<lparr>pr_mem := m, pr_world := x, pr_threads := (pr_threads s)[i := t]\<rparr>"

lemma walk_once:
  assumes "i < length (pr_threads s)" and "next \<noteq> None \<longrightarrow> command_ok refs m b"
    and "walk_command (traced L obj) (pr_reg s) stub b r (m, q, x) = (next, (m', q', x'))"
  shows "process_step L refs obj g stub (at_thread s i m x \<lparr>th_queue = q, th_stack = Walk b r # as\<rparr>)
    (Redirected i (drop (length q) q')) (at_thread s i m' x' \<lparr>th_queue = q',
       th_stack = (case next of None \<Rightarrow> as | Some (b, r) \<Rightarrow> Walk b r # as)\<rparr>)"
  using walks [where s = "at_thread s i m x \<lparr>th_queue = q, th_stack = Walk b r # as\<rparr>" and i = i and as = as
      and refs = refs] assms
  by simp

text \<open>What the parser's promise about a buffer says of the command at its head.\<close>

lemma head_command_ok:
  assumes "driver_names refs ((c, p) # cs)" and "c = dec32 (mem_read m b 4)" and "p = mem_read m (b + 4) n"
    and "n = unat (IOC_SIZE c)"
  shows "command_ok refs m b"
proof -
  have "take 64 p = mem_read m (b + 4) 64" if "is_transaction c"
    using transaction_size [OF that] assms(3,4) by (simp add: mem_read_take)
  then show ?thesis using assms(1,2) by (auto simp: command_ok_def driver_names_def)
qed

lemma walk_run:
  "\<lbrakk> process_commands (traced L obj) (pr_reg s) stub b r (m, q, x) = (m', q', x'); unat b + unat r < 2 ^ 64;
     driver_names refs (fst (parse_commands (mem_read m b (unat r)))); i < length (pr_threads s);
     fixed_refs L refs obj \<rbrakk> \<Longrightarrow>
   \<exists>ls es. process_run L refs obj g stub (at_thread s i m x \<lparr>th_queue = q, th_stack = Walk b r # as\<rparr>) ls
       (at_thread s i m' x' \<lparr>th_queue = q', th_stack = as\<rparr>) \<and> q' = q @ es \<and> same_moves ls [Redirected i es]"
proof (induction "unat r" arbitrary: b r m q x rule: less_induct)
  case less
  define c where "c = dec32 (mem_read m b 4)"
  define n where "n = unat (IOC_SIZE c)"
  note turn = walk_turn [where s = "(m, q, x)" and b = b and r = r and c = c and n = n and L = "traced L obj"
      and reg = "pr_reg s" and stub = stub]
  show ?case
  proof (cases "4 + n \<le> unat r")
    case False
    then have w: "walk_command (traced L obj) (pr_reg s) stub b r (m, q, x) = (None, (m, q, x))"
      using turn by (simp add: c_def n_def)
    then have "(m', q', x') = (m, q, x)" using less.prems(1) by (simp add: walk_in_steps(2))
    then show ?thesis using run_one [OF walk_once [OF less.prems(4) _ w, of refs g as]]
      by (intro exI [of _ "[Redirected i []]"] exI [of _ "[]"]) (simp add: same_moves_def)
  next
    case True
    let ?b' = "b + of_nat (4 + n)" and ?r' = "r - of_nat (4 + n)"
    obtain m1 q1 x1 where s1: "(if is_transaction c then snd (processBinderTransaction (traced L obj) (pr_reg s) stub
        (b + 4) (m, q, x)) else (m, q, x)) = (m1, q1, x1)" by (rule prod_cases3)
    have w: "walk_command (traced L obj) (pr_reg s) stub b r (m, q, x) = (Some (?b', ?r'), (m1, q1, x1))"
      using turn True s1 by (simp add: c_def n_def)
    have go: "process_commands (traced L obj) (pr_reg s) stub ?b' ?r' (m1, q1, x1) = (m', q', x')"
      using less.prems(1) w by (simp add: walk_in_steps(2) [of _ _ _ b])
    have lim: "4 + n + unat ?r' < 2 ^ 64" "unat ?r' = unat r - (4 + n)"
      using True unat_lt_2p_64 [of r] unat_advance [OF True] by simp_all
    have ub: "unat ?b' = unat b + (4 + n)"
      using True less.prems(2) by (simp add: unat_word_ariths(1) unat_of_nat)
    have out: "m1 y = m y" if "\<not> in_region y (b + 4) n" for y
    proof (cases "is_transaction c")
      case True
      then obtain d where "processBinderTransaction (traced L obj) (pr_reg s) stub (b + 4) (m, q, x) = (d, (m1, q1, x1))"
        using s1 by (metis prod.collapse)
      from process_transaction_outside [OF this] that transaction_size [OF True] show ?thesis
        by (auto simp: in_region_def n_def)
    qed (use s1 in simp)
    have tl: "mem_read m1 ?b' (unat ?r') = mem_read m ?b' (unat ?r')"
      using read_behind [of "b + 4" n m1 m "unat ?r'"] out lim(1) by (simp add: algebra_simps)
    obtain cs rest where p: "parse_commands (mem_read m1 ?b' (unat ?r')) = (cs, rest)" by (rule prod.exhaust)
    have "parse_commands (mem_read m b (unat r)) = ((c, mem_read m (b + 4) n) # cs, rest)"
      unfolding c_def
      by (rule parse_buffer) (use p tl lim(2) True in \<open>simp_all add: n_def c_def\<close>)
    then have names: "driver_names refs ((c, mem_read m (b + 4) n) # cs)" using less.prems(3) by simp
    have ok: "command_ok refs m b" by (rule head_command_ok [OF names c_def refl n_def])
    obtain es where es: "q1 = q @ es"
      using walk_effect(1) [OF less.prems(5), of _ m b "pr_reg s" stub r q "fst x" "snd x" m1 q1 "fst x1" "snd x1"] ok w
      by fastforce
    have step: "process_step L refs obj g stub (at_thread s i m x \<lparr>th_queue = q, th_stack = Walk b r # as\<rparr>)
        (Redirected i es) (at_thread s i m1 x1 \<lparr>th_queue = q1, th_stack = Walk ?b' ?r' # as\<rparr>)"
      using walk_once [OF less.prems(4) _ w, of refs g as] ok es by simp
    have "driver_names refs (fst (parse_commands (mem_read m1 ?b' (unat ?r'))))"
      using names p by (simp add: driver_names_def)
    from less.hyps [OF _ go _ this less.prems(4,5)] lim ub True less.prems(2) obtain ls fs where
      "process_run L refs obj g stub (at_thread s i m1 x1 \<lparr>th_queue = q1, th_stack = Walk ?b' ?r' # as\<rparr>) ls
         (at_thread s i m' x' \<lparr>th_queue = q', th_stack = as\<rparr>)" "q' = q1 @ fs" "same_moves ls [Redirected i fs]"
      by auto
    then show ?thesis using run_append [OF run_one [OF step]] es
      by (intro exI [of _ "[Redirected i es] @ ls"] exI [of _ "es @ fs"]) (auto simp: same_moves_def)
  qed
qed

section \<open>A delivery\<close>

lemma advance_once:
  assumes "i < length (pr_threads s)" and "advance (traced L obj) (pr_reg s) f x = (out, x')"
  shows "process_step L refs obj g stub (at_thread s i m x \<lparr>th_queue = q, th_stack = Deliver f # as\<rparr>) Other
    (at_thread s i m x' \<lparr>th_queue = q, th_stack = push out as\<rparr>)"
  using advances [where s = "at_thread s i m x \<lparr>th_queue = q, th_stack = Deliver f # as\<rparr>" and i = i and as = as
      and refs = refs] assms
  by simp

lemma delivery_run:
  "\<lbrakk> run_delivery (traced L obj) (pr_reg s) f x = (res, x'); i < length (pr_threads s) \<rbrakk> \<Longrightarrow>
   \<exists>ls. process_run L refs obj g stub (at_thread s i m x \<lparr>th_queue = q, th_stack = Deliver f # as\<rparr>) ls
       (at_thread s i m x' \<lparr>th_queue = q, th_stack = as\<rparr>) \<and> same_moves ls []"
proof (induction "rank f" arbitrary: f x rule: less_induct)
  case less
  obtain out x1 where a: "advance (traced L obj) (pr_reg s) f x = (out, x1)" by (rule prod.exhaust)
  note step = advance_once [OF less.prems(2) a, where refs = refs and g = g and stub = stub and m = m and q = q and as = as]
  show ?case
  proof (cases out)
    case (Inl f')
    then have "rank f' < rank f" using a by (simp add: advance_rank)
    moreover have "run_delivery (traced L obj) (pr_reg s) f' x1 = (res, x')"
      using less.prems(1) a Inl by (simp add: run_delivery.simps [of _ _ f])
    ultimately obtain ls where
      "process_run L refs obj g stub (at_thread s i m x1 \<lparr>th_queue = q, th_stack = Deliver f' # as\<rparr>) ls
         (at_thread s i m x' \<lparr>th_queue = q, th_stack = as\<rparr>)" "same_moves ls []"
      using less.hyps less.prems(2) by blast
    then show ?thesis using run_append [OF run_one [OF step]] Inl
      by (intro exI [of _ "[Other] @ ls"]) (auto simp: push_def same_moves_def)
  next
    case (Inr r)
    then have "x1 = x'" using less.prems(1) a by (simp add: run_delivery.simps [of _ _ f])
    then show ?thesis using run_one [OF step] Inr
      by (intro exI [of _ "[Other]"]) (simp add: push_def same_moves_def)
  qed
qed

section \<open>Sessions\<close>

text \<open>A session between two of its steps: no thread is in the middle of anything.\<close>

definition at_rest :: "'w session \<Rightarrow> ('w, 'p) process" where
  "at_rest s = \<lparr>pr_reg = ss_reg s, pr_mem = ss_mem s,
     pr_threads = map (\<lambda>q. \<lparr>th_queue = q, th_stack = []\<rparr>) (ss_queues s), pr_world = ss_world s\<rparr>"

lemma at_rest_thread:
  assumes "i < length (ss_queues s)"
  shows "at_rest (s\<lparr>ss_mem := m, ss_queues := (ss_queues s)[i := q], ss_world := x\<rparr>) =
      at_thread (at_rest s) i m x \<lparr>th_queue = q, th_stack = []\<rparr>"
    and "i < length (pr_threads (at_rest s))" and "pr_reg (at_rest s) = ss_reg s"
    and "pr_threads (at_rest s) ! i = \<lparr>th_queue = ss_queues s ! i, th_stack = []\<rparr>"
    and "pr_mem (at_rest s) = ss_mem s" and "pr_world (at_rest s) = ss_world s"
  using assms by (simp_all add: at_rest_def map_update)

lemma at_rest_start: "at_rest (session_start n m w) = process_start n m w"
  by (simp add: at_rest_def session_start_def process_start_def)

lemma redirected_runs:
  assumes "fixed_refs L refs obj" "i < length (ss_queues s)" "buffer_ok refs bwr (ss_mem s)"
    and "processBinderWriteRead (traced L obj) (ss_reg s) stub bwr (ss_mem s, ss_queues s ! i, ss_world s) = (m', q', x')"
  shows "\<exists>ls. process_run L refs obj g stub (at_rest s) ls
      (at_rest (s\<lparr>ss_mem := m', ss_queues := (ss_queues s)[i := q'], ss_world := x'\<rparr>)) \<and>
    same_moves ls [Redirected i (drop (length (ss_queues s ! i)) q')]"
proof (cases "enter_walk bwr (ss_mem s)")
  case None
  then have "(m', q', x') = (ss_mem s, ss_queues s ! i, ss_world s)"
    using assms(4) by (simp add: walk_in_steps(1))
  then show ?thesis by (intro exI [of _ "[]"]) (simp add: no_step same_moves_def)
next
  case (Some br)
  then obtain b r where br: "enter_walk bwr (ss_mem s) = Some (b, r)" by (cases br) auto
  then have b: "b = bwr_read_buffer bwr" "r = bwr_read_consumed bwr"
    by (auto simp: enter_walk_def Let_def split: if_splits)
  note rest = at_rest_thread [OF assms(2)]
  have enter: "process_step L refs obj g stub (at_rest s) Other
      (at_thread (at_rest s) i (ss_mem s) (ss_world s) \<lparr>th_queue = ss_queues s ! i, th_stack = [Walk b r]\<rparr>)"
    using enters [of i "at_rest s" "ss_queues s ! i" "[]" bwr b r] br rest(2,4,5,6) by (simp add: at_rest_def)
  have "process_commands (traced L obj) (pr_reg (at_rest s)) stub b r (ss_mem s, ss_queues s ! i, ss_world s) = (m', q', x')"
    using assms(4) br by (simp add: walk_in_steps(1) rest(3))
  from walk_run [OF this _ _ rest(2) assms(1), of g "[]"] assms(3) b obtain ls es where
    "process_run L refs obj g stub (at_thread (at_rest s) i (ss_mem s) (ss_world s)
       \<lparr>th_queue = ss_queues s ! i, th_stack = [Walk b r]\<rparr>) ls (at_thread (at_rest s) i m' x' \<lparr>th_queue = q', th_stack = []\<rparr>)"
    "q' = ss_queues s ! i @ es" "same_moves ls [Redirected i es]" by (auto simp: buffer_ok_def)
  then show ?thesis using run_append [OF run_one [OF enter]]
    by (intro exI [of _ "[Other] @ ls"]) (auto simp: same_moves_def rest(1))
qed

lemma delivered_runs:
  assumes "i < length (ss_queues s)"
    and "stub_onTransact (traced L obj) (ss_reg s) g (ss_queues s ! i) data reply flags (ss_world s) = (st, reply', q', x')"
  shows "\<exists>ls. process_run L refs obj g stub (at_rest s) ls (at_rest (s\<lparr>ss_queues := (ss_queues s)[i := q'], ss_world := x'\<rparr>)) \<and>
    same_moves ls [case ss_queues s ! i of [] \<Rightarrow> Idle i | e # _ \<Rightarrow> Delivered i e]"
proof -
  note rest = at_rest_thread [OF assms(1)]
  have same: "at_rest (s\<lparr>ss_queues := (ss_queues s)[i := q], ss_world := x\<rparr>) =
      at_thread (at_rest s) i (ss_mem s) x \<lparr>th_queue = q, th_stack = []\<rparr>" for q x
    using rest(1) [where m = "ss_mem s" and q = q and x = x] by simp
  obtain out q1 x1 where d: "begin_delivery (traced L obj) g (ss_queues s ! i) data reply flags (ss_world s) = (out, q1, x1)"
    by (rule prod_cases3)
  have starts: "process_step L refs obj g stub (at_rest s) (case ss_queues s ! i of [] \<Rightarrow> Idle i | e # _ \<Rightarrow> Delivered i e)
      (at_thread (at_rest s) i (ss_mem s) x1 \<lparr>th_queue = q1, th_stack = push out []\<rparr>)"
    using begins [of i "at_rest s" "ss_queues s ! i" "[]"] d rest(2,4,5,6) by (simp add: at_rest_def)
  show ?thesis
  proof (cases out)
    case (Inr r)
    then have "q' = q1" "x' = x1" using assms(2) d by (auto simp: delivery_parts split: prod.splits)
    then show ?thesis using run_one [OF starts] Inr
      by (intro exI) (auto simp: push_def same_moves_def same)
  next
    case (Inl f)
    then obtain res where "run_delivery (traced L obj) (ss_reg s) f x1 = (res, x')" "q' = q1"
      using assms(2) d by (auto simp: delivery_parts split: prod.splits)
    from delivery_run [where s = "at_rest s", unfolded rest(3), OF this(1) rest(2), where refs = refs and g = g and stub = stub and m = "ss_mem s" and q = q1 and as = "[]"] obtain ls where
      "process_run L refs obj g stub (at_thread (at_rest s) i (ss_mem s) x1 \<lparr>th_queue = q1, th_stack = [Deliver f]\<rparr>) ls
         (at_thread (at_rest s) i (ss_mem s) x' \<lparr>th_queue = q1, th_stack = []\<rparr>)" "same_moves ls []" by blast
    then show ?thesis using run_append [OF run_one [OF starts]] Inl \<open>q' = q1\<close>
      by (intro exI [of _ "[case ss_queues s ! i of [] \<Rightarrow> Idle i | e # _ \<Rightarrow> Delivered i e] @ ls"])
        (auto simp: push_def same_moves_def same split: list.splits)
  qed
qed

lemma session_step_runs:
  assumes "fixed_refs L refs obj"
  shows "session_step L refs obj g stub s lb s' \<Longrightarrow>
    \<exists>ls. process_run L refs obj g stub (at_rest s) ls (at_rest s') \<and> same_moves ls [lb]"
proof (induction rule: session_step.induct)
  case (registered can_reserve s code data st reg' x')
  then have "process_step L refs obj g stub (at_rest s) (Registered st) (at_rest (s\<lparr>ss_reg := reg', ss_world := x'\<rparr>))"
    using registers [where s = "at_rest s"] by (simp add: at_rest_def)
  then show ?case using run_one by (intro exI [of _ "[Registered st]"]) (auto simp: same_moves_def)
next
  case (redirected i s bwr m' q' x')
  then show ?case by (intro redirected_runs [OF assms])
next
  case (delivered i s data reply flags st reply' q' x')
  then show ?case by (intro delivered_runs)
next
  case (other s w' m')
  have "process_step L refs obj g stub (at_rest s) Other (at_rest (s\<lparr>ss_mem := m', ss_world := (w', snd (ss_world s))\<rparr>))"
    using others [where s = "at_rest s"] by (simp add: at_rest_def)
  then show ?case using run_one by (intro exI [of _ "[Other]"]) (auto simp: same_moves_def)
qed

lemma session_run_runs:
  assumes "fixed_refs L refs obj"
  shows "session_run L refs obj g stub s ls s' \<Longrightarrow>
    \<exists>ks. process_run L refs obj g stub (at_rest s) ks (at_rest s') \<and> same_moves ks ls"
proof (induction rule: session_run.induct)
  case start
  then show ?case by (intro exI [of _ "[]"]) (simp add: no_step same_moves_def)
next
  case (more_steps ls s1 l s2)
  then show ?case using session_step_runs [OF assms more_steps.hyps(2)] run_append same_moves_append by blast
qed

text \<open>
  Whatever a session can do with each read buffer processed and each transaction delivered in
  one step, the process can do in the small steps, from the same state to the same state and with
  the same transactions redirected and delivered on every thread.
\<close>

lemma sessions_are_interleavings:
  assumes "fixed_refs L refs obj" and "session_run L refs obj g stub (session_start n m w) ls s"
  shows "\<exists>ks. process_run L refs obj g stub (process_start n m w) ks (at_rest s) \<and>
    (\<forall>i. redirected_to i ks = redirected_to i ls \<and> delivered_to i ks = delivered_to i ls)"
  using session_run_runs [OF assms] by (simp add: same_moves_def at_rest_start)

end
