(* ===== verification/Wire.thy ===== *)
theory Wire
  imports List_Library
begin

text \<open>
  Parcels as both ends of a transaction see them: a sequence of cells (bytes, with the objects
  among them) divided by the position into what has been read and what is still to come. The
  marshalling itself is code of \<open>libbinder.so\<close> and of \<open>android.os.Parcel\<close>, which is not in the
  repository; \<open>native_laws\<close> and \<open>java_laws\<close> state what it documents: a write appends the encoding
  of its value, a read of that encoding returns the value, and \<open>appendFrom\<close> copies a range. Reading
  a null binder is an error in the native code (\<open>Parcel.h\<close>), in Java it returns null.
\<close>

section \<open>The Java view of a parcel\<close>

text \<open>
  The methods of \<open>android.os.Parcel\<close> the service uses. A method that can throw returns whether it
  returned normally, and the parcel it leaves. Reading never throws; past the end it returns 0 or
  null.
\<close>

record 'p java_parcel =
  jobtain :: 'p
  jreadInt :: "'p \<Rightarrow> u32 \<times> 'p"
  jreadLong :: "'p \<Rightarrow> u64 \<times> 'p"
  jreadStrongBinder :: "'p \<Rightarrow> ptr \<times> 'p"
  jwriteInt :: "u32 \<Rightarrow> 'p \<Rightarrow> bool \<times> 'p"
  jwriteLong :: "u64 \<Rightarrow> 'p \<Rightarrow> bool \<times> 'p"
  jwriteStrongBinder :: "ptr \<Rightarrow> 'p \<Rightarrow> bool \<times> 'p"
  jwriteIntArray :: "u32 list \<Rightarrow> 'p \<Rightarrow> bool \<times> 'p"
  jappendFrom :: "'p \<Rightarrow> u32 \<Rightarrow> u32 \<Rightarrow> 'p \<Rightarrow> bool \<times> 'p"
  jdataSize :: "'p \<Rightarrow> u32"
  jdataPosition :: "'p \<Rightarrow> u32"
  jsetDataPosition :: "u32 \<Rightarrow> 'p \<Rightarrow> bool \<times> 'p"
  jsetDataSize :: "u32 \<Rightarrow> 'p \<Rightarrow> bool \<times> 'p"

section \<open>Cells\<close>

text \<open>
  \<open>stream a b\<close> is the parcel with the cells \<open>a @ b\<close> and its position behind \<open>a\<close>.
\<close>

record ('p, 'c) wire =
  stream :: "'c list \<Rightarrow> 'c list \<Rightarrow> 'p"
  cells :: "'p \<Rightarrow> 'c list"
  int_cells :: "u32 \<Rightarrow> 'c list"
  long_cells :: "u64 \<Rightarrow> 'c list"
  binder_cells :: "ptr \<Rightarrow> 'c list"

text \<open>The largest parcel, and the largest encoding of a single value.\<close>

abbreviation parcel_limit :: nat where "parcel_limit \<equiv> 2 ^ 31"

definition wire_laws :: "('p, 'c) wire \<Rightarrow> bool" where
  "wire_laws V \<longleftrightarrow>
     (\<forall>a b. cells V (stream V a b) = a @ b) \<and> (\<forall>p. \<exists>a b. p = stream V a b) \<and>
     (\<forall>v. length (int_cells V v) \<le> 64) \<and> (\<forall>v. length (long_cells V v) \<le> 64) \<and>
     (\<forall>p. length (binder_cells V p) \<le> 64)"

definition native_laws :: "('w, 'p, 'x) libbinder_ops_scheme \<Rightarrow> ('p, 'c) wire \<Rightarrow> bool" where
  "native_laws L V \<longleftrightarrow> wire_laws V \<and>
     newParcel L = stream V [] [] \<and> (\<forall>p. freeData L p = stream V [] []) \<and>
     (\<forall>a b. dataSize L (stream V a b) = of_nat (length (a @ b))) \<and>
     (\<forall>a b. dataPosition L (stream V a b) = of_nat (length a)) \<and>
     (\<forall>v a. length (a @ int_cells V v) < parcel_limit \<longrightarrow>
        writeInt32 L v (stream V a []) = (status_of OK, stream V (a @ int_cells V v) []) \<and>
        writeUint32 L v (stream V a []) = (status_of OK, stream V (a @ int_cells V v) [])) \<and>
     (\<forall>v a. length (a @ long_cells V v) < parcel_limit \<longrightarrow>
        writeUint64 L v (stream V a []) = (status_of OK, stream V (a @ long_cells V v) [])) \<and>
     (\<forall>p a. length (a @ binder_cells V p) < parcel_limit \<longrightarrow>
        writeStrongBinder L p (stream V a []) = (status_of OK, stream V (a @ binder_cells V p) [])) \<and>
     (\<forall>a b d off n. unat off + unat n \<le> length (a @ b) \<longrightarrow> length d + unat n < parcel_limit \<longrightarrow>
        appendFrom L (stream V a b) off n (stream V d []) =
          (status_of OK, stream V (d @ take (unat n) (drop (unat off) (a @ b))) [])) \<and>
     (\<forall>v a b. readInt32 L (stream V a (int_cells V v @ b)) = (status_of OK, v, stream V (a @ int_cells V v) b) \<and>
        readUint32 L (stream V a (int_cells V v @ b)) = (status_of OK, v, stream V (a @ int_cells V v) b) \<and>
        readInt32Value L (stream V a (int_cells V v @ b)) = (v, stream V (a @ int_cells V v) b)) \<and>
     (\<forall>v a b. readUint64Value L (stream V a (long_cells V v @ b)) = (v, stream V (a @ long_cells V v) b)) \<and>
     (\<forall>p a b w. p \<noteq> nullptr \<longrightarrow> (\<exists>w'. readStrongBinder L (stream V a (binder_cells V p @ b)) w =
        (status_of OK, p, stream V (a @ binder_cells V p) b, w'))) \<and>
     (\<forall>a b w. \<exists>s d w'. readStrongBinder L (stream V a (binder_cells V nullptr @ b)) w = (s, nullptr, d, w') \<and> \<not> is_ok s)"

definition java_laws :: "'p java_parcel \<Rightarrow> ('p, 'c) wire \<Rightarrow> bool" where
  "java_laws J V \<longleftrightarrow> wire_laws V \<and> jobtain J = stream V [] [] \<and>
     (\<forall>a b. jdataSize J (stream V a b) = of_nat (length (a @ b))) \<and>
     (\<forall>a b. jdataPosition J (stream V a b) = of_nat (length a)) \<and>
     (\<forall>v a. length (a @ int_cells V v) < parcel_limit \<longrightarrow>
        jwriteInt J v (stream V a []) = (True, stream V (a @ int_cells V v) [])) \<and>
     (\<forall>v a. length (a @ long_cells V v) < parcel_limit \<longrightarrow>
        jwriteLong J v (stream V a []) = (True, stream V (a @ long_cells V v) [])) \<and>
     (\<forall>p a. length (a @ binder_cells V p) < parcel_limit \<longrightarrow>
        jwriteStrongBinder J p (stream V a []) = (True, stream V (a @ binder_cells V p) [])) \<and>
     (\<forall>vs a. length (a @ concat (map (int_cells V) (of_nat (length vs) # vs))) < parcel_limit \<longrightarrow>
        jwriteIntArray J vs (stream V a []) =
          (True, stream V (a @ concat (map (int_cells V) (of_nat (length vs) # vs))) [])) \<and>
     (\<forall>a b d off n. unat off + unat n \<le> length (a @ b) \<longrightarrow> length d + unat n < parcel_limit \<longrightarrow>
        jappendFrom J (stream V a b) off n (stream V d []) =
          (True, stream V (d @ take (unat n) (drop (unat off) (a @ b))) [])) \<and>
     (\<forall>v a b. jreadInt J (stream V a (int_cells V v @ b)) = (v, stream V (a @ int_cells V v) b)) \<and>
     (\<forall>v a b. jreadLong J (stream V a (long_cells V v @ b)) = (v, stream V (a @ long_cells V v) b)) \<and>
     (\<forall>p a b. jreadStrongBinder J (stream V a (binder_cells V p @ b)) = (p, stream V (a @ binder_cells V p) b)) \<and>
     (\<forall>v a b. unat v \<le> length (a @ b) \<longrightarrow>
        jsetDataPosition J v (stream V a b) = (True, stream V (take (unat v) (a @ b)) (drop (unat v) (a @ b))))"

end
