(* ===== verification/Interceptor_Service.thy ===== *)
theory Interceptor_Service
  imports Wire Interceptor
begin

text \<open>
  The other end of the interceptor's protocol, \<open>interceptors/BinderInterceptor.kt\<close>: the service
  asks the native code for its backdoor, registers an interceptor for a target, and answers the
  calls before and after a transaction through two hooks its subclasses override. An \<open>IBinder\<close> is
  the name of an object, \<open>null\<close> the null pointer. Statements that only log, and the recycling of
  parcels, are left out.
\<close>

section \<open>Constants and results\<close>

definition BACKDOOR_TRANSACTION_CODE :: u32 where "BACKDOOR_TRANSACTION_CODE = 0xdeadbeef"
definition REGISTER_INTERCEPTOR_CODE :: u32 where "REGISTER_INTERCEPTOR_CODE = 1"
definition PRE_TRANSACT_CODE :: u32 where "PRE_TRANSACT_CODE = 1"
definition POST_TRANSACT_CODE :: u32 where "POST_TRANSACT_CODE = 2"
definition RESULT_SKIP :: u32 where "RESULT_SKIP = 1"
definition RESULT_CONTINUE :: u32 where "RESULT_CONTINUE = 2"
definition RESULT_OVERRIDE_REPLY :: u32 where "RESULT_OVERRIDE_REPLY = 3"

lemmas service_constants = BACKDOOR_TRANSACTION_CODE_def REGISTER_INTERCEPTOR_CODE_def PRE_TRANSACT_CODE_def
  POST_TRANSACT_CODE_def RESULT_SKIP_def RESULT_CONTINUE_def RESULT_OVERRIDE_REPLY_def

datatype 'p outcome = Skip | Continue | OverrideReply u32 'p

text \<open>
  What a subclass and the platform supply: the two hooks (\<open>None\<close> when they throw), the
  \<open>onTransact\<close> of \<open>Binder\<close>, and \<open>IBinder.transact\<close> with its success and the reply.
\<close>

record ('w, 'p) service_ops =
  onPreTransact :: "ptr \<Rightarrow> u32 \<Rightarrow> u32 \<Rightarrow> u32 \<Rightarrow> u32 \<Rightarrow> 'p \<Rightarrow> 'w \<Rightarrow> 'p outcome option \<times> 'w"
  onPostTransact :: "ptr \<Rightarrow> u32 \<Rightarrow> u32 \<Rightarrow> u32 \<Rightarrow> u32 \<Rightarrow> 'p \<Rightarrow> 'p option \<Rightarrow> u32 \<Rightarrow> 'w \<Rightarrow> 'p outcome option \<times> 'w"
  super_onTransact :: "u32 \<Rightarrow> 'p \<Rightarrow> 'p option \<Rightarrow> u32 \<Rightarrow> 'w \<Rightarrow> bool option \<times> 'p option \<times> 'w"
  ibinder_transact :: "ptr \<Rightarrow> u32 \<Rightarrow> 'p \<Rightarrow> 'p \<Rightarrow> u32 \<Rightarrow> 'w \<Rightarrow> bool option \<times> 'p \<times> 'w"

text \<open>The hooks of the class itself, for a subclass that does not override them.\<close>

definition default_onPreTransact :: "ptr \<Rightarrow> u32 \<Rightarrow> u32 \<Rightarrow> u32 \<Rightarrow> u32 \<Rightarrow> 'p \<Rightarrow> 'w \<Rightarrow> 'p outcome option \<times> 'w" where
  "default_onPreTransact target code flags callingUid callingPid data w = (Some Skip, w)"

definition default_onPostTransact ::
  "ptr \<Rightarrow> u32 \<Rightarrow> u32 \<Rightarrow> u32 \<Rightarrow> u32 \<Rightarrow> 'p \<Rightarrow> 'p option \<Rightarrow> u32 \<Rightarrow> 'w \<Rightarrow> 'p outcome option \<times> 'w" where
  "default_onPostTransact target code flags callingUid callingPid data reply resultCode w = (Some Skip, w)"

section \<open>Backdoor and registration\<close>

definition getBinderBackdoor ::
  "'p java_parcel \<Rightarrow> ('w, 'p) service_ops \<Rightarrow> ptr \<Rightarrow> 'w \<Rightarrow> ptr \<times> 'w" where
  "getBinderBackdoor J S binder w =
     (let data = jobtain J; reply = jobtain J
      in case ibinder_transact S binder BACKDOOR_TRANSACTION_CODE data reply 0 w of
           (Some True, reply, w) \<Rightarrow> (fst (jreadStrongBinder J reply), w)
         | (_, reply, w) \<Rightarrow> (nullptr, w))"

text \<open>The two binders and the codes; \<open>False\<close> when a write throws.\<close>

definition registration_data :: "'p java_parcel \<Rightarrow> ptr \<Rightarrow> ptr \<Rightarrow> u32 list \<Rightarrow> bool \<times> 'p" where
  "registration_data J target interceptor interceptedCodes =
     (let (ok, data) = jwriteStrongBinder J target (jobtain J)
      in if \<not> ok then (False, data) else let (ok, data) = jwriteStrongBinder J interceptor data
      in if \<not> ok then (False, data) else jwriteIntArray J interceptedCodes data)"

definition registerBinderInterceptor ::
  "'p java_parcel \<Rightarrow> ('w, 'p) service_ops \<Rightarrow> ptr \<Rightarrow> ptr \<Rightarrow> ptr \<Rightarrow> u32 list \<Rightarrow> 'w \<Rightarrow> 'w" where
  "registerBinderInterceptor J S backdoor target interceptor interceptedCodes w =
     (let (ok, data) = registration_data J target interceptor interceptedCodes; reply = jobtain J
      in if \<not> ok then w
         else snd (snd (ibinder_transact S backdoor REGISTER_INTERCEPTOR_CODE data reply 0 w)))"

section \<open>Answering a call\<close>

text \<open>
  The transaction's own data are copied into a parcel of their own for the hook. An exception,
  in the copying or in the hook, counts as \<open>Skip\<close>.
\<close>

definition handlePreTransact ::
  "'p java_parcel \<Rightarrow> ('w, 'p) service_ops \<Rightarrow> 'p \<Rightarrow> 'w \<Rightarrow> 'p outcome \<times> 'w" where
  "handlePreTransact J S data w =
     (let (target, data) = jreadStrongBinder J data;
          (transactionCode, data) = jreadInt J data;
          (transactionFlags, data) = jreadInt J data;
          (callingUid, data) = jreadInt J data;
          (callingPid, data) = jreadInt J data;
          (dataSize, data) = jreadLong J data;
          (ok, transactionData) = jappendFrom J data (jdataPosition J data) (ucast dataSize) (jobtain J)
      in if \<not> ok then (Skip, w) else let (ok, transactionData) = jsetDataPosition J 0 transactionData
      in if \<not> ok then (Skip, w)
      else case onPreTransact S target transactionCode transactionFlags callingUid callingPid transactionData w of
             (Some r, w) \<Rightarrow> (r, w) | (None, w) \<Rightarrow> (Skip, w))"

definition handlePostTransact ::
  "'p java_parcel \<Rightarrow> ('w, 'p) service_ops \<Rightarrow> 'p \<Rightarrow> 'w \<Rightarrow> 'p outcome \<times> 'w" where
  "handlePostTransact J S data w =
     (let (target, data) = jreadStrongBinder J data;
          (transactionCode, data) = jreadInt J data;
          (transactionFlags, data) = jreadInt J data;
          (callingUid, data) = jreadInt J data;
          (callingPid, data) = jreadInt J data;
          (resultCode, data) = jreadInt J data;
          (size, data) = jreadLong J data;
          dataSize = (ucast size :: u32);
          (ok, transactionData) = jappendFrom J data (jdataPosition J data) dataSize (jobtain J)
      in if \<not> ok then (Skip, w) else let (ok, transactionData) = jsetDataPosition J 0 transactionData
      in if \<not> ok then (Skip, w) else let (ok, data) = jsetDataPosition J (jdataPosition J data + dataSize) data
      in if \<not> ok then (Skip, w)
      else let (size, data) = jreadLong J data;
               replySize = (ucast size :: u32);
               (ok, reply) =
                 (if sint replySize > 0
                  then let (ok, transactionReply) = jappendFrom J data (jdataPosition J data) replySize (jobtain J)
                       in if \<not> ok then (False, None)
                          else let (ok, transactionReply) = jsetDataPosition J 0 transactionReply
                               in (ok, Some transactionReply)
                  else (True, None))
      in if \<not> ok then (Skip, w)
      else case onPostTransact S target transactionCode transactionFlags callingUid callingPid transactionData
               reply resultCode w of
             (Some r, w) \<Rightarrow> (r, w) | (None, w) \<Rightarrow> (Skip, w))"

text \<open>After an exception the reply says \<open>Skip\<close>; exceptions in there are ignored.\<close>

definition reset_reply :: "'p java_parcel \<Rightarrow> 'p \<Rightarrow> 'p" where
  "reset_reply J reply =
     (let (ok, reply) = jsetDataPosition J 0 reply
      in if \<not> ok then reply else let (ok, reply) = jsetDataSize J 0 reply
      in if \<not> ok then reply else snd (jwriteInt J RESULT_SKIP reply))"

definition writeResultToReply :: "'p java_parcel \<Rightarrow> 'p outcome \<Rightarrow> 'p \<Rightarrow> 'p" where
  "writeResultToReply J result reply =
     (let (ok, reply) =
        (case result of
           Skip \<Rightarrow> jwriteInt J RESULT_SKIP reply
         | Continue \<Rightarrow> jwriteInt J RESULT_CONTINUE reply
         | OverrideReply code r \<Rightarrow>
             let (ok, reply) = jwriteInt J RESULT_OVERRIDE_REPLY reply
             in if \<not> ok then (False, reply) else let (ok, reply) = jwriteInt J code reply
             in if \<not> ok then (False, reply) else let (ok, reply) = jwriteLong J (scast (jdataSize J r)) reply
             in if \<not> ok then (False, reply) else jappendFrom J r 0 (jdataSize J r) reply)
      in if ok then reply else reset_reply J reply)"

text \<open>
  \<open>onTransact\<close>: whether the code was handled, and the reply. Answering without a reply parcel
  throws, which is caught like every other exception.
\<close>

definition service_onTransact ::
  "'p java_parcel \<Rightarrow> ('w, 'p) service_ops \<Rightarrow> u32 \<Rightarrow> 'p \<Rightarrow> 'p option \<Rightarrow> u32 \<Rightarrow> 'w \<Rightarrow> bool \<times> 'p option \<times> 'w" where
  "service_onTransact J S code data reply flags w =
     (if code = PRE_TRANSACT_CODE then
        let (result, w) = handlePreTransact J S data w in (True, map_option (writeResultToReply J result) reply, w)
      else if code = POST_TRANSACT_CODE then
        let (result, w) = handlePostTransact J S data w in (True, map_option (writeResultToReply J result) reply, w)
      else case super_onTransact S code data reply flags w of
             (Some b, reply, w) \<Rightarrow> (b, reply, w)
           | (None, reply, w) \<Rightarrow> (True, map_option (reset_reply J) reply, w))"

end
