(* ===== verification/Service_Props.thy ===== *)
theory Service_Props
  imports Interceptor_Service Interleaving
begin

text \<open>
  The two ends of the protocol put together: what the native code writes the service reads, what
  the service answers the native code understands, so that an intercepted transaction is decided
  by the hooks of the service as if they were called directly.
\<close>

section \<open>Sizes\<close>

definition size64 :: "'c list \<Rightarrow> u64" where "size64 xs = of_nat (length xs)"
definition size32 :: "'c list \<Rightarrow> u32" where "size32 xs = of_nat (length xs)"

lemma size_Nil [simp]: "size64 [] = 0" "size32 [] = 0"
  by (simp_all add: size64_def size32_def)

lemma unat_sizes [simp]:
  assumes "length xs < parcel_limit"
  shows "unat (size64 xs) = length xs" "unat (size32 xs) = length xs"
  using assms by (simp_all add: size64_def size32_def unat_of_nat)

lemma sizes_convert [simp]:
  assumes "length xs < parcel_limit"
  shows "ucast (size64 xs) = size32 xs" "scast (size32 xs) = size64 xs" "0 <s size32 xs \<longleftrightarrow> xs \<noteq> []"
    "sint (size32 xs) = int (length xs)"
proof -
  have u: "uint (size32 xs) = int (length xs)" using assms by (simp add: uint_nat)
  show s: "sint (size32 xs) = int (length xs)"
    using assms by (simp add: sint_uint u signed_take_bit_int_eq_self)
  show "ucast (size64 xs) = size32 xs" using assms
    by (simp add: word_unat_eq_iff unsigned_ucast_eq take_bit_nat_eq_self)
  show "scast (size32 xs) = size64 xs" unfolding scast_eq s by (simp add: size64_def)
  show "0 <s size32 xs \<longleftrightarrow> xs \<noteq> []" by (simp add: word_sless_alt s)
qed

section \<open>Reading and writing cells\<close>

text \<open>The ranges \<open>appendFrom\<close> copies and the places \<open>setDataPosition\<close> sets.\<close>

lemma native_copy:
  assumes "native_laws L V" "unat off + unat n \<le> length (a @ b)" "length d + unat n < parcel_limit"
  shows "appendFrom L (stream V a b) off n (stream V d []) =
    (status_of OK, stream V (d @ take (unat n) (drop (unat off) (a @ b))) [])"
  using assms unfolding native_laws_def by blast

lemma java_copy:
  assumes "java_laws J V" "unat off + unat n \<le> length (a @ b)" "length d + unat n < parcel_limit"
  shows "jappendFrom J (stream V a b) off n (stream V d []) =
    (True, stream V (d @ take (unat n) (drop (unat off) (a @ b))) [])"
  using assms unfolding java_laws_def by blast

lemma java_place:
  assumes "java_laws J V" "unat v \<le> length (a @ b)"
  shows "jsetDataPosition J v (stream V a b) = (True, stream V (take (unat v) (a @ b)) (drop (unat v) (a @ b)))"
  using assms unfolding java_laws_def by blast

lemma native_writes:
  assumes "native_laws L V"
  shows "newParcel L = stream V [] []" "freeData L p = stream V [] []"
    and "dataSize L (stream V a b) = size64 (a @ b)"
    and "length (a @ int_cells V v) < parcel_limit \<Longrightarrow>
      writeInt32 L v (stream V a []) = (status_of OK, stream V (a @ int_cells V v) [])"
    and "length (a @ int_cells V v) < parcel_limit \<Longrightarrow>
      writeUint32 L v (stream V a []) = (status_of OK, stream V (a @ int_cells V v) [])"
    and "length (a @ long_cells V u) < parcel_limit \<Longrightarrow>
      writeUint64 L u (stream V a []) = (status_of OK, stream V (a @ long_cells V u) [])"
    and "length (a @ binder_cells V t) < parcel_limit \<Longrightarrow>
      writeStrongBinder L t (stream V a []) = (status_of OK, stream V (a @ binder_cells V t) [])"
    and "length (d @ a @ b) < parcel_limit \<Longrightarrow>
      appendFrom L (stream V a b) 0 (size64 (a @ b)) (stream V d []) = (status_of OK, stream V (d @ a @ b) [])"
proof -
  assume "length (d @ a @ b) < parcel_limit"
  then show "appendFrom L (stream V a b) 0 (size64 (a @ b)) (stream V d []) = (status_of OK, stream V (d @ a @ b) [])"
    using native_copy [OF assms, of 0 "size64 (a @ b)" a b d] by simp
qed (use assms in \<open>auto simp: native_laws_def size64_def\<close>)

lemma native_reads:
  assumes "native_laws L V"
  shows "readInt32 L (stream V a (int_cells V v @ b)) = (status_of OK, v, stream V (a @ int_cells V v) b)"
    and "readInt32 L (stream V a (int_cells V v)) = (status_of OK, v, stream V (a @ int_cells V v) [])"
    and "readUint32 L (stream V a (int_cells V v @ b)) = (status_of OK, v, stream V (a @ int_cells V v) b)"
    and "readInt32Value L (stream V a (int_cells V v @ b)) = (v, stream V (a @ int_cells V v) b)"
    and "readUint64Value L (stream V a (long_cells V u @ b)) = (u, stream V (a @ long_cells V u) b)"
    and "length (a @ b) < parcel_limit \<Longrightarrow> length (d @ b) < parcel_limit \<Longrightarrow>
      appendFrom L (stream V a b) (dataPosition L (stream V a b)) (size64 b) (stream V d []) =
        (status_of OK, stream V (d @ b) [])"
proof -
  have laws: "readInt32 L (stream V a (int_cells V v @ b)) = (status_of OK, v, stream V (a @ int_cells V v) b)" for b
    using assms by (simp add: native_laws_def)
  then show "readInt32 L (stream V a (int_cells V v @ b)) = (status_of OK, v, stream V (a @ int_cells V v) b)"
    "readInt32 L (stream V a (int_cells V v)) = (status_of OK, v, stream V (a @ int_cells V v) [])"
    using laws [of "[]"] by simp_all
next
  assume l: "length (a @ b) < parcel_limit" "length (d @ b) < parcel_limit"
  have pos: "dataPosition L (stream V a b) = size64 a" using assms by (simp add: native_laws_def size64_def)
  then show "appendFrom L (stream V a b) (dataPosition L (stream V a b)) (size64 b) (stream V d []) =
      (status_of OK, stream V (d @ b) [])" using l native_copy [OF assms, of "size64 a" "size64 b" a b d] by (simp add: pos)
qed (use assms in \<open>simp_all add: native_laws_def\<close>)

lemma java_writes:
  assumes "java_laws J V"
  shows "jobtain J = stream V [] []" "jdataSize J (stream V a b) = size32 (a @ b)"
    and "length (a @ int_cells V v) < parcel_limit \<Longrightarrow>
      jwriteInt J v (stream V a []) = (True, stream V (a @ int_cells V v) [])"
    and "length (a @ long_cells V u) < parcel_limit \<Longrightarrow>
      jwriteLong J u (stream V a []) = (True, stream V (a @ long_cells V u) [])"
    and "length (a @ binder_cells V t) < parcel_limit \<Longrightarrow>
      jwriteStrongBinder J t (stream V a []) = (True, stream V (a @ binder_cells V t) [])"
    and "length (a @ concat (map (int_cells V) (size32 vs # vs))) < parcel_limit \<Longrightarrow>
      jwriteIntArray J vs (stream V a []) = (True, stream V (a @ concat (map (int_cells V) (size32 vs # vs))) [])"
    and "length (d @ a @ b) < parcel_limit \<Longrightarrow>
      jappendFrom J (stream V a b) 0 (size32 (a @ b)) (stream V d []) = (True, stream V (d @ a @ b) [])"
proof -
  assume "length (d @ a @ b) < parcel_limit"
  then show "jappendFrom J (stream V a b) 0 (size32 (a @ b)) (stream V d []) = (True, stream V (d @ a @ b) [])"
    using java_copy [OF assms, of 0 "size32 (a @ b)" a b d] by simp
qed (use assms in \<open>auto simp: java_laws_def size32_def\<close>)

lemma java_reads:
  assumes "java_laws J V"
  shows "jreadInt J (stream V a (int_cells V v @ b)) = (v, stream V (a @ int_cells V v) b)"
    and "jreadLong J (stream V a (long_cells V u @ b)) = (u, stream V (a @ long_cells V u) b)"
    and "jreadLong J (stream V a (long_cells V u)) = (u, stream V (a @ long_cells V u) [])"
    and "jreadStrongBinder J (stream V a (binder_cells V t @ b)) = (t, stream V (a @ binder_cells V t) b)"
    and "jreadStrongBinder J (stream V a (binder_cells V t)) = (t, stream V (a @ binder_cells V t) [])"
    and "jsetDataPosition J 0 (stream V a b) = (True, stream V [] (a @ b))"
proof -
  have laws: "jreadLong J (stream V a (long_cells V u @ b)) = (u, stream V (a @ long_cells V u) b)"
    "jreadStrongBinder J (stream V a (binder_cells V t @ b)) = (t, stream V (a @ binder_cells V t) b)" for b
    using assms by (simp_all add: java_laws_def)
  then show "jreadLong J (stream V a (long_cells V u @ b)) = (u, stream V (a @ long_cells V u) b)"
    "jreadLong J (stream V a (long_cells V u)) = (u, stream V (a @ long_cells V u) [])"
    "jreadStrongBinder J (stream V a (binder_cells V t @ b)) = (t, stream V (a @ binder_cells V t) b)"
    "jreadStrongBinder J (stream V a (binder_cells V t)) = (t, stream V (a @ binder_cells V t) [])"
    using laws [of "[]"] by simp_all
qed (use assms in \<open>simp_all add: java_laws_def\<close>)

text \<open>Copying and skipping the next \<open>c\<close> cells, in the middle of a parcel and at its end.\<close>

lemma java_section:
  assumes "java_laws J V" "length (a @ c @ b) < parcel_limit"
  shows "jappendFrom J (stream V a (c @ b)) (jdataPosition J (stream V a (c @ b))) (size32 c) (stream V [] []) =
      (True, stream V c [])"
    and "jsetDataPosition J (jdataPosition J (stream V a (c @ b)) + size32 c) (stream V a (c @ b)) = (True, stream V (a @ c) b)"
proof -
  have pos: "jdataPosition J (stream V a (c @ b)) = size32 a" using assms by (simp add: java_laws_def size32_def)
  then show "jappendFrom J (stream V a (c @ b)) (jdataPosition J (stream V a (c @ b))) (size32 c) (stream V [] []) =
      (True, stream V c [])"
    using java_copy [OF assms(1), of "size32 a" "size32 c" a "c @ b" "[]"] assms(2) by simp
  have "unat (size32 (a @ c)) = length (a @ c)" using assms(2) by (intro unat_sizes) simp
  then have u: "unat (size32 a + size32 c) = length (a @ c)" by (simp add: size32_def)
  then show "jsetDataPosition J (jdataPosition J (stream V a (c @ b)) + size32 c) (stream V a (c @ b)) =
      (True, stream V (a @ c) b)"
    using java_place [OF assms(1), of "size32 a + size32 c" a "c @ b"] unfolding pos u by simp
qed

section \<open>The call before the transaction\<close>

definition call_cells :: "('p, 'c) wire \<Rightarrow> ptr \<Rightarrow> u32 \<Rightarrow> u32 \<Rightarrow> u32 \<Rightarrow> u32 \<Rightarrow> 'c list" where
  "call_cells V t c f uid pid = binder_cells V t @ int_cells V c @ int_cells V f @ int_cells V uid @ int_cells V pid"

definition pre_cells :: "('p, 'c) wire \<Rightarrow> ptr \<Rightarrow> u32 \<Rightarrow> u32 \<Rightarrow> u32 \<Rightarrow> u32 \<Rightarrow> 'c list \<Rightarrow> 'c list" where
  "pre_cells V t c f uid pid ds = call_cells V t c f uid pid @ long_cells V (size64 ds) @ ds"

definition post_cells ::
  "('p, 'c) wire \<Rightarrow> ptr \<Rightarrow> u32 \<Rightarrow> u32 \<Rightarrow> u32 \<Rightarrow> u32 \<Rightarrow> u32 \<Rightarrow> 'c list \<Rightarrow> 'c list \<Rightarrow> 'c list" where
  "post_cells V t c f uid pid res ds rs = call_cells V t c f uid pid @ int_cells V res @
     long_cells V (size64 ds) @ ds @ long_cells V (size64 rs) @ rs"

lemmas cells_defs = call_cells_def pre_cells_def post_cells_def

text \<open>Room for two parcels and the values around them.\<close>

definition small :: "'c list \<Rightarrow> bool" where "small ds \<longleftrightarrow> length ds < 2 ^ 29"

lemma encodings_short:
  assumes "wire_laws V"
  shows "length (int_cells V v) \<le> 64" "length (long_cells V u) \<le> 64" "length (binder_cells V t) \<le> 64"
  using assms by (simp_all add: wire_laws_def)

lemma cells_fit:
  assumes "wire_laws V" "small ds" "small rs"
  shows "length (pre_cells V t c f uid pid ds) < parcel_limit"
    and "length (post_cells V t c f uid pid res ds rs) < parcel_limit"
proof -
  note short = encodings_short [OF assms(1)]
  note s = short(3) [of t] short(1) [of c] short(1) [of f] short(1) [of uid] short(1) [of pid] short(1) [of res]
    short(2) [of "size64 ds"] short(2) [of "size64 rs"]
  show "length (pre_cells V t c f uid pid ds) < parcel_limit"
    using assms(2) s by (simp add: cells_defs small_def)
  show "length (post_cells V t c f uid pid res ds rs) < parcel_limit"
    using assms(2,3) s by (simp add: cells_defs small_def)
qed

text \<open>The world after the temporary pointer a target is converted to has come and gone.\<close>

definition converted :: "('w, 'p, 'x) libbinder_ops_scheme \<Rightarrow> ptr \<Rightarrow> 'w \<Rightarrow> 'w" where
  "converted L t w = sp_destroy L t (snd (sp_copy L t w))"

lemma binder_written:
  assumes "native_laws L V"
  shows "write_binder L t (stream V [] []) w = ((status_of OK, stream V (binder_cells V t) []), converted L t w)"
proof -
  have "wire_laws V" using assms by (simp add: native_laws_def)
  then have "length ([] @ binder_cells V t) < parcel_limit" using encodings_short(3) [of V t] by simp
  from native_writes(7) [OF assms this] show ?thesis
    by (simp add: write_binder_def converted_def sp_copy_def)
qed

lemma pre_call_written:
  assumes "native_laws L V" and "w1 = converted L t w"
    and "length (pre_cells V t c f (getCallingUid L w1) (getCallingPid L w1) (a @ b)) < parcel_limit"
  shows "writeInterceptorCallData L (newParcel L) t c f (stream V a b) w =
    ((status_of OK, stream V (pre_cells V t c f (getCallingUid L w1) (getCallingPid L w1) (a @ b)) []), w1)"
  using assms(3) by (simp add: writeInterceptorCallData_def binder_written [OF assms(1)] assms(2) [symmetric] cells_defs
      native_writes [OF assms(1)] if_ok_Pair)

lemma pre_call_read:
  assumes "java_laws J V" "length (pre_cells V t c f uid pid ds) < parcel_limit"
  shows "handlePreTransact J S (stream V [] (pre_cells V t c f uid pid ds)) w =
    (case onPreTransact S t c f uid pid (stream V [] ds) w of (Some r, w) \<Rightarrow> (r, w) | (None, w) \<Rightarrow> (Skip, w))"
proof -
  let ?a = "call_cells V t c f uid pid @ long_cells V (size64 ds)"
  have l: "length (?a @ ds @ []) < parcel_limit" using assms(2) by (simp add: cells_defs)
  note copy = java_section(1) [OF assms(1) l]
  show ?thesis using assms(2) copy
    by (simp add: handlePreTransact_def cells_defs java_reads [OF assms(1)] java_writes [OF assms(1)])
qed

section \<open>The answer\<close>

fun answer_cells :: "('p, 'c) wire \<Rightarrow> 'p outcome \<Rightarrow> 'c list" where
  "answer_cells V Skip = int_cells V RESULT_SKIP"
| "answer_cells V Continue = int_cells V RESULT_CONTINUE"
| "answer_cells V (OverrideReply code r) =
     int_cells V RESULT_OVERRIDE_REPLY @ int_cells V code @ long_cells V (size64 (cells V r)) @ cells V r"

definition small_answer :: "('p, 'c) wire \<Rightarrow> 'p outcome \<Rightarrow> bool" where
  "small_answer V r \<longleftrightarrow> (case r of OverrideReply code p \<Rightarrow> small (cells V p) | _ \<Rightarrow> True)"

lemma answer_written:
  assumes "java_laws J V" "small_answer V r"
  shows "writeResultToReply J r (stream V [] []) = stream V (answer_cells V r) []"
proof -
  have wire: "wire_laws V" using assms(1) by (simp add: java_laws_def)
  note short = encodings_short [OF wire]
  note writes = java_writes [OF assms(1)]
  show ?thesis
  proof (cases r)
    case (OverrideReply code p)
    obtain a b where p: "p = stream V a b" "cells V p = a @ b" using wire unfolding wire_laws_def by metis
    have l: "length (a @ b) < 2 ^ 29" using assms(2) OverrideReply p by (simp add: small_answer_def small_def)
    have "length (int_cells V RESULT_OVERRIDE_REPLY @ int_cells V code @ long_cells V (size64 (a @ b)) @ a @ b) < parcel_limit"
      using l short(1) [of RESULT_OVERRIDE_REPLY] short(1) [of code] short(2) [of "size64 (a @ b)"] by simp
    moreover have "length (a @ b) < parcel_limit" using l by simp
    ultimately show ?thesis using OverrideReply p
      by (simp add: writeResultToReply_def writes)
  qed (use short(1) [of RESULT_SKIP] short(1) [of RESULT_CONTINUE] in \<open>simp_all add: writeResultToReply_def writes\<close>)
qed

text \<open>
  What the driver does between the two: the interceptor at \<open>i\<close> is served by the service, which
  gets the cells of the data at position 0, and whose reply comes back at position 0. The driver
  may also fail (the service has died, the message is too large, the reply is lost after the service
  has run): \<open>lost\<close> says for which messages, and what status, reply and world the failed call leaves.
\<close>

type_synonym ('w, 'p, 'c) losses = "u32 \<Rightarrow> 'c list \<Rightarrow> 'w \<Rightarrow> (status_t \<times> 'p \<times> 'w) option"

definition served_by ::
  "('w, 'p, 'x) libbinder_ops_scheme \<Rightarrow> 'p java_parcel \<Rightarrow> ('p, 'c) wire \<Rightarrow> ('w, 'p) service_ops \<Rightarrow>
   ('w, 'p, 'c) losses \<Rightarrow> ptr \<Rightarrow> bool" where
  "served_by L J V S lost i \<longleftrightarrow>
     (\<forall>c d w s r w'. lost c d w = Some (s, r, w') \<longrightarrow> \<not> is_ok s) \<and>
     (\<forall>c a b w. transactReply L i c (stream V a b) (newParcel L) 0 w =
       (case lost c (a @ b) w of Some failure \<Rightarrow> failure
        | None \<Rightarrow> (case service_onTransact J S c (stream V [] (a @ b)) (Some (jobtain J)) 0 w of
            (handled, reply, w') \<Rightarrow> (status_of (if handled then OK else UNKNOWN_TRANSACTION),
              stream V [] (case reply of None \<Rightarrow> [] | Some r \<Rightarrow> cells V r), w'))))"

text \<open>What a hook decided: an exception counts as \<open>Skip\<close>.\<close>

fun decided :: "'p outcome option \<times> 'w \<Rightarrow> 'p outcome \<times> 'w" where
  "decided (Some r, w) = (r, w)" | "decided (None, w) = (Skip, w)"

definition small_answers :: "('p, 'c) wire \<Rightarrow> ('w, 'p) service_ops \<Rightarrow> bool" where
  "small_answers V S \<longleftrightarrow>
     (\<forall>t c f uid pid d w. small_answer V (fst (decided (onPreTransact S t c f uid pid d w)))) \<and>
     (\<forall>t c f uid pid d r res w. small_answer V (fst (decided (onPostTransact S t c f uid pid d r res w))))"

lemma decided_case: "decided x = (case x of (Some r, w) \<Rightarrow> (r, w) | (None, w) \<Rightarrow> (Skip, w))"
  by (cases x rule: decided.cases) simp_all

lemma served_call:
  assumes "java_laws J V" "served_by L J V S lost i"
    and "service_onTransact J S c (stream V [] d) (Some (stream V [] [])) 0 w = (True, Some (stream V as []), w')"
  shows "transactReply L i c (stream V d []) (newParcel L) 0 w =
    (case lost c d w of Some failure \<Rightarrow> failure | None \<Rightarrow> (status_of OK, stream V [] as, w'))"
proof -
  have "wire_laws V" using assms(1) by (simp add: java_laws_def)
  then have "cells V (stream V as []) = as" by (simp add: wire_laws_def)
  moreover have "transactReply L i c (stream V d []) (newParcel L) 0 w =
      (case lost c (d @ []) w of Some failure \<Rightarrow> failure
       | None \<Rightarrow> (case service_onTransact J S c (stream V [] (d @ [])) (Some (jobtain J)) 0 w of
            (handled, reply, w') \<Rightarrow> (status_of (if handled then OK else UNKNOWN_TRANSACTION),
              stream V [] (case reply of None \<Rightarrow> [] | Some r \<Rightarrow> cells V r), w')))"
    using assms(2) unfolding served_by_def by blast
  ultimately show ?thesis using assms(3) by (simp add: java_writes(1) [OF assms(1)] split: option.split)
qed

lemma pre_call_answered:
  assumes "java_laws J V" "served_by L J V S lost i" "small_answers V S"
    and "length (pre_cells V t c f uid pid ds) < parcel_limit"
  shows "transactReply L i kPreTransact (stream V (pre_cells V t c f uid pid ds) []) (newParcel L) 0 w =
    (case lost kPreTransact (pre_cells V t c f uid pid ds) w of Some failure \<Rightarrow> failure
     | None \<Rightarrow> (case decided (onPreTransact S t c f uid pid (stream V [] ds) w) of
         (r, w) \<Rightarrow> (status_of OK, stream V [] (answer_cells V r), w)))"
proof -
  obtain r w' where d: "decided (onPreTransact S t c f uid pid (stream V [] ds) w) = (r, w')" by (rule prod.exhaust)
  have "small_answer V r" using assms(3) d unfolding small_answers_def by (metis fst_conv)
  from answer_written [OF assms(1) this] pre_call_read [OF assms(1,4), of S w] d
  have "service_onTransact J S kPreTransact (stream V [] (pre_cells V t c f uid pid ds)) (Some (stream V [] [])) 0 w =
      (True, Some (stream V (answer_cells V r) []), w')"
    by (simp add: service_onTransact_def kPreTransact_def service_constants decided_case)
  from served_call [OF assms(1,2) this] show ?thesis unfolding d prod.case .
qed

text \<open>The reply in an answer, appended to the caller's.\<close>

lemma override_appended:
  assumes "native_laws L V" "small ps" "small d"
  shows "appendFrom L (stream V (int_cells V x @ int_cells V code @ long_cells V (size64 ps)) ps)
      (dataPosition L (stream V (int_cells V x @ int_cells V code @ long_cells V (size64 ps)) ps)) (size64 ps) (stream V d []) =
    (status_of OK, stream V (d @ ps) [])"
proof (rule native_reads(6) [OF assms(1)])
  have "wire_laws V" using assms(1) by (simp add: native_laws_def)
  note short = encodings_short [OF this]
  show "length ((int_cells V x @ int_cells V code @ long_cells V (size64 ps)) @ ps) < parcel_limit"
    using assms(2) short(1) [of x] short(1) [of code] short(2) [of "size64 ps"] by (simp add: small_def)
  show "length (d @ ps) < parcel_limit" using assms(2,3) by (simp add: small_def)
qed

section \<open>The phase before the target is called\<close>

text \<open>The reply to the caller, to which nothing has been read back, if it wants one.\<close>

abbreviation fresh_reply :: "('p, 'c) wire \<Rightarrow> 'c list option \<Rightarrow> 'p option" where
  "fresh_reply V rs \<equiv> map_option (\<lambda>rs. stream V rs []) rs"

lemma loss_fails: "served_by L J V S lost i \<Longrightarrow> lost c d w = Some (s, r, w') \<Longrightarrow> \<not> is_ok s"
  unfolding served_by_def by blast

lemma pre_phase:
  assumes "native_laws L V" "java_laws J V" "served_by L J V S lost i" "small_answers V S"
    and "small (a @ b)" "\<forall>r \<in> set_option rs. small r"
    and "w1 = converted L t (snd (sp_copy L t w))"
  shows "handle_pre L i t c (stream V a b) (fresh_reply V rs) f w =
    (case lost kPreTransact (pre_cells V t c f (getCallingUid L w1) (getCallingPid L w1) (a @ b)) (sp_destroy L t w1) of
       Some (_, _, w) \<Rightarrow> (PreReturn False None (fresh_reply V rs), w)
     | None \<Rightarrow>
    (case decided (onPreTransact S t c f (getCallingUid L w1) (getCallingPid L w1) (stream V [] (a @ b)) (sp_destroy L t w1)) of
       (Skip, w) \<Rightarrow> (PreReturn False None (fresh_reply V rs), w)
     | (Continue, w) \<Rightarrow> (PreForward (stream V (a @ b) []), w)
     | (OverrideReply code r, w) \<Rightarrow>
         (PreReturn True (Some code) (fresh_reply V (map_option (\<lambda>rs. rs @ cells V r) rs)), w)))"
proof -
  let ?u = "getCallingUid L w1" and ?p = "getCallingPid L w1"
  let ?d = "pre_cells V t c f ?u ?p (a @ b)"
  have wire: "wire_laws V" using assms(1) by (simp add: native_laws_def)
  have l: "length ?d < parcel_limit" by (rule cells_fit(1) [OF wire assms(5,5)])
  have lab: "length (a @ b) < parcel_limit" using assms(5) by (simp add: small_def)
  obtain r w2 where d: "decided (onPreTransact S t c f ?u ?p (stream V [] (a @ b)) (sp_destroy L t w1)) = (r, w2)"
    by (rule prod.exhaust)
  have "small_answer V r" using assms(4) d unfolding small_answers_def by (metis fst_conv)
  obtain w0 where arg: "sp_copy L t w = (t, w0)" by (simp add: sp_copy_def)
  then have w1: "w1 = converted L t w0" using assms(7) by simp
  note written = pre_call_written [OF assms(1) w1 l]
  note answered = pre_call_answered [OF assms(2-4) l, of "sp_destroy L t w1"]
  note actions = kActionSkip_def kActionContinue_def kActionOverrideReply_def kActionOverrideData_def
  show ?thesis
  proof (cases "lost kPreTransact ?d (sp_destroy L t w1)")
    case failed: (Some x)
    obtain s rr w3 where x: "x = (s, rr, w3)" by (rule prod_cases3)
    have "\<not> is_ok s" using loss_fails [OF assms(3)] failed x by blast
    then show ?thesis using arg written answered failed x by (simp add: handle_pre_def Let_def)
  next
    case None
    note answered = answered [unfolded None, simplified]
    show ?thesis
    proof (cases r)
      case Skip
      then show ?thesis using None arg written answered d
        by (simp add: handle_pre_def validateInterceptorResponse_def native_reads [OF assms(1)] service_constants actions Let_def)
    next
      case Continue
      then show ?thesis using None arg written answered d lab
        by (simp add: handle_pre_def validateInterceptorResponse_def native_reads [OF assms(1)] native_writes [OF assms(1)]
            service_constants actions Let_def)
    next
      case (OverrideReply code p)
      then have p: "small (cells V p)" using \<open>small_answer V r\<close> by (simp add: small_answer_def)
      show ?thesis
      proof (cases rs)
        case no_reply: None
        then show ?thesis using None arg written answered d OverrideReply
          by (simp add: handle_pre_def validateInterceptorResponse_def native_reads [OF assms(1)] service_constants actions Let_def)
      next
        case (Some xs)
        then have "small xs" using assms(6) by simp
        from override_appended [OF assms(1) p this, of RESULT_OVERRIDE_REPLY code]
        show ?thesis using None arg written answered d OverrideReply Some
          by (simp add: handle_pre_def validateInterceptorResponse_def native_reads [OF assms(1)] service_constants actions Let_def)
      qed
    qed
  qed
qed

section \<open>The phase after the target has returned\<close>

lemma post_call_written:
  assumes "native_laws L V" "case reply of None \<Rightarrow> rs = [] | Some r \<Rightarrow> \<exists>x y. r = stream V x y \<and> rs = x @ y"
    and "w1 = converted L t w"
    and "length (post_cells V t c f (getCallingUid L w1) (getCallingPid L w1) res (a @ b) rs) < parcel_limit"
  shows "writePostCallData L t c f res (stream V a b) reply w =
    ((status_of OK, stream V (post_cells V t c f (getCallingUid L w1) (getCallingPid L w1) res (a @ b) rs) []), w1)"
proof (cases reply)
  case None
  then show ?thesis using assms(2,4)
    by (simp add: writePostCallData_def binder_written [OF assms(1)] assms(3) [symmetric] cells_defs
        native_writes [OF assms(1)] if_ok_Pair)
next
  case (Some r)
  then obtain x y where r: "reply = Some (stream V x y)" "rs = x @ y" using assms(2) by auto
  have l: "length (x @ y) < parcel_limit" using assms(4) r by (simp add: cells_defs)
  show ?thesis
  proof (cases "x @ y = []")
    case True
    then show ?thesis using r assms(4)
      by (simp add: writePostCallData_def binder_written [OF assms(1)] assms(3) [symmetric] cells_defs
        native_writes [OF assms(1)] if_ok_Pair)
  next
    case False
    have "unat (size64 (x @ y)) \<noteq> 0" using unat_sizes(1) [OF l] False by simp
    then have "size64 (x @ y) > 0" by (simp add: word_less_nat_alt)
    then show ?thesis using r assms(4)
      by (simp add: writePostCallData_def binder_written [OF assms(1)] assms(3) [symmetric] cells_defs
        native_writes [OF assms(1)] if_ok_Pair)
  qed
qed

lemma post_call_read:
  assumes "java_laws J V" "length (post_cells V t c f uid pid res ds rs) < parcel_limit"
  shows "handlePostTransact J S (stream V [] (post_cells V t c f uid pid res ds rs)) w =
    decided (onPostTransact S t c f uid pid (stream V [] ds) (if rs = [] then None else Some (stream V [] rs)) res w)"
proof -
  let ?a = "call_cells V t c f uid pid @ int_cells V res @ long_cells V (size64 ds)"
  let ?b = "long_cells V (size64 rs) @ rs"
  have l: "length (?a @ ds @ ?b) < parcel_limit" "length ((?a @ ds @ long_cells V (size64 rs)) @ rs @ []) < parcel_limit"
    using assms(2) by (simp_all add: cells_defs)
  note copy = java_section [OF assms(1) l(1)] java_section(1) [OF assms(1) l(2)]
  show ?thesis using assms(2) copy
    by (simp add: handlePostTransact_def cells_defs java_reads [OF assms(1)] java_writes [OF assms(1)] decided_case)
qed

lemma post_call_answered:
  assumes "java_laws J V" "served_by L J V S lost i" "small_answers V S"
    and "length (post_cells V t c f uid pid res ds rs) < parcel_limit"
  shows "transactReply L i kPostTransact (stream V (post_cells V t c f uid pid res ds rs) []) (newParcel L) 0 w =
    (case lost kPostTransact (post_cells V t c f uid pid res ds rs) w of Some failure \<Rightarrow> failure
     | None \<Rightarrow> (case decided (onPostTransact S t c f uid pid (stream V [] ds)
          (if rs = [] then None else Some (stream V [] rs)) res w) of
         (r, w) \<Rightarrow> (status_of OK, stream V [] (answer_cells V r), w)))"
proof -
  obtain r w' where d: "decided (onPostTransact S t c f uid pid (stream V [] ds)
      (if rs = [] then None else Some (stream V [] rs)) res w) = (r, w')" by (rule prod.exhaust)
  have "small_answer V r" using assms(3) d unfolding small_answers_def by (metis fst_conv)
  from answer_written [OF assms(1) this] post_call_read [OF assms(1,4), of S w] d
  have "service_onTransact J S kPostTransact (stream V [] (post_cells V t c f uid pid res ds rs)) (Some (stream V [] [])) 0 w =
      (True, Some (stream V (answer_cells V r) []), w')"
    by (simp add: service_onTransact_def kPostTransact_def service_constants)
  from served_call [OF assms(1,2) this] show ?thesis unfolding d prod.case .
qed

lemma post_phase:
  assumes "native_laws L V" "java_laws J V" "served_by L J V S lost i" "small_answers V S"
    and "small (a @ b)" "small (case reply of None \<Rightarrow> [] | Some r \<Rightarrow> cells V r)"
    and "w1 = converted L t w"
  shows "handle_post L i t c (stream V a b) reply f res w =
    (case lost kPostTransact (post_cells V t c f (getCallingUid L w1) (getCallingPid L w1) res (a @ b)
        (case reply of None \<Rightarrow> [] | Some r \<Rightarrow> cells V r)) w1 of
       Some (_, _, w) \<Rightarrow> (False, Some res, reply, w)
     | None \<Rightarrow>
    (case decided (onPostTransact S t c f (getCallingUid L w1) (getCallingPid L w1) (stream V [] (a @ b))
        (case reply of None \<Rightarrow> None | Some r \<Rightarrow> if cells V r = [] then None else Some (stream V [] (cells V r))) res w1) of
       (OverrideReply code r, w) \<Rightarrow> (True, Some code, map_option (\<lambda>_. stream V (cells V r) []) reply, w)
     | (_, w) \<Rightarrow> (True, Some res, reply, w)))"
proof -
  let ?u = "getCallingUid L w1" and ?p = "getCallingPid L w1"
  let ?rs = "case reply of None \<Rightarrow> [] | Some r \<Rightarrow> cells V r"
  let ?d = "post_cells V t c f ?u ?p res (a @ b) ?rs"
  have wire: "wire_laws V" using assms(1) by (simp add: native_laws_def)
  have reply: "case reply of None \<Rightarrow> ?rs = [] | Some r \<Rightarrow> \<exists>x y. r = stream V x y \<and> ?rs = x @ y"
  proof (cases reply)
    case (Some r)
    obtain x y where "r = stream V x y" using wire unfolding wire_laws_def by metis
    moreover have "cells V (stream V x y) = x @ y" using wire by (simp add: wire_laws_def)
    ultimately show ?thesis using Some by auto
  qed simp
  have l: "length ?d < parcel_limit" by (rule cells_fit(2) [OF wire assms(5,6)])
  have seen: "(if ?rs = [] then None else Some (stream V [] ?rs)) =
      (case reply of None \<Rightarrow> None | Some r \<Rightarrow> if cells V r = [] then None else Some (stream V [] (cells V r)))"
    by (cases reply) simp_all
  obtain r w2 where d: "decided (onPostTransact S t c f ?u ?p (stream V [] (a @ b))
      (if ?rs = [] then None else Some (stream V [] ?rs)) res w1) = (r, w2)" by (rule prod.exhaust)
  have small: "small_answer V r" using assms(4) d unfolding small_answers_def by (metis fst_conv)
  note written = post_call_written [OF assms(1) reply assms(7) l]
  note answered = post_call_answered [OF assms(2-4) l, of w1]
  note actions = kActionSkip_def kActionContinue_def kActionOverrideReply_def kActionOverrideData_def
  note eval = handle_post_def validateInterceptorResponse_def native_reads [OF assms(1)] service_constants actions Let_def
  show ?thesis
  proof (cases "lost kPostTransact ?d w1")
    case failed: (Some x)
    obtain s rr w3 where x: "x = (s, rr, w3)" by (rule prod_cases3)
    have "\<not> is_ok s" using loss_fails [OF assms(3)] failed x by blast
    then show ?thesis using written answered failed x by (simp add: handle_post_def Let_def)
  next
    case None
    note steps = None written answered [unfolded None, simplified] d d [unfolded seen]
    show ?thesis
    proof (cases r)
      case (OverrideReply code p)
      then have "small (cells V p)" "small []" using small by (simp_all add: small_answer_def small_def)
      from override_appended [OF assms(1) this, of RESULT_OVERRIDE_REPLY code] show ?thesis
        using steps OverrideReply by (cases reply) (simp_all add: eval native_writes [OF assms(1)])
    qed (use steps in \<open>simp_all add: eval\<close>)
  qed
qed

section \<open>An intercepted transaction\<close>

text \<open>
  The interception as the service sees it: a function of its two hooks and of the target, without
  messages but for the question whether the driver loses one. The hook that is called first sees
  the request; \<open>Skip\<close> leaves the transaction to the caller, an overriding reply answers it, \<open>Continue\<close>
  gives the target a copy of the request; the second hook sees request, reply (if it is not empty)
  and result, and can replace the latter two. When a message is lost, the transaction counts as not
  handled, the second time although the target has executed it.
\<close>

definition seen_reply :: "('p, 'c) wire \<Rightarrow> 'p option \<Rightarrow> 'p option" where
  "seen_reply V reply =
     (case reply of None \<Rightarrow> None | Some r \<Rightarrow> if cells V r = [] then None else Some (stream V [] (cells V r)))"

definition reply_cells :: "('p, 'c) wire \<Rightarrow> 'p option \<Rightarrow> 'c list" where
  "reply_cells V reply = (case reply of None \<Rightarrow> [] | Some r \<Rightarrow> cells V r)"

definition mediated ::
  "('w, 'p, 'x) libbinder_ops_scheme \<Rightarrow> ('p, 'c) wire \<Rightarrow> ('w, 'p) service_ops \<Rightarrow> ('w, 'p, 'c) losses \<Rightarrow>
   ptr \<Rightarrow> u32 \<Rightarrow> 'c list \<Rightarrow> 'c list option \<Rightarrow> u32 \<Rightarrow> 'w \<Rightarrow> bool \<times> status_t option \<times> 'p option \<times> 'w" where
  "mediated L V S lost t c ds rs f w =
     (let w1 = converted L t (snd (sp_copy L t w)); uid = getCallingUid L w1; pid = getCallingPid L w1;
          w = sp_destroy L t w1
      in case lost kPreTransact (pre_cells V t c f uid pid ds) w of
           Some (_, _, w) \<Rightarrow> (False, None, fresh_reply V rs, w)
         | None \<Rightarrow>
      let (r, w) = decided (onPreTransact S t c f uid pid (stream V [] ds) w)
      in case r of
           Skip \<Rightarrow> (False, None, fresh_reply V rs, w)
         | OverrideReply code r \<Rightarrow>
             (True, Some code, fresh_reply V (map_option (\<lambda>rs. rs @ cells V r) rs), w)
         | Continue \<Rightarrow>
      let (res, reply, w) = transact L t c (stream V ds []) (fresh_reply V rs) f w;
          w = converted L t w; uid = getCallingUid L w; pid = getCallingPid L w
      in case lost kPostTransact (post_cells V t c f uid pid res ds (reply_cells V reply)) w of
           Some (_, _, w) \<Rightarrow> (False, Some res, reply, w)
         | None \<Rightarrow>
      let (r, w) = decided (onPostTransact S t c f uid pid (stream V [] ds) (seen_reply V reply) res w)
      in case r of
           OverrideReply code r \<Rightarrow> (True, Some code, map_option (\<lambda>_. stream V (cells V r) []) reply, w)
         | _ \<Rightarrow> (True, Some res, reply, w))"

definition small_replies :: "('w, 'p, 'x) libbinder_ops_scheme \<Rightarrow> ('p, 'c) wire \<Rightarrow> ptr \<Rightarrow> bool" where
  "small_replies L V t \<longleftrightarrow> (\<forall>c d r f w. small (reply_cells V (fst (snd (transact L t c d r f w)))))"

text \<open>
  C4. The interceptor and its service implement direct calls of the hooks: what the handler of an
  intercepted transaction does, with its messages to the service before and after the target,
  is what the two hooks decide when they are called with the target, the code, the flags, the
  caller's identity, the request, the reply and the result themselves; a message the driver
  loses leaves the transaction unhandled.
\<close>

theorem hooks_decide_transaction:
  assumes "native_laws L V" "java_laws J V" "served_by L J V S lost (reg_interceptor_binder e)" "small_answers V S"
    and "small_replies L V t" "small (a @ b)" "\<forall>r \<in> set_option rs. small r"
    and "wp_of_sp L t w = (key, w1)" "map_lookup key reg = Some e"
  shows "handleInterceptedTransaction L reg t c (stream V a b) (fresh_reply V rs) f w =
    (let (i, w2) = sp_assign L nullptr (reg_interceptor_binder e) (wp_destroy L key w1);
         (handled, result, reply, w3) = mediated L V S lost t c (a @ b) rs f w2
     in (handled, result, reply, sp_destroy L i w3))"
proof -
  have hit: "find_iter key reg \<noteq> length reg" "snd (reg ! find_iter key reg) = e"
    using assms(9) by (auto simp: map_lookup_def Let_def split: if_splits)
  obtain w2 where i: "sp_assign L nullptr (reg_interceptor_binder e) (wp_destroy L key w1) = (reg_interceptor_binder e, w2)"
    by (simp add: sp_assign_def Let_def)
  note pre = pre_phase [OF assms(1-4,6,7) refl, of t c f w2]
  have small: "small (case reply of None \<Rightarrow> [] | Some r \<Rightarrow> cells V r)"
    if "transact L t c d r f v = (res, reply, v')" for c d r f v res reply v'
    using assms(5) that unfolding small_replies_def reply_cells_def by (metis fst_conv snd_conv)
  note post = post_phase [OF assms(1-4,6) small refl]
  show ?thesis
    by (simp add: handleInterceptedTransaction_def assms(8) hit i pre mediated_def Let_def post seen_reply_def
        reply_cells_def split: prod.split outcome.split option.split)
qed

section \<open>Registration and backdoor\<close>

lemma codes_read:
  assumes "native_laws L V"
  shows "read_codes L (length cs) (stream V a (concat (map (int_cells V) cs))) acc =
    (Some (acc @ cs), stream V (a @ concat (map (int_cells V) cs)) [])"
proof (induction cs arbitrary: a acc)
  case (Cons c cs)
  then show ?case by (simp add: native_reads [OF assms])
qed simp

definition registration_cells :: "('p, 'c) wire \<Rightarrow> ptr \<Rightarrow> ptr \<Rightarrow> u32 list \<Rightarrow> 'c list" where
  "registration_cells V t i codes = binder_cells V t @ binder_cells V i @
     int_cells V (size32 codes) @ concat (map (int_cells V) codes)"

lemma registration_written:
  assumes "java_laws J V" "length codes < 2 ^ 24"
  shows "registration_data J t i codes = (True, stream V (registration_cells V t i codes) [])"
proof -
  have "wire_laws V" using assms(1) by (simp add: java_laws_def)
  note short = encodings_short [OF this]
  have codes: "length (concat (map (int_cells V) cs)) \<le> 64 * length cs" for cs
  proof (induction cs)
    case (Cons c cs)
    then show ?case using short(1) [of c] by simp
  qed simp
  have "length (registration_cells V t i codes) < parcel_limit"
    using codes [of codes] short(1) [of "size32 codes"] short(3) [of t] short(3) [of i] assms(2)
    by (simp add: registration_cells_def)
  then show ?thesis by (simp add: registration_data_def registration_cells_def java_writes [OF assms(1)])
qed

text \<open>Both binders of a registration message, read by the native code.\<close>

lemma binder_read:
  assumes "native_laws L V"
  shows "p \<noteq> nullptr \<Longrightarrow> \<exists>w'. readStrongBinder L (stream V a (binder_cells V p @ b)) w =
      (status_of OK, p, stream V (a @ binder_cells V p) b, w')"
    and "\<exists>s d w'. readStrongBinder L (stream V a (binder_cells V nullptr @ b)) w = (s, nullptr, d, w') \<and> \<not> is_ok s"
  using assms by (simp_all add: native_laws_def)

lemma registration_refused:
  assumes "native_laws L V" "t \<noteq> nullptr" "\<forall>w. localBinder L t w \<noteq> nullptr"
  shows "\<exists>w'. handleRegisterInterceptor L can_reserve reg (stream V [] (registration_cells V t nullptr codes)) w =
    Some (status_of BAD_VALUE, reg, w')"
proof -
  let ?r = "binder_cells V nullptr @ int_cells V (size32 codes) @ concat (map (int_cells V) codes)"
  obtain wa where 1: "readStrongBinder L (stream V [] (registration_cells V t nullptr codes)) w =
      (status_of OK, t, stream V (binder_cells V t) ?r, wa)"
    using binder_read(1) [OF assms(1,2), of "[]" ?r w] by (auto simp: registration_cells_def)
  obtain s d wb where "readStrongBinder L (stream V (binder_cells V t) ?r) wa = (s, nullptr, d, wb)" "\<not> is_ok s"
    using binder_read(2) [OF assms(1)] by blast
  then show ?thesis using 1 assms(2,3) by (simp add: handleRegisterInterceptor_def)
qed

lemma registration_accepted:
  assumes "native_laws L V" "fixed_refs L refs obj" "registry_ok refs reg"
    and "t \<noteq> nullptr" "\<forall>w. localBinder L t w \<noteq> nullptr" "length codes < 2 ^ 24" "can_reserve (length codes)"
    and "i \<noteq> nullptr"
  shows "\<exists>reg' w'. handleRegisterInterceptor L can_reserve reg (stream V [] (registration_cells V t i codes)) w =
      Some (status_of OK, reg', w') \<and>
    map_of reg' = (map_of reg)(Wp t (refs t) \<mapsto>
      \<lparr>reg_target_binder = Wp t (refs t), reg_interceptor_binder = i, reg_codes = codes\<rparr>)"
proof -
  let ?cs = "concat (map (int_cells V) codes)"
  let ?d = "registration_cells V t i codes"
  obtain wa where 1: "readStrongBinder L (stream V [] ?d) w = (status_of OK, t, stream V (binder_cells V t)
      (binder_cells V i @ int_cells V (size32 codes) @ ?cs), wa)"
    using binder_read(1) [OF assms(1,4), of "[]"] by (fastforce simp: registration_cells_def)
  obtain wb where 2: "readStrongBinder L (stream V (binder_cells V t) (binder_cells V i @ int_cells V (size32 codes) @ ?cs)) wa =
      (status_of OK, i, stream V (binder_cells V t @ binder_cells V i) (int_cells V (size32 codes) @ ?cs), wb)"
    using binder_read(1) [OF assms(1,8)] by blast
  note 3 = native_reads(1) [OF assms(1), of "binder_cells V t @ binder_cells V i" "size32 codes" ?cs]
  have n: "nat (sint (size32 codes)) = length codes" using assms(6) by simp
  note 4 = codes_read [OF assms(1), of codes "(binder_cells V t @ binder_cells V i) @ int_cells V (size32 codes)" "[]"]
  obtain wc where 5: "wp_of_sp L t wb = (Wp t (refs t), wc)"
    using fixed_refs(1) [OF assms(2,4), of wb] assms(4) by (cases "createWeak L t wb") (simp add: wp_of_sp_def)
  have inj: "refs p = refs q \<Longrightarrow> p \<noteq> nullptr \<Longrightarrow> q \<noteq> nullptr \<Longrightarrow> p = q" for p q
    using fixed_refs(3) [OF assms(2)] by metis
  have 6: "refs_unique (Wp t (refs t)) reg"
    using assms(3,4) inj by (auto simp: refs_unique_def registry_ok_def proper_def wp.expand)
  have inv: "registry_inv reg" using assms(3) by (simp add: registry_ok_def)
  from register_update [OF inv 1 assms(4) _ 2 3 _ _ 5 6, of can_reserve codes] n 4 assms(5,7)
  show ?thesis by auto
qed

text \<open>
  C6. A registration the service makes is the registration the native code performs: the message
  is accepted, and afterwards the registry maps the target to the interceptor with exactly the
  codes the service named, and every other object as before. A registration without an interceptor
  is refused, and leaves the registry as it was.
\<close>

theorem registration_understood:
  assumes "native_laws L V" "java_laws J V" "fixed_refs L refs obj" "registry_ok refs reg"
    and "t \<noteq> nullptr" "\<forall>w. localBinder L t w \<noteq> nullptr" "length codes < 2 ^ 24" "can_reserve (length codes)"
  shows "\<exists>msg st reg' w'. registration_data J t i codes = (True, msg) \<and>
    interceptor_onTransact L can_reserve reg REGISTER_INTERCEPTOR_CODE (stream V [] (cells V msg)) w = Some (st, reg', w') \<and>
    (if i = nullptr then st = status_of BAD_VALUE \<and> reg' = reg
     else st = status_of OK \<and> map_of reg' = (map_of reg)(Wp t (refs t) \<mapsto>
       \<lparr>reg_target_binder = Wp t (refs t), reg_interceptor_binder = i, reg_codes = codes\<rparr>))"
proof -
  let ?d = "registration_cells V t i codes"
  have msg: "registration_data J t i codes = (True, stream V ?d [])" by (rule registration_written [OF assms(2,7)])
  have "cells V (stream V ?d []) = ?d" using assms(1) by (simp add: native_laws_def wire_laws_def)
  then have on: "interceptor_onTransact L can_reserve reg REGISTER_INTERCEPTOR_CODE (stream V [] (cells V (stream V ?d []))) w =
      handleRegisterInterceptor L can_reserve reg (stream V [] ?d) w"
    by (simp add: interceptor_onTransact_def kRegisterInterceptor_def service_constants)
  show ?thesis
  proof (cases "i = nullptr")
    case True
    then show ?thesis using registration_refused [OF assms(1,5,6)] msg on by fastforce
  next
    case False
    from registration_accepted [where can_reserve = can_reserve, OF assms(1,3-8) False] show ?thesis using msg on False by fastforce
  qed
qed

text \<open>The queue of the thread that redirected one transaction.\<close>

definition queue_of :: "txn_info option \<Rightarrow> txn_info list" where
  "queue_of d = (case d of None \<Rightarrow> [] | Some e \<Rightarrow> [e])"

text \<open>
  C7. The backdoor: when the service, as root, sends its backdoor transaction to any object of the
  process, the hook redirects it to the stub, and the service receives the native interceptor.
\<close>

theorem backdoor_gives_interceptor:
  assumes "native_laws L V" "java_laws J V"
    and "td_code td = BACKDOOR_TRANSACTION_CODE" "td_sender_euid td = 0"
    and "decideInterception L reg td w = (d, w1)"
    and "stub_onTransact L reg g (queue_of d) (stream V [] []) (Some (newParcel L)) 0 w1 = (st, Some reply, q, w2)"
    and "ibinder_transact S b BACKDOOR_TRANSACTION_CODE (jobtain J) (jobtain J) 0 w =
      (Some (is_ok st), stream V [] (cells V reply), w2)"
  shows "getBinderBackdoor J S b w = (g, w2) \<and> q = []"
proof -
  have wire: "wire_laws V" using assms(1) by (simp add: native_laws_def)
  have "length (binder_cells V g) < parcel_limit" using encodings_short(3) [OF wire, of g] by simp
  note writes = native_writes(1,7) [OF assms(1)] this
  have d: "d = Some \<lparr>ti_code = kBackdoorCode, ti_target = wp_null\<rparr>" "w1 = w"
    using assms(3-5) by (auto simp: decideInterception_def kBackdoorCode_def service_constants wp_assign_ptr_def wp_null_def
        Let_def split: if_splits)
  have "st = status_of OK \<and> reply = stream V (binder_cells V g) [] \<and> q = []"
    using assms(6) writes binder_written [OF assms(1), of g w] d by (auto simp: queue_of_def stub_onTransact_def wp_copy_def wp_destroy_def wp_eq_ptr_def wp_null_def)
  then show ?thesis using assms(7) wire java_reads(5) [OF assms(2), of "[]" g]
    by (simp add: getBinderBackdoor_def wire_laws_def)
qed

section \<open>Hooks that do nothing\<close>

text \<open>
  What the handler does for a service that always answers \<open>Skip\<close>: taking and returning the
  references of its argument \<open>t\<close>, of the key it looks up, of the interceptor \<open>i\<close> and of the
  conversion, and sending one message, which the driver may lose.
\<close>

definition consulted ::
  "('w, 'p, 'x) libbinder_ops_scheme \<Rightarrow> ('p, 'c) wire \<Rightarrow> ('w, 'p, 'c) losses \<Rightarrow> ptr \<Rightarrow> wp \<Rightarrow> ptr \<Rightarrow> u32 \<Rightarrow> 'c list
     \<Rightarrow> u32 \<Rightarrow> 'w \<Rightarrow> 'w" where
  "consulted L V lost t key i c ds f w =
     (let w = snd (sp_copy L t w);
          w = wp_destroy L key (snd (wp_of_sp L t w));
          w = snd (sp_assign L nullptr i w);
          w1 = converted L t (snd (sp_copy L t w));
          w = sp_destroy L t w1;
          w = (case lost kPreTransact (pre_cells V t c f (getCallingUid L w1) (getCallingPid L w1) ds) w of
                 None \<Rightarrow> w | Some (_, _, w) \<Rightarrow> w)
      in sp_destroy L t (sp_destroy L i w))"

lemma default_hook_skips:
  assumes "native_laws L V" "java_laws J V" "served_by L J V S lost (reg_interceptor_binder e)" "small_answers V S"
    and "onPreTransact S = default_onPreTransact" "small (a @ b)" "\<forall>r \<in> set_option rs. small r"
    and "fst (wp_of_sp L t (snd (sp_copy L t w))) = key" "map_lookup key reg = Some e"
  shows "\<exists>v. handleInterceptedTransaction L reg t c (stream V a b) (fresh_reply V rs) f (snd (sp_copy L t w)) =
      (False, None, fresh_reply V rs, v) \<and>
    sp_destroy L t v = consulted L V lost t key (reg_interceptor_binder e) c (a @ b) f w"
proof -
  have hit: "find_iter key reg \<noteq> length reg" "snd (reg ! find_iter key reg) = e"
    using assms(9) by (auto simp: map_lookup_def Let_def split: if_splits)
  obtain w1 where key: "wp_of_sp L t (snd (sp_copy L t w)) = (key, w1)" using assms(8) by (metis prod.collapse)
  obtain w2 where i: "sp_assign L nullptr (reg_interceptor_binder e) (wp_destroy L key w1) = (reg_interceptor_binder e, w2)"
    by (simp add: sp_assign_def Let_def)
  note pre = pre_phase [OF assms(1-4,6,7) refl, of t c f w2]
  show ?thesis
    by (simp add: handleInterceptedTransaction_def hit key i pre consulted_def assms(5) default_onPreTransact_def Let_def
        split: option.split prod.split)
qed

text \<open>
  C5. A service that does not override the first hook changes nothing. The stub takes the
  transaction off the queue and promotes its target; exactly when that fails the caller is told
  that the object is dead, and otherwise the target is called, once, with the original code,
  request, reply and flags, and its status and reply are the caller's. Before and after the call
  the stub only takes and returns references and sends the message the service answers with
  \<open>Skip\<close>, whether that message arrives or not.
\<close>

theorem default_hook_transparent:
  assumes "native_laws L V" "java_laws J V" "small_answers V S" "onPreTransact S = default_onPreTransact"
    and "fixed_refs L refs obj" "proper refs (ti_target e)" "map_lookup (ti_target e) reg = Some r"
    and "served_by L J V S lost (reg_interceptor_binder r)" "small (a @ b)" "\<forall>r \<in> set_option rs. small r"
  shows "stub_onTransact L reg g (e # q) (stream V a b) (fresh_reply V rs) f w =
    (let w1 = wp_destroy L (ti_target e) (snd (wp_copy L (ti_target e) w));
         (t, w2) = wp_promote L (ti_target e) w1
     in if t = nullptr then (status_of DEAD_OBJECT, fresh_reply V rs, q, wp_destroy L (ti_target e) w2)
        else let w3 = consulted L V lost t (ti_target e) (reg_interceptor_binder r) (ti_code e) (a @ b) f w2;
                 (st, reply, w4) = transact L t (ti_code e) (stream V a b) (fresh_reply V rs) f w3
             in (st, reply, q, wp_destroy L (ti_target e) (sp_destroy L t w4)))"
proof -
  obtain w0 where copy: "wp_copy L (ti_target e) w = (ti_target e, w0)" by (simp add: wp_copy_def)
  have live: "wp_ptr (ti_target e) \<noteq> nullptr" using assms(6) by (simp add: proper_def)
  then have no_backdoor: "\<not> wp_eq_ptr (ti_target e) nullptr" by (simp add: wp_eq_ptr_def)
  obtain t w2 where p: "wp_promote L (ti_target e) (wp_destroy L (ti_target e) w0) = (t, w2)"
    by (rule prod.exhaust)
  show ?thesis
  proof (cases "t = nullptr")
    case True
    then show ?thesis by (simp add: stub_onTransact_def copy p no_backdoor)
  next
    case False
    then have t: "t = wp_ptr (ti_target e)" using p live
      by (auto simp: wp_promote_def sp_set_pointer_def split: prod.splits if_splits)
    have key: "fst (wp_of_sp L t (snd (sp_copy L t w2))) = ti_target e"
      using fixed_refs(1) [OF assms(5) False, of "snd (sp_copy L t w2)"] False assms(6)
      by (cases "createWeak L t (snd (sp_copy L t w2))") (simp add: wp_of_sp_def t proper_def wp.expand)
    from default_hook_skips [OF assms(1,2,8,3,4,9,10) key assms(7), of "ti_code e" f] obtain v where
      h: "handleInterceptedTransaction L reg t (ti_code e) (stream V a b) (fresh_reply V rs) f (snd (sp_copy L t w2)) =
        (False, None, fresh_reply V rs, v)" and
      v: "sp_destroy L t v = consulted L V lost t (ti_target e) (reg_interceptor_binder r) (ti_code e) (a @ b) f w2"
      by blast
    obtain wa where "sp_copy L t w2 = (t, wa)" by (simp add: sp_copy_def)
    then show ?thesis using False h by (simp add: stub_onTransact_def copy p no_backdoor v [symmetric])
  qed
qed

end
