(* ===== verification/Service_Run.thy ===== *)
theory Service_Run
  imports Service_Props
begin

text \<open>
  Both ends of the protocol on concrete parcels, which are lists of items divided by their
  position: the service registers its interceptor at 64 for the object at 16, and its hooks let a
  transaction continue and replace the reply.
\<close>

section \<open>Parcels\<close>

type_synonym dparcel = "pitem list \<times> pitem list"

definition item_wire :: "(dparcel, pitem) wire" where
  "item_wire = \<lparr>stream = Pair, cells = (\<lambda>(a, b). a @ b), int_cells = (\<lambda>v. [PI32 v]),
     long_cells = (\<lambda>v. [PU64 v]), binder_cells = (\<lambda>p. [PBinder p])\<rparr>"

definition put :: "pitem list \<Rightarrow> dparcel \<Rightarrow> dparcel" where
  "put xs d = (fst d @ xs, [])"

definition copied :: "dparcel \<Rightarrow> nat \<Rightarrow> nat \<Rightarrow> pitem list option" where
  "copied src off n =
     (if off + n \<le> length (fst src @ snd src) then Some (take n (drop off (fst src @ snd src))) else None)"

definition taken :: "(pitem \<Rightarrow> 'v option) \<Rightarrow> 'v \<Rightarrow> dparcel \<Rightarrow> bool \<times> 'v \<times> dparcel" where
  "taken get z d =
     (case snd d of
        x # b \<Rightarrow> (case get x of Some v \<Rightarrow> (True, v, fst d @ [x], b) | None \<Rightarrow> (False, z, d))
      | [] \<Rightarrow> (False, z, d))"

definition get_int :: "pitem \<Rightarrow> u32 option" where
  "get_int x = (case x of PI32 v \<Rightarrow> Some v | _ \<Rightarrow> None)"

definition get_long :: "pitem \<Rightarrow> u64 option" where
  "get_long x = (case x of PU64 v \<Rightarrow> Some v | _ \<Rightarrow> None)"

definition get_binder :: "pitem \<Rightarrow> ptr option" where
  "get_binder x = (case x of PBinder p \<Rightarrow> Some p | _ \<Rightarrow> None)"

definition item_java :: "dparcel java_parcel" where
  "item_java = \<lparr>jobtain = ([], []), jreadInt = (\<lambda>d. snd (taken get_int 0 d)), jreadLong = (\<lambda>d. snd (taken get_long 0 d)),
     jreadStrongBinder = (\<lambda>d. snd (taken get_binder nullptr d)),
     jwriteInt = (\<lambda>v d. (True, put [PI32 v] d)), jwriteLong = (\<lambda>v d. (True, put [PU64 v] d)),
     jwriteStrongBinder = (\<lambda>p d. (True, put [PBinder p] d)),
     jwriteIntArray = (\<lambda>vs d. (True, put (map PI32 (of_nat (length vs) # vs)) d)),
     jappendFrom = (\<lambda>src off n d. case copied src (unat off) (unat n) of None \<Rightarrow> (False, d) | Some xs \<Rightarrow> (True, put xs d)),
     jdataSize = (\<lambda>d. of_nat (length (fst d @ snd d))), jdataPosition = (\<lambda>d. of_nat (length (fst d))),
     jsetDataPosition = (\<lambda>v d. (True, take (unat v) (fst d @ snd d), drop (unat v) (fst d @ snd d))),
     jsetDataSize = (\<lambda>v d. (True, take (unat v) (fst d @ snd d), []))\<rparr>"

section \<open>The service\<close>

definition item_service :: "(counters, dparcel) service_ops" where
  "item_service = \<lparr>onPreTransact = (\<lambda>t c f uid pid d w. (Some Continue, w)),
     onPostTransact = (\<lambda>t c f uid pid d r res w. (Some (OverrideReply 7 ([PI32 5], [])), w)),
     super_onTransact = (\<lambda>c d r f w. (Some False, r, w)),
     ibinder_transact = (\<lambda>b c d r f w. (Some True, ([], [PBinder 48]), w))\<rparr>"

definition status :: "bool \<Rightarrow> status_t" where
  "status b = status_of (if b then OK else BAD_VALUE)"

text \<open>
  The object at 64 is the service, which the driver does not reach with messages of more than a
  thousand items; every other object answers with an empty reply.
\<close>

definition item_lost :: "(counters, dparcel, pitem) losses" where
  "item_lost c d w = (if length d > 1000 then Some (status_of FAILED_TRANSACTION, ([], []), w) else None)"

definition item_lib :: "(counters, dparcel) libbinder_ops" where
  "item_lib = \<lparr>
     incStrong = incStrong counting_refbase, incStrongRequireStrong = incStrongRequireStrong counting_refbase,
     decStrong = decStrong counting_refbase, getWeakRefs = getWeakRefs counting_refbase,
     createWeak = createWeak counting_refbase, incWeak = incWeak counting_refbase,
     decWeak = decWeak counting_refbase, attemptIncStrong = attemptIncStrong counting_refbase,
     newParcel = ([], []), dataSize = (\<lambda>d. of_nat (length (fst d @ snd d))),
     dataPosition = (\<lambda>d. of_nat (length (fst d))),
     appendFrom = (\<lambda>src off n d. case copied src (unat off) (unat n) of
        None \<Rightarrow> (status False, d) | Some xs \<Rightarrow> (status True, put xs d)),
     freeData = (\<lambda>d. ([], [])), writeInt32 = (\<lambda>v d. (status True, put [PI32 v] d)),
     writeUint32 = (\<lambda>v d. (status True, put [PI32 v] d)), writeUint64 = (\<lambda>v d. (status True, put [PU64 v] d)),
     writeStrongBinder = (\<lambda>p d. (status True, put [PBinder p] d)),
     readInt32 = (\<lambda>d. let (b, v, d) = taken get_int 0 d in (status b, v, d)),
     readInt32Value = (\<lambda>d. snd (taken get_int 0 d)),
     readUint32 = (\<lambda>d. let (b, v, d) = taken get_int 0 d in (status b, v, d)),
     readUint64Value = (\<lambda>d. snd (taken get_long 0 d)),
     readStrongBinder = (\<lambda>d w. let (b, p, d) = taken get_binder nullptr d
        in (status (b \<and> p \<noteq> nullptr), p, d, if p = nullptr then w else incStrong counting_refbase p w)),
     localBinder = (\<lambda>p w. p), getCallingUid = (\<lambda>w. 10000), getCallingPid = (\<lambda>w. 42),
     transactReply = (\<lambda>b c d r f w.
        if b = 64
        then (case item_lost c (fst d @ snd d) w of Some failure \<Rightarrow> failure
          | None \<Rightarrow> (case service_onTransact item_java item_service c ([], fst d @ snd d) (Some ([], [])) f w of
           (handled, reply, w') \<Rightarrow> (status_of (if handled then OK else UNKNOWN_TRANSACTION),
             ([], case reply of None \<Rightarrow> [] | Some r \<Rightarrow> fst r @ snd r), w')))
        else (status True, ([], []), w)),
     transactNoReply = (\<lambda>b c d f w. (status True, w))\<rparr>"

lemmas item_defs = item_wire_def item_java_def put_def copied_def taken_def get_int_def get_long_def get_binder_def
  status_def

lemma item_fields [simp]:
  "stream item_wire a b = (a, b)" "cells item_wire d = fst d @ snd d" "jobtain item_java = ([], [])"
  "newParcel item_lib = ([], [])"
  by (simp_all add: item_wire_def item_java_def item_lib_def split: prod.split)

lemma item_wire_laws: "wire_laws item_wire"
  by (simp add: wire_laws_def item_wire_def)

lemma item_java_laws: "java_laws item_java item_wire"
proof -
  have "concat (map (\<lambda>v. [PI32 v]) vs) = map PI32 vs" for vs by (induction vs) simp_all
  then show ?thesis using item_wire_laws by (simp add: java_laws_def item_defs)
qed

lemma item_native_laws: "native_laws item_lib item_wire"
  using item_wire_laws by (simp add: native_laws_def item_lib_def item_defs)

lemma item_served: "served_by item_lib item_java item_wire item_service item_lost 64"
  by (auto simp: served_by_def item_lib_def item_lost_def split: prod.splits option.splits)

lemma item_answers: "small_answers item_wire item_service"
  by (simp add: small_answers_def small_answer_def small_def item_service_def item_wire_def)

lemma item_replies: "small_replies item_lib item_wire 16"
  by (simp add: small_replies_def small_def reply_cells_def transact_def item_lib_def split: option.split)

text \<open>The hooks let the transaction reach its target, and answer it with code 7 and one value.\<close>

theorem hooks_decide_transaction_witness:
  "case handleInterceptedTransaction item_lib sample_registry 16 7 ([], [PI32 1]) (Some ([], [])) 0 live_world of
     (handled, result, reply, w) \<Rightarrow> handled \<and> result = Some 7 \<and> reply = Some ([PI32 5], [])"
proof -
  let ?e = "\<lparr>reg_target_binder = Wp 16 24, reg_interceptor_binder = 64, reg_codes = []\<rparr>"
  have 1: "served_by item_lib item_java item_wire item_service item_lost (reg_interceptor_binder ?e)" by (simp add: item_served)
  have 2: "wp_of_sp item_lib 16 live_world = (Wp 16 24, snd (createWeak counting_refbase 16 live_world))"
    by (simp add: wp_of_sp_def item_lib_def counting_refbase_def live_world_def)
  have 3: "small ([] @ [PI32 1])" "\<forall>r \<in> set_option (Some []). small r" by (simp_all add: small_def)
  from hooks_decide_transaction [OF item_native_laws item_java_laws 1 item_answers item_replies 3 2 sample_lookup, of 7 0]
  have h: "handleInterceptedTransaction item_lib sample_registry 16 7 ([], [PI32 1]) (Some ([], [])) 0 live_world =
    (let (i, w2) = sp_assign item_lib nullptr 64 (wp_destroy item_lib (Wp 16 24) (snd (createWeak counting_refbase 16 live_world)));
         (handled, result, reply, w3) = mediated item_lib item_wire item_service item_lost 16 7 [PI32 1] (Some []) 0 w2
     in (handled, result, reply, sp_destroy item_lib i w3))" by simp
  obtain i w2 where i: "sp_assign item_lib nullptr 64 (wp_destroy item_lib (Wp 16 24)
      (snd (createWeak counting_refbase 16 live_world))) = (i, w2)" by (rule prod.exhaust)
  show ?thesis unfolding h i
    by (simp add: mediated_def item_service_def item_lost_def cells_defs item_wire_def reply_cells_def transact_def item_lib_def
        status_def Let_def)
qed

theorem registration_understood_witness:
  "(\<exists>msg reg' w'. registration_data item_java 16 64 [7, 9] = (True, msg) \<and>
     interceptor_onTransact item_lib (\<lambda>_. True) [] REGISTER_INTERCEPTOR_CODE ([], fst msg @ snd msg) live_world =
       Some (status_of OK, reg', w') \<and>
     map_of reg' = [Wp 16 24 \<mapsto> \<lparr>reg_target_binder = Wp 16 24, reg_interceptor_binder = 64, reg_codes = [7, 9]\<rparr>]) \<and>
   (\<exists>msg w'. registration_data item_java 16 0 [7, 9] = (True, msg) \<and>
     interceptor_onTransact item_lib (\<lambda>_. True) [] REGISTER_INTERCEPTOR_CODE ([], fst msg @ snd msg) live_world =
       Some (status_of BAD_VALUE, [], w'))"
proof -
  have refs: "fixed_refs item_lib (\<lambda>p. p + 8) (\<lambda>r. r - 8)"
    by (simp add: fixed_refs_def item_lib_def counting_refbase_def split: prod.split)
  have reg: "registry_ok (\<lambda>p. p + 8) []" by (simp add: registry_ok_def registry_inv_def keys_sorted_def)
  have l: "\<forall>w. localBinder item_lib 16 w \<noteq> nullptr" by (simp add: item_lib_def)
  note r = registration_understood [OF item_native_laws item_java_laws refs reg _ l, of "[7, 9]" "\<lambda>_. True" _ live_world]
  show ?thesis using r [of 64] r [of 0] by fastforce
qed

theorem backdoor_gives_interceptor_witness:
  "fst (getBinderBackdoor item_java item_service 16 live_world) = 48"
proof -
  let ?td = "sample_td\<lparr>td_code := BACKDOOR_TRANSACTION_CODE, td_sender_euid := 0\<rparr>"
  obtain d w1 where d: "decideInterception item_lib sample_registry ?td live_world = (d, w1)" by (rule prod.exhaust)
  have dw: "d = Some \<lparr>ti_code = kBackdoorCode, ti_target = wp_null\<rparr>" "w1 = live_world"
    using d by (simp_all add: decideInterception_def kBackdoorCode_def service_constants wp_assign_ptr_def wp_null_def)
  have ones: "(\<lambda>_. 1)(48 := 1) = (\<lambda>_::ptr. 1 :: int)" by auto
  have s: "stub_onTransact item_lib sample_registry 48 (queue_of d) (stream item_wire [] []) (Some (newParcel item_lib)) 0 w1 =
      (status_of OK, Some ([PBinder 48], []), [], live_world)"
    by (simp add: dw queue_of_def stub_onTransact_def wp_copy_def wp_destroy_def wp_eq_ptr_def wp_null_def write_binder_def
        sp_copy_def sp_destroy_def counting_refbase_def live_world_def item_lib_def put_def ones)
  from backdoor_gives_interceptor [OF item_native_laws item_java_laws _ _ d s, of item_service 16] show ?thesis
    by (simp add: item_service_def)
qed

text \<open>A service that keeps the first hook of the class.\<close>

definition idle_service :: "(counters, dparcel) service_ops" where
  "idle_service = item_service\<lparr>onPreTransact := default_onPreTransact\<rparr>"

definition idle_lib :: "(counters, dparcel) libbinder_ops" where
  "idle_lib = item_lib\<lparr>transactReply := (\<lambda>b c d r f w.
     if b = 64
     then (case item_lost c (fst d @ snd d) w of Some failure \<Rightarrow> failure
       | None \<Rightarrow> (case service_onTransact item_java idle_service c ([], fst d @ snd d) (Some ([], [])) f w of
        (handled, reply, w') \<Rightarrow> (status_of (if handled then OK else UNKNOWN_TRANSACTION),
          ([], case reply of None \<Rightarrow> [] | Some r \<Rightarrow> fst r @ snd r), w')))
     else (status_of NAME_NOT_FOUND, ([PI32 3], []), w))\<rparr>"

theorem default_hook_transparent_witness:
  "case stub_onTransact idle_lib sample_registry 48 [sample_entry] ([], [PI32 1]) (Some ([], [])) 0 live_world of
     (st, reply, q, w) \<Rightarrow> st = status_of NAME_NOT_FOUND \<and> reply = Some ([PI32 3], []) \<and> q = []"
proof -
  have 1: "native_laws idle_lib item_wire"
    using item_wire_laws by (simp add: native_laws_def idle_lib_def item_lib_def item_defs)
  have 2: "small_answers item_wire idle_service"
    by (simp add: small_answers_def small_answer_def small_def idle_service_def item_service_def
        default_onPreTransact_def item_wire_def)
  have 3: "onPreTransact idle_service = default_onPreTransact" by (simp add: idle_service_def)
  have 4: "fixed_refs idle_lib (\<lambda>p. p + 8) (\<lambda>r. r - 8)"
    by (simp add: fixed_refs_def idle_lib_def item_lib_def counting_refbase_def split: prod.split)
  have 5: "proper (\<lambda>p. p + 8) (ti_target sample_entry)" by (simp add: proper_def)
  have 6: "map_lookup (ti_target sample_entry) sample_registry =
      Some \<lparr>reg_target_binder = Wp 16 24, reg_interceptor_binder = 64, reg_codes = []\<rparr>" by (simp add: sample_lookup)
  have 7: "served_by idle_lib item_java item_wire idle_service item_lost
      (reg_interceptor_binder \<lparr>reg_target_binder = Wp 16 24, reg_interceptor_binder = 64, reg_codes = []\<rparr>)"
    by (auto simp: served_by_def idle_lib_def item_lib_def item_lost_def split: prod.splits option.splits)
  have 8: "small ([] @ [PI32 1])" "\<forall>r \<in> set_option (Some []). small r" by (simp_all add: small_def)
  have live: "wp_promote idle_lib (Wp 16 24) (wp_destroy idle_lib (Wp 16 24) (snd (wp_copy idle_lib (Wp 16 24) live_world))) =
      (16, ((\<lambda>_. 1)(16 := 2), \<lambda>_. 1))"
    by (auto simp: wp_promote_def wp_destroy_def wp_copy_def sp_set_pointer_def idle_lib_def item_lib_def counting_refbase_def
        live_world_def)
  have reply: "transact idle_lib 16 c ([], d) (Some ([], [])) f w = (status_of NAME_NOT_FOUND, Some ([PI32 3], []), w)"
    for c d f w by (simp add: transact_def idle_lib_def)
  from default_hook_transparent [OF 1 item_java_laws 2 3 4 5 6 7 8, of 48 "[]" 0 live_world] show ?thesis
    by (simp add: live reply Let_def split: prod.split)
qed

end
