(* ===== verification/Logging.thy ===== *)
theory Logging
  imports Prelude
begin

text \<open>
  \<open>logging.cpp\<close> and \<open>logging.hpp\<close>: the macros of the program and the function they call, which
  hands its arguments to the system log, \<open>__android_log_vprint\<close>. The other theories leave these
  calls out; here is what they do.
\<close>

datatype log_priority =
    ANDROID_LOG_VERBOSE | ANDROID_LOG_DEBUG | ANDROID_LOG_INFO | ANDROID_LOG_WARN | ANDROID_LOG_ERROR | ANDROID_LOG_FATAL

text \<open>An argument of the format, by the kind it is passed as.\<close>

datatype log_arg = Log_Int u32 | Log_Long u64 | Log_String string

record 'w log_ops =
  android_log_vprint :: "log_priority \<Rightarrow> string \<Rightarrow> string \<Rightarrow> log_arg list \<Rightarrow> 'w \<Rightarrow> 'w"
  log_errno :: "'w \<Rightarrow> u32"
  log_strerror :: "u32 \<Rightarrow> string"

definition log :: "'w log_ops \<Rightarrow> log_priority \<Rightarrow> string \<Rightarrow> string \<Rightarrow> log_arg list \<Rightarrow> 'w \<Rightarrow> 'w" where
  "log K prio tag fmt ap w = android_log_vprint K prio tag fmt ap w"

definition LOG_TAG :: string where "LOG_TAG = ''TrickyStoreOSS''"

text \<open>The first two expand to nothing in a build that defines \<open>NDEBUG\<close>.\<close>

definition LOGD :: "bool \<Rightarrow> 'w log_ops \<Rightarrow> string \<Rightarrow> log_arg list \<Rightarrow> 'w \<Rightarrow> 'w" where
  "LOGD ndebug K fmt args w = (if ndebug then w else log K ANDROID_LOG_DEBUG LOG_TAG fmt args w)"

definition LOGV :: "bool \<Rightarrow> 'w log_ops \<Rightarrow> string \<Rightarrow> log_arg list \<Rightarrow> 'w \<Rightarrow> 'w" where
  "LOGV ndebug K fmt args w = (if ndebug then w else log K ANDROID_LOG_VERBOSE LOG_TAG fmt args w)"

definition LOGI :: "'w log_ops \<Rightarrow> string \<Rightarrow> log_arg list \<Rightarrow> 'w \<Rightarrow> 'w" where
  "LOGI K fmt args w = log K ANDROID_LOG_INFO LOG_TAG fmt args w"

definition LOGW :: "'w log_ops \<Rightarrow> string \<Rightarrow> log_arg list \<Rightarrow> 'w \<Rightarrow> 'w" where
  "LOGW K fmt args w = log K ANDROID_LOG_WARN LOG_TAG fmt args w"

definition LOGE :: "'w log_ops \<Rightarrow> string \<Rightarrow> log_arg list \<Rightarrow> 'w \<Rightarrow> 'w" where
  "LOGE K fmt args w = log K ANDROID_LOG_ERROR LOG_TAG fmt args w"

definition LOGF :: "'w log_ops \<Rightarrow> string \<Rightarrow> log_arg list \<Rightarrow> 'w \<Rightarrow> 'w" where
  "LOGF K fmt args w = log K ANDROID_LOG_FATAL LOG_TAG fmt args w"

text \<open>The error number and its text are passed behind the arguments of the message.\<close>

definition PLOGE :: "'w log_ops \<Rightarrow> string \<Rightarrow> log_arg list \<Rightarrow> 'w \<Rightarrow> 'w" where
  "PLOGE K fmt args w =
     LOGE K (fmt @ '' failed with %d: %s'')
       (args @ [Log_Int (log_errno K w), Log_String (log_strerror K (log_errno K w))]) w"

text \<open>
  Leaving the calls out changes nothing the program computes, when writing to the system log does
  not change what the program reads: every message preserves every such part \<open>v\<close> of the world.
\<close>

lemma logging_is_silent:
  assumes "\<And>prio tag fmt ap w. v (android_log_vprint K prio tag fmt ap w) = v w"
  shows "v (LOGD b K fmt args w) = v w" "v (LOGV b K fmt args w) = v w" "v (LOGI K fmt args w) = v w"
    "v (LOGW K fmt args w) = v w" "v (LOGE K fmt args w) = v w" "v (LOGF K fmt args w) = v w"
    "v (PLOGE K fmt args w) = v w"
  using assms by (simp_all add: log_def LOGD_def LOGV_def LOGI_def LOGW_def LOGE_def LOGF_def PLOGE_def)

end
