(* ===== verification/Initialisation.thy ===== *)
theory Initialisation
  imports Ioctl_Hook
begin

text \<open>
  The start of the interceptor, \<open>initializeBinderInterception\<close>, which the injector calls through
  \<open>entry\<close>: it creates the interceptor and the stub and hooks \<open>ioctl\<close> of \<open>libbinder.so\<close>. Either
  all of it happens or the two globals are cleared again, and no reference is lost.
\<close>

text \<open>
  Counters observed in the world: the reference operations change them by one, allocation and the
  hooking library leave them alone, and an allocation that returns returns an object.
\<close>

definition counts :: "('w, 'x) refcount_ops_scheme \<Rightarrow> 'w plti_ops \<Rightarrow> ('w \<Rightarrow> ptr \<Rightarrow> int) \<Rightarrow> bool" where
  "counts L P cnt \<longleftrightarrow>
     (\<forall>p w. cnt (incStrong L p w) = (cnt w)(p := cnt w p + 1)) \<and>
     (\<forall>p w. cnt (decStrong L p w) = (cnt w)(p := cnt w p - 1)) \<and>
     (\<forall>w. cnt (snd (new_object P w)) = cnt w \<and> fst (new_object P w) \<noteq> nullptr) \<and>
     (\<forall>w. cnt (plti_init P w) = cnt w) \<and> (\<forall>s w. cnt (snd (plti_add_lib P s w)) = cnt w) \<and>
     (\<forall>s f new old w. cnt (snd (snd (plti_add_hook P s f new old w))) = cnt w)"

text \<open>The two references the globals hold.\<close>

definition globals_hold :: "globals \<Rightarrow> ptr \<Rightarrow> int" where
  "globals_hold g p = (if g_binder_interceptor g = p \<and> p \<noteq> nullptr then 1 else 0) +
     (if g_binder_stub g = p \<and> p \<noteq> nullptr then 1 else 0)"

lemma counts:
  assumes "counts L P cnt"
  shows "cnt (incStrong L p w) = (cnt w)(p := cnt w p + 1)" "cnt (decStrong L p w) = (cnt w)(p := cnt w p - 1)"
    and "new_object P w = (o1, w1) \<Longrightarrow> cnt w1 = cnt w \<and> o1 \<noteq> nullptr" "cnt (plti_init P w) = cnt w"
    and "plti_add_lib P s w = (b, w1) \<Longrightarrow> cnt w1 = cnt w"
    and "plti_add_hook P s f new old w = (b, v, w1) \<Longrightarrow> cnt w1 = cnt w"
  using assms unfolding counts_def by (metis fst_conv snd_conv)+

lemma assign_count:
  assumes "counts L P cnt" "o1 \<noteq> nullptr" "sp_make L o1 w = (m, w1)" "sp_assign_move L old m w1 = (i, x, w2)"
  shows "i = o1 \<and> (\<forall>p. cnt w2 p = cnt w p + (if p = o1 then 1 else 0) - (if p = old \<and> p \<noteq> nullptr then 1 else 0))"
  using assms(2-4) by (auto simp: sp_make_def sp_assign_move_def counts(1,2) [OF assms(1)] split: if_splits)

lemma clear_globals_count:
  assumes "counts L P cnt" "clear_globals L g w = (g', w')"
  shows "g_binder_interceptor g' = nullptr \<and> g_binder_stub g' = nullptr \<and> original_ioctl g' = original_ioctl g \<and>
    (\<forall>p. cnt w' p = cnt w p - globals_hold g p)"
  using assms(2) by (auto simp: clear_globals_def sp_clear_def Let_def globals_hold_def counts(2) [OF assms(1)]
      split: if_splits)

text \<open>
  C20. Initialisation is all or nothing: it reports success exactly when the library was added and
  the hook was installed, and then both globals are set and \<open>original_ioctl\<close> is what the hooking
  library returned; otherwise both globals are null. On every path the references taken and not
  returned are the change of what the globals hold.
\<close>

theorem initialisation_all_or_nothing:
  assumes "counts L P cnt" and "initializeBinderInterception L P f g w = (ok, g', w')"
  shows "\<exists>v added. plti_add_lib P kBinderLibraryName v = added \<and>
    (ok \<longleftrightarrow> fst added \<and> fst (plti_add_hook P kBinderLibraryName kIoctlFunctionName f (original_ioctl g) (snd added))) \<and>
    (if ok then g_binder_interceptor g' \<noteq> nullptr \<and> g_binder_stub g' \<noteq> nullptr \<and>
        original_ioctl g' = fst (snd (plti_add_hook P kBinderLibraryName kIoctlFunctionName f (original_ioctl g) (snd added)))
     else g_binder_interceptor g' = nullptr \<and> g_binder_stub g' = nullptr) \<and>
    (\<forall>p. cnt w' p - globals_hold g' p = cnt w p - globals_hold g p)"
proof -
  obtain o1 w1 where 1: "new_object P w = (o1, w1)" by (rule prod.exhaust)
  obtain m1 w2 where 2: "sp_make L o1 w1 = (m1, w2)" by (rule prod.exhaust)
  obtain i x1 w3 where 3: "sp_assign_move L (g_binder_interceptor g) m1 w2 = (i, x1, w3)" by (rule prod_cases3)
  obtain o2 w4 where 4: "new_object P w3 = (o2, w4)" by (rule prod.exhaust)
  obtain m2 w5 where 5: "sp_make L o2 w4 = (m2, w5)" by (rule prod.exhaust)
  obtain s x2 w6 where 6: "sp_assign_move L (g_binder_stub g) m2 w5 = (s, x2, w6)" by (rule prod_cases3)
  obtain a w7 where 7: "plti_add_lib P kBinderLibraryName (plti_init P w6) = (a, w7)" by (rule prod.exhaust)
  obtain h orig w8 where 8: "plti_add_hook P kBinderLibraryName kIoctlFunctionName f (original_ioctl g) w7 =
      (h, orig, w8)" by (rule prod_cases3)
  note c = counts [OF assms(1)]
  have i: "i = o1" "o1 \<noteq> nullptr" and s: "s = o2" "o2 \<noteq> nullptr"
    using assign_count [OF assms(1) _ 2 3] assign_count [OF assms(1) _ 5 6] c(3) [OF 1] c(3) [OF 4] by auto
  define g1 where "g1 = g\<lparr>g_binder_interceptor := i, g_binder_stub := s\<rparr>"
  have w7: "cnt w7 p - globals_hold g1 p = cnt w p - globals_hold g p" for p
    using assign_count [OF assms(1) _ 2 3] assign_count [OF assms(1) _ 5 6] c(3) [OF 1] c(3) [OF 4] c(5) [OF 7] c(4)
    by (auto simp: globals_hold_def g1_def)
  have w8: "cnt w8 = cnt w7" using c(6) [OF 8] .
  obtain g2 v2 where 9: "clear_globals L g1 w7 = (g2, v2)" by (rule prod.exhaust)
  obtain g3 v3 where 10: "clear_globals L (g1\<lparr>original_ioctl := orig\<rparr>) w8 = (g3, v3)" by (rule prod.exhaust)
  have run: "(ok, g', w') = (if \<not> a then (False, g2, v2) else if \<not> h then (False, g3, v3)
      else (True, g1\<lparr>original_ioctl := orig\<rparr>, w8))"
    using assms(2) i s 8 9 10
    by (auto simp: initializeBinderInterception_def 1 2 3 4 5 6 7 sp_bool_def g1_def Let_def split: if_splits)
  have hold: "globals_hold (g1\<lparr>original_ioctl := orig\<rparr>) p = globals_hold g1 p" for p by (simp add: globals_hold_def)
  have "globals_hold gn p = 0" if "g_binder_interceptor gn = nullptr" "g_binder_stub gn = nullptr" for gn p
    using that by (simp add: globals_hold_def)
  then show ?thesis
    using run 7 8 w7 w8 i s hold clear_globals_count [OF assms(1) 9] clear_globals_count [OF assms(1) 10]
    by (intro exI [of _ "plti_init P w6"] exI [of _ "(a, w7)"]) (auto simp: g1_def split: if_splits)
qed

text \<open>Counters as the world, and a hooking library that finds the library and may refuse the hook.\<close>

definition counter_ops :: "(ptr \<Rightarrow> int) refcount_ops" where
  "counter_ops = \<lparr>incStrong = (\<lambda>p w. w(p := w p + 1)), incStrongRequireStrong = (\<lambda>p w. w(p := w p + 1)),
     decStrong = (\<lambda>p w. w(p := w p - 1))\<rparr>"

definition counter_plti :: "bool \<Rightarrow> (ptr \<Rightarrow> int) plti_ops" where
  "counter_plti b = \<lparr>new_object = (\<lambda>w. (16, w)), plti_init = (\<lambda>w. w), plti_add_lib = (\<lambda>_ w. (True, w)),
     plti_add_hook = (\<lambda>_ _ _ _ w. (b, 96, w))\<rparr>"

theorem initialisation_all_or_nothing_witness:
  "case initializeBinderInterception counter_ops (counter_plti False) 64
      \<lparr>g_binder_interceptor = 0, g_binder_stub = 0, original_ioctl = 0\<rparr> (\<lambda>_. 0) of
     (ok, g', w') \<Rightarrow> \<not> ok \<and> g_binder_interceptor g' = nullptr \<and> w' 16 = 0"
proof -
  obtain ok g' w' where r: "initializeBinderInterception counter_ops (counter_plti False) 64
      \<lparr>g_binder_interceptor = 0, g_binder_stub = 0, original_ioctl = 0\<rparr> (\<lambda>_. 0) = (ok, g', w')"
    by (rule prod_cases3)
  have "counts counter_ops (counter_plti False) (\<lambda>w. w)"
    by (simp add: counts_def counter_ops_def counter_plti_def)
  from initialisation_all_or_nothing [OF this r] show ?thesis
    unfolding r by (auto simp: counter_plti_def globals_hold_def)
qed

end
