(* ===== verification/Maps_Props.thy ===== *)
theory Maps_Props
  imports Maps
begin

text \<open>
  The scanner inverts the format of \<open>/proc/<pid>/maps\<close>: every list of mappings printed as the
  kernel prints them is read back, whatever the padding; a line that is not a mapping is skipped
  without losing its neighbours.
\<close>

section \<open>Printing\<close>

definition digit_char :: "nat \<Rightarrow> char" where
  "digit_char d = char_of (if d < 10 then 48 + d else 87 + d)"

function to_digits :: "nat \<Rightarrow> nat \<Rightarrow> string" where
  "to_digits b n = (if b \<le> 1 \<or> n < b then [digit_char n] else to_digits b (n div b) @ [digit_char (n mod b)])"
  by pat_completeness auto
termination by (relation "measure snd") auto

declare to_digits.simps [simp del]

definition zero_padded :: "nat \<Rightarrow> string \<Rightarrow> string" where
  "zero_padded k s = replicate (k - length s) CHR ''0'' @ s"

text \<open>A mapping of the kernel, and the line \<open>/proc/<pid>/maps\<close> has for it.\<close>

record vma =
  v_start :: u64
  v_end :: u64
  v_r :: bool
  v_w :: bool
  v_x :: bool
  v_p :: bool
  v_off :: u64
  v_major :: u32
  v_minor :: u32
  v_ino :: u64
  v_path :: string

definition render_vma :: "nat \<Rightarrow> vma \<Rightarrow> string" where
  "render_vma pad v =
     zero_padded 8 (to_digits 16 (unat (v_start v))) @ ''-'' @
     zero_padded 8 (to_digits 16 (unat (v_end v))) @ '' '' @
     [if v_r v then CHR ''r'' else CHR ''-'', if v_w v then CHR ''w'' else CHR ''-'',
      if v_x v then CHR ''x'' else CHR ''-'', if v_p v then CHR ''p'' else CHR ''s''] @ '' '' @
     zero_padded 8 (to_digits 16 (unat (v_off v))) @ '' '' @
     zero_padded 2 (to_digits 16 (unat (v_major v))) @ '':'' @
     zero_padded 2 (to_digits 16 (unat (v_minor v))) @ '' '' @
     to_digits 10 (unat (v_ino v)) @ '' '' @ replicate pad CHR '' '' @ v_path v @ [CHR 0x0A]"

definition info_of :: "vma \<Rightarrow> MapInfo" where
  "info_of v = \<lparr>mi_start = v_start v, mi_end = v_end v,
     mi_perms = (if v_r v then PROT_READ else 0) OR (if v_w v then PROT_WRITE else 0) OR
       (if v_x v then PROT_EXEC else 0),
     mi_is_private = v_p v, mi_offset = v_off v, mi_dev = makedev (v_major v) (v_minor v),
     mi_inode = v_ino v, mi_path = v_path v\<rparr>"

text \<open>Paths have no line ends and no terminator and do not start with white space.\<close>

definition path_ok :: "string \<Rightarrow> bool" where
  "path_ok p \<longleftrightarrow> CHR 0x0A \<notin> set p \<and> CHR 0x00 \<notin> set p \<and> (p \<noteq> [] \<longrightarrow> \<not> c_isspace (hd p))"

section \<open>Numbers\<close>

lemma digit_value_char: "d < 16 \<Longrightarrow> digit_value (digit_char d) = Some d"
  by (simp add: digit_value_def digit_char_def)

lemma is_digit_char: "d < b \<Longrightarrow> b \<le> 16 \<Longrightarrow> is_digit b (digit_char d)"
  by (simp add: is_digit_def digit_value_char)

lemma is_digit_neq:
  assumes "is_digit b c"
  shows "\<not> c_isspace c" "c \<noteq> CHR ''-''" "c \<noteq> CHR ''+''" "c \<noteq> CHR ''x''" "c \<noteq> CHR ''X''"
    "c \<noteq> CHR 0x0A" "c \<noteq> CHR 0x00"
  using assms by (auto simp: is_digit_def digit_value_def c_isspace_def Let_def split: if_splits)

lemma to_digits_digits: "1 < b \<Longrightarrow> b \<le> 16 \<Longrightarrow> c \<in> set (to_digits b n) \<Longrightarrow> is_digit b c"
proof (induction b n rule: to_digits.induct)
  case (1 b n)
  then show ?case
    by (subst (asm) (2) to_digits.simps) (auto simp: is_digit_char split: if_splits)
qed

lemma to_digits_nonempty: "to_digits b n \<noteq> []"
  by (subst to_digits.simps) simp

lemma digits_value_append:
  "digits_value b acc (xs @ ys) = digits_value b (digits_value b acc xs) ys"
  by (induction b acc xs rule: digits_value.induct) auto

lemma digits_value_to_digits: "1 < b \<Longrightarrow> b \<le> 16 \<Longrightarrow> digits_value b 0 (to_digits b n) = n"
proof (induction b n rule: to_digits.induct)
  case (1 b n)
  show ?case
  proof (cases "n < b")
    case True
    then show ?thesis using 1(3) by (subst to_digits.simps) (simp add: digit_value_char)
  next
    case False
    then have "digits_value b 0 (to_digits b (n div b)) = n div b" using 1 by simp
    then show ?thesis using False 1(2,3)
      by (subst to_digits.simps)
         (simp add: digits_value_append digit_value_char less_le_trans [OF mod_less_divisor])
  qed
qed

lemma digits_value_zeros: "digits_value b 0 (replicate k CHR ''0'' @ s) = digits_value b 0 s"
  by (induction k) (simp_all add: digit_value_def)

lemma scan_unsigned_digits:
  assumes "\<And>c. c \<in> set ds \<Longrightarrow> is_digit b c" and "ds \<noteq> []" and "digits_value b 0 ds < 2 ^ 64"
    and "r = [] \<or> \<not> is_digit b (hd r) \<and> hd r \<noteq> CHR ''x'' \<and> hd r \<noteq> CHR ''X''"
  shows "scan_unsigned b (ds @ r) = Some (of_nat (digits_value b 0 ds), r)"
proof -
  obtain d ds' where ds: "ds = d # ds'" using assms(2) by (cases ds) auto
  have d: "is_digit b d" using assms(1) ds by simp
  have sp: "skip_space (ds @ r) = ds @ r" "scan_sign (ds @ r) = (False, ds @ r)"
    using is_digit_neq [OF d] by (simp_all add: ds skip_space_def)
  have "(ds @ r) ! 1 \<noteq> CHR ''x'' \<and> (ds @ r) ! 1 \<noteq> CHR ''X''" if "2 < length (ds @ r)"
  proof (cases ds')
    case Nil
    then show ?thesis using that assms(4) ds by (cases r) auto
  next
    case (Cons e es)
    then have "is_digit b e" using assms(1) ds by simp
    then show ?thesis using is_digit_neq(4,5) [of b e] Cons ds by simp
  qed
  then have pr: "scan_prefix b (ds @ r) = ds @ r" by (auto simp: scan_prefix_def)
  have tk: "takeWhile (is_digit b) (ds @ r) = ds" "dropWhile (is_digit b) (ds @ r) = r"
    using assms(1,4) by (cases r; simp add: takeWhile_append2 dropWhile_append2)+
  show ?thesis
    using assms(2,3) by (simp add: scan_unsigned_def sp pr tk not_le [symmetric])
qed

text \<open>The form the fields of a line have.\<close>

lemma scan_field:
  fixes w :: u64
  assumes "b = 10 \<or> b = 16" and "\<not> is_digit b c" "c \<noteq> CHR ''x''" "c \<noteq> CHR ''X''"
  shows "scan_unsigned b (zero_padded k (to_digits b (unat w)) @ c # r) = Some (w, c # r)"
    and "scan_unsigned b (to_digits b (unat w) @ c # r) = Some (w, c # r)"
proof -
  have b: "1 < b" "b \<le> 16" using assms(1) by auto
  have z: "is_digit b CHR ''0''" using b by (simp add: is_digit_def digit_value_def)
  have v: "digits_value b 0 (to_digits b (unat w)) = unat w" by (rule digits_value_to_digits [OF b])
  note dig = to_digits_digits [OF b]
  show "scan_unsigned b (zero_padded k (to_digits b (unat w)) @ c # r) = Some (w, c # r)"
    using scan_unsigned_digits [of "zero_padded k (to_digits b (unat w))" b "c # r"] dig z assms(2-4)
    by (auto simp: zero_padded_def digits_value_zeros v to_digits_nonempty unat_lt_2p_64 [simplified])
  show "scan_unsigned b (to_digits b (unat w) @ c # r) = Some (w, c # r)"
    using scan_unsigned_digits [of "to_digits b (unat w)" b "c # r"] dig assms(2-4)
    by (auto simp: v to_digits_nonempty unat_lt_2p_64 [simplified])
qed

section \<open>One line\<close>

lemma c_isspace_simps [simp]:
  "c_isspace CHR '' ''" "\<not> c_isspace CHR ''-''" "\<not> c_isspace CHR ''r''" "\<not> c_isspace CHR ''w''"
  "\<not> c_isspace CHR ''x''" "\<not> c_isspace CHR ''p''" "\<not> c_isspace CHR ''s''"
  by (simp_all add: c_isspace_def)

lemma not_digit [simp]:
  "\<not> is_digit b CHR ''-''" "\<not> is_digit b CHR '' ''" "\<not> is_digit b CHR '':''"
  by (simp_all add: is_digit_def digit_value_def)

lemma skip_space_Cons: "skip_space (c # s) = (if c_isspace c then skip_space s else c # s)"
  by (simp add: skip_space_def)

lemma skip_space_idem: "skip_space (skip_space s) = skip_space s"
  by (simp add: skip_space_def dropWhile_idem)

lemma scan_unsigned_skip: "scan_unsigned b (skip_space s) = scan_unsigned b s"
  by (simp add: scan_unsigned_def skip_space_idem)

lemma scan_unsigned_space: "scan_unsigned b (CHR '' '' # s) = scan_unsigned b s"
  by (simp add: scan_unsigned_def skip_space_Cons)

lemma scan_word_perms:
  "\<not> c_isspace a \<Longrightarrow> \<not> c_isspace b \<Longrightarrow> \<not> c_isspace c \<Longrightarrow> \<not> c_isspace d \<Longrightarrow>
   scan_word 4 (a # b # c # d # CHR '' '' # r) = Some ([a, b, c, d], CHR '' '' # r)"
  by (simp add: scan_word_def skip_space_Cons numeral_eq_Suc)

lemma scan_word_skip: "scan_word n (skip_space s) = scan_word n s"
  by (simp add: scan_word_def skip_space_idem)

lemma scan_word_space: "scan_word n (CHR '' '' # s) = scan_word n s"
  by (simp add: scan_word_def skip_space_Cons)

lemma skip_space_pad:
  "path_ok p \<Longrightarrow> skip_space (replicate k CHR '' '' @ p) = p"
  by (induction k) (simp_all add: skip_space_Cons, cases p, simp_all add: skip_space_def path_ok_def)

text \<open>The part of a line before its newline.\<close>

definition line_body :: "nat \<Rightarrow> vma \<Rightarrow> string" where
  "line_body pad v = butlast (render_vma pad v)"

lemma sscanf_render:
  assumes "path_ok (v_path v)" and "\<not> c_isspace r" "\<not> c_isspace w" "\<not> c_isspace x" "\<not> c_isspace p"
    and "r = (if v_r v then CHR ''r'' else CHR ''-'')" "w = (if v_w v then CHR ''w'' else CHR ''-'')"
    and "x = (if v_x v then CHR ''x'' else CHR ''-'')" "p = (if v_p v then CHR ''p'' else CHR ''s'')"
  shows "sscanf_map (line_body pad v) = Some (v_start v, v_end v, [r, w, x, p],
    v_off v, v_major v, v_minor v, v_ino v, v_path v)"
proof -
  have dev: "unat d = unat (ucast d :: u64)" for d :: u32
    using unsigned_less [of d, where ?'a = nat] by (simp add: unsigned_ucast_eq take_bit_nat_eq_self)
  have up: "ucast (ucast d :: u64) = d" for d :: u32
    by (rule ucast_up_ucast_id) (simp add: is_up)
  have body: "line_body pad v =
     zero_padded 8 (to_digits 16 (unat (v_start v))) @ CHR ''-'' #
     zero_padded 8 (to_digits 16 (unat (v_end v))) @ CHR '' '' #
     r # w # x # p # CHR '' '' #
     zero_padded 8 (to_digits 16 (unat (v_off v))) @ CHR '' '' #
     zero_padded 2 (to_digits 16 (unat (ucast (v_major v) :: u64))) @ CHR '':'' #
     zero_padded 2 (to_digits 16 (unat (ucast (v_minor v) :: u64))) @ CHR '' '' #
     to_digits 10 (unat (v_ino v)) @ CHR '' '' # replicate pad CHR '' '' @ v_path v"
    by (simp add: line_body_def render_vma_def butlast_append dev [symmetric] assms(6-9))
  show ?thesis
    unfolding sscanf_map_def body
    by (simp add: scan_field scan_word_perms [OF assms(2-5)] scan_word_skip scan_word_space
        scan_unsigned_skip scan_unsigned_space skip_space_Cons [of "CHR '' ''"]
        skip_space_pad [OF assms(1)] up)
qed

definition text_char :: "char \<Rightarrow> bool" where
  "text_char c \<longleftrightarrow> c \<noteq> CHR 0x0A \<and> c \<noteq> CHR 0x00"

lemma text_replicate: "text_char c \<Longrightarrow> list_all text_char (replicate n c)"
  by (induction n) simp_all

lemma text_digits: "b = 10 \<or> b = 16 \<Longrightarrow> list_all text_char (to_digits b n)"
  unfolding list_all_iff
proof
  fix c assume "b = 10 \<or> b = 16" "c \<in> set (to_digits b n)"
  then have "is_digit b c" using to_digits_digits [of b c n] by auto
  then show "text_char c" using is_digit_neq(6,7) [of b c] by (simp add: text_char_def)
qed

lemma text_padded: "list_all text_char s \<Longrightarrow> list_all text_char (zero_padded k s)"
  by (simp add: zero_padded_def text_replicate text_char_def)

lemma body_chars:
  assumes "path_ok (v_path v)" and "c \<in> set (line_body pad v)"
  shows "c \<noteq> CHR 0x0A \<and> c \<noteq> CHR 0x00"
proof -
  have "list_all text_char (v_path v)"
    using assms(1) by (auto simp: path_ok_def list_all_iff text_char_def)
  then have "list_all text_char (line_body pad v)"
    by (simp add: line_body_def render_vma_def butlast_append text_digits text_padded text_replicate)
       (simp add: text_replicate text_char_def)
  then have "text_char c" using assms(2) by (simp add: list_all_iff)
  then show ?thesis by (simp add: text_char_def)
qed

lemma render_body: "render_vma pad v = line_body pad v @ [CHR 0x0A]"
  by (simp add: line_body_def render_vma_def butlast_append)

lemma scan_line_render:
  assumes "path_ok (v_path v)"
  shows "scan_line (render_vma pad v) = Some (info_of v)"
proof -
  have "c_string (line_body pad v) = line_body pad v"
    using body_chars [OF assms] by (simp add: c_string_def takeWhile_eq_all_conv)
  moreover have "skip_space (v_path v) = v_path v"
    using assms by (cases "v_path v") (simp_all add: path_ok_def skip_space_def)
  ultimately show ?thesis
    by (simp add: scan_line_def render_body sscanf_render [OF assms _ _ _ _ refl refl refl refl]
        perm_at_def info_of_def)
qed

section \<open>The whole file\<close>

lemma next_line_append:
  assumes "CHR 0x0A \<notin> set l"
  shows "next_line ((l @ [CHR 0x0A]) @ r) = (l @ [CHR 0x0A], r)"
proof -
  have "takeWhile (\<lambda>c. c \<noteq> CHR 0x0A) (l @ CHR 0x0A # r) = l"
    "dropWhile (\<lambda>c. c \<noteq> CHR 0x0A) (l @ CHR 0x0A # r) = CHR 0x0A # r"
    using assms by (induction l) auto
  then show ?thesis by (simp add: next_line_def)
qed

lemma scan_lines_line:
  assumes "CHR 0x0A \<notin> set l"
  shows "scan_lines ((l @ [CHR 0x0A]) @ r) =
    (case scan_line (l @ [CHR 0x0A]) of None \<Rightarrow> [] | Some i \<Rightarrow> [i]) @ scan_lines r"
  by (subst scan_lines.simps) (simp add: next_line_append [OF assms, simplified])

definition render_maps :: "(nat \<times> vma) list \<Rightarrow> string" where
  "render_maps vs = concat (map (\<lambda>(pad, v). render_vma pad v) vs)"

lemma scan_lines_render:
  "\<forall>(pad, v) \<in> set vs. path_ok (v_path v) \<Longrightarrow>
   scan_lines (render_maps vs @ r) = map (info_of \<circ> snd) vs @ scan_lines r"
proof (induction vs)
  case (Cons x vs)
  obtain pad v where x: "x = (pad, v)" by (rule prod.exhaust)
  with Cons.prems have ok: "path_ok (v_path v)" by simp
  then have nl: "CHR 0x0A \<notin> set (line_body pad v)" using body_chars by blast
  have "scan_lines (render_maps (x # vs) @ r) = info_of v # scan_lines (render_maps vs @ r)"
    using scan_lines_line [OF nl, of "render_maps vs @ r"] scan_line_render [OF ok, of pad]
    by (simp add: render_maps_def x render_body)
  with Cons show ?case by (simp add: x)
qed (simp add: render_maps_def)

text \<open>
  C31. \<open>Scan\<close> reads back every list of mappings that \<open>/proc/<pid>/maps\<close> prints: for all
  addresses, protections, devices, inodes, paddings and paths (which may contain spaces, as
  \<open>(deleted)\<close> does), each line gives one entry with exactly its fields, in order.
\<close>

theorem scan_reads_back:
  assumes "fs (''/proc/'' @ pid @ ''/maps'') = Some (render_maps vs)"
    and "\<And>pad v. (pad, v) \<in> set vs \<Longrightarrow> path_ok (v_path v)"
  shows "Scan fs pid = map (info_of \<circ> snd) vs"
proof -
  have "\<forall>(pad, v) \<in> set vs. path_ok (v_path v)" using assms(2) by blast
  then have "scan_lines (render_maps vs) = map (info_of \<circ> snd) vs"
    using scan_lines_render [of vs "[]"] by (simp add: scan_lines.simps [of "[]"])
  then show ?thesis unfolding Scan_def assms(1) by simp
qed

text \<open>
  C32. A line that has not the seven fields (a mapping line of another format, an empty line)
  is skipped, and every line before and after it is still read.
\<close>

theorem scan_skips_malformed:
  assumes "fs (''/proc/'' @ pid @ ''/maps'') = Some (render_maps vs @ (l @ [CHR 0x0A]) @ render_maps us)"
    and "CHR 0x0A \<notin> set l" and "sscanf_map (c_string l) = None"
    and "\<And>pad v. (pad, v) \<in> set vs \<union> set us \<Longrightarrow> path_ok (v_path v)"
  shows "Scan fs pid = map (info_of \<circ> snd) (vs @ us)"
proof -
  have ok: "\<forall>(pad, v) \<in> set vs. path_ok (v_path v)" "\<forall>(pad, v) \<in> set us. path_ok (v_path v)"
    using assms(4) by blast+
  have "scan_line (l @ [CHR 0x0A]) = None" using assms(3) by (simp add: scan_line_def)
  then have "scan_lines (render_maps vs @ (l @ [CHR 0x0A]) @ render_maps us) =
      map (info_of \<circ> snd) (vs @ us)"
    using scan_lines_render [OF ok(1), of "(l @ [CHR 0x0A]) @ render_maps us"]
      scan_lines_line [OF assms(2), of "render_maps us"] scan_lines_render [OF ok(2), of "[]"]
    by (simp add: scan_lines.simps [of "[]"])
  then show ?thesis unfolding Scan_def assms(1) by simp
qed

text \<open>The mapping of \<open>libc.so\<close> of the example below.\<close>

definition libc_vma :: vma where
  "libc_vma = \<lparr>v_start = 0x7f00001000, v_end = 0x7f00002000, v_r = True, v_w = False, v_x = True, v_p = True,
     v_off = 0, v_major = 0xfe, v_minor = 3, v_ino = 1234, v_path = ''/system/lib64/libc.so''\<rparr>"

lemma libc_path_ok: "path_ok (v_path libc_vma)"
  by (simp add: path_ok_def libc_vma_def c_isspace_def)

theorem scan_reads_back_witness:
  "Scan (\<lambda>_. Some (render_maps [(3, libc_vma)])) ''self'' = [info_of libc_vma]"
  using scan_reads_back [of "\<lambda>_. Some (render_maps [(3, libc_vma)])" "''self''" "[(3, libc_vma)]"]
    libc_path_ok by simp

theorem scan_skips_malformed_witness:
  "Scan (\<lambda>_. Some (render_maps [(3, libc_vma)] @ (''x'' @ [CHR 0x0A]) @ render_maps [])) ''self'' =
     [info_of libc_vma]"
proof -
  have "sscanf_map (c_string ''x'') = None"
    by (simp add: sscanf_map_def c_string_def scan_unsigned_def scan_prefix_def skip_space_def
        is_digit_def digit_value_def)
  then show ?thesis
    using scan_skips_malformed [of "\<lambda>_. Some (render_maps [(3, libc_vma)] @ (''x'' @ [CHR 0x0A]) @ render_maps [])"
      "''self''" "[(3, libc_vma)]" "''x''" "[]"] libc_path_ok by simp
qed

end
