(* ===== verification/Unique_Fd.thy ===== *)
theory Unique_Fd
  imports Prelude
begin

text \<open>
  Owners of file descriptors: \<open>android::base::unique_fd_impl\<close>
  (\<open>external/AOSP/include/android-base/unique_fd.h\<close>, with its \<open>Closer\<close> parameter and the
  helpers around it), \<open>android::binder::unique_fd\<close> (\<open>external/AOSP/include/binder/unique_fd.h\<close>)
  and the injector's \<open>UniqueFd\<close> (\<open>inject/utils.hpp\<close>). A descriptor is an integer, -1 the empty
  owner. The contract the three classes share is the locale \<open>fd_owner\<close>: every descriptor
  handed to an owner is held by one owner, was closed, or was released, once for each time it
  was handed over.
\<close>

section \<open>unique_fd_impl\<close>

text \<open>
  A closer: \<open>fd_tag\<close> moves the ownership tag of a descriptor, \<open>fd_close\<close> closes it; owners are
  named by their address. \<open>get_errno\<close> and \<open>set_errno\<close> access the thread's \<open>errno\<close>.
\<close>

record 'w closer =
  fd_tag :: "int \<Rightarrow> u64 \<Rightarrow> u64 \<Rightarrow> 'w \<Rightarrow> 'w"
  fd_close :: "int \<Rightarrow> u64 \<Rightarrow> 'w \<Rightarrow> 'w"
  get_errno :: "'w \<Rightarrow> int"
  set_errno :: "int \<Rightarrow> 'w \<Rightarrow> 'w"

definition ufd_reset_tag :: "'w closer \<Rightarrow> u64 \<Rightarrow> int \<Rightarrow> int \<Rightarrow> u64 \<Rightarrow> 'w \<Rightarrow> int \<times> 'w" where
  "ufd_reset_tag C this fd new_value previous_tag w =
     (let previous_errno = get_errno C w;
          w = (if fd \<noteq> -1 then fd_close C fd this w else w);
          w = (if new_value \<noteq> -1 then fd_tag C new_value previous_tag this w else w)
      in (new_value, set_errno C previous_errno w))"

definition ufd_reset :: "'w closer \<Rightarrow> u64 \<Rightarrow> int \<Rightarrow> int \<Rightarrow> 'w \<Rightarrow> int \<times> 'w" where
  "ufd_reset C this fd new_value w = ufd_reset_tag C this fd new_value 0 w"

definition ufd_default :: int where "ufd_default = -1"

definition ufd_of_int :: "'w closer \<Rightarrow> u64 \<Rightarrow> int \<Rightarrow> 'w \<Rightarrow> int \<times> 'w" where
  "ufd_of_int C this fd w = ufd_reset C this (-1) fd w"

definition ufd_destroy :: "'w closer \<Rightarrow> u64 \<Rightarrow> int \<Rightarrow> 'w \<Rightarrow> 'w" where
  "ufd_destroy C this fd w = snd (ufd_reset C this fd (-1) w)"

text \<open>\<open>release\<close> returns the descriptor given up and the new member.\<close>

definition ufd_release :: "'w closer \<Rightarrow> u64 \<Rightarrow> int \<Rightarrow> 'w \<Rightarrow> int \<times> int \<times> 'w" where
  "ufd_release C this fd w = (let w = fd_tag C fd this 0 w in (fd, -1, w))"

text \<open>The move constructor: the new member, the source's new member.\<close>

definition ufd_move :: "'w closer \<Rightarrow> u64 \<Rightarrow> u64 \<Rightarrow> int \<Rightarrow> 'w \<Rightarrow> int \<times> int \<times> 'w" where
  "ufd_move C this other other_fd w =
     (let (ret, other_fd, w) = ufd_release C other other_fd w;
          (fd, w) = ufd_reset C this (-1) ret w
      in (fd, other_fd, w))"

definition ufd_ok :: "int \<Rightarrow> bool" where "ufd_ok fd \<longleftrightarrow> fd \<ge> 0"

text \<open>The default closer where \<open>fdsan\<close> is not available: no tags, and \<open>close(2)\<close>.\<close>

definition default_closer :: "(int \<Rightarrow> 'w \<Rightarrow> 'w) \<Rightarrow> ('w \<Rightarrow> int) \<Rightarrow> (int \<Rightarrow> 'w \<Rightarrow> 'w) \<Rightarrow> 'w closer" where
  "default_closer sys_close ge se =
     \<lparr>fd_tag = (\<lambda>_ _ _ w. w), fd_close = (\<lambda>fd _. sys_close fd), get_errno = ge, set_errno = se\<rparr>"

text \<open>
  On bionic the tag of an owner is made of its address, and the two \<open>fdsan\<close> functions are used
  when the platform has them (\<open>exchange\<close>, \<open>close_with_tag\<close>).
\<close>

definition bionic_closer ::
  "(u64 \<Rightarrow> u64) \<Rightarrow> (int \<Rightarrow> u64 \<Rightarrow> u64 \<Rightarrow> 'w \<Rightarrow> 'w) option \<Rightarrow> (int \<Rightarrow> u64 \<Rightarrow> 'w \<Rightarrow> 'w) option \<Rightarrow>
   (int \<Rightarrow> 'w \<Rightarrow> 'w) \<Rightarrow> ('w \<Rightarrow> int) \<Rightarrow> (int \<Rightarrow> 'w \<Rightarrow> 'w) \<Rightarrow> 'w closer" where
  "bionic_closer create_owner_tag exchange close_with_tag sys_close ge se = \<lparr>
     fd_tag = (\<lambda>fd old_addr new_addr w. case exchange of
         Some x \<Rightarrow> x fd (create_owner_tag old_addr) (create_owner_tag new_addr) w | None \<Rightarrow> w),
     fd_close = (\<lambda>fd addr w. case close_with_tag of
         Some x \<Rightarrow> x fd (create_owner_tag addr) w | None \<Rightarrow> sys_close fd w),
     get_errno = ge, set_errno = se\<rparr>"

section \<open>binder::unique_fd and UniqueFd\<close>

definition bfd_reset :: "'w closer \<Rightarrow> int \<Rightarrow> int \<Rightarrow> 'w \<Rightarrow> int \<times> 'w" where
  "bfd_reset C fd new_value w =
     (let previous_errno = get_errno C w;
          w = (if fd \<noteq> -1 then fd_close C fd 0 w else w)
      in (new_value, set_errno C previous_errno w))"

definition bfd_of_int :: "'w closer \<Rightarrow> int \<Rightarrow> 'w \<Rightarrow> int \<times> 'w" where
  "bfd_of_int C fd w = bfd_reset C (-1) fd w"

definition bfd_destroy :: "'w closer \<Rightarrow> int \<Rightarrow> 'w \<Rightarrow> 'w" where
  "bfd_destroy C fd w = snd (bfd_reset C fd (-1) w)"

definition bfd_release :: "int \<Rightarrow> int \<times> int" where
  "bfd_release fd = (fd, -1)"

definition bfd_move :: "'w closer \<Rightarrow> int \<Rightarrow> 'w \<Rightarrow> int \<times> int \<times> 'w" where
  "bfd_move C other_fd w =
     (let (ret, other_fd) = bfd_release other_fd; (fd, w) = bfd_reset C (-1) ret w
      in (fd, other_fd, w))"

definition bfd_ok :: "int \<Rightarrow> bool" where "bfd_ok fd \<longleftrightarrow> fd \<ge> 0"

text \<open>The injector's owner closes only descriptors that are not negative, and moves by swapping.\<close>

definition UniqueFd_destroy :: "'w closer \<Rightarrow> int \<Rightarrow> 'w \<Rightarrow> 'w" where
  "UniqueFd_destroy C fd w = (if fd \<ge> 0 then fd_close C fd 0 w else w)"

definition UniqueFd_move :: "int \<Rightarrow> int \<times> int" where
  "UniqueFd_move other_fd = (other_fd, -1)"

definition UniqueFd_assign_move :: "int \<Rightarrow> int \<Rightarrow> int \<times> int" where
  "UniqueFd_assign_move fd other_fd = (other_fd, fd)"

section \<open>Reading a descriptor\<close>

text \<open>
  The number of an owner, its comparisons with integers and other owners, and \<open>borrowed_fd\<close>, which
  holds a number without owning it. None of them touches the descriptor.
\<close>

definition ufd_get :: "int \<Rightarrow> int" where "ufd_get fd = fd"
definition ufd_to_int :: "int \<Rightarrow> int" where "ufd_to_int fd = ufd_get fd"
definition ufd_greater_equal :: "int \<Rightarrow> int \<Rightarrow> bool" where "ufd_greater_equal fd rhs \<longleftrightarrow> ufd_get fd \<ge> rhs"
definition ufd_less :: "int \<Rightarrow> int \<Rightarrow> bool" where "ufd_less fd rhs \<longleftrightarrow> ufd_get fd < rhs"
definition ufd_eq_int :: "int \<Rightarrow> int \<Rightarrow> bool" where "ufd_eq_int fd rhs \<longleftrightarrow> ufd_get fd = rhs"
definition ufd_not_eq_int :: "int \<Rightarrow> int \<Rightarrow> bool" where "ufd_not_eq_int fd rhs \<longleftrightarrow> ufd_get fd \<noteq> rhs"
definition ufd_eq :: "int \<Rightarrow> int \<Rightarrow> bool" where "ufd_eq fd rhs \<longleftrightarrow> ufd_get fd = ufd_get rhs"
definition ufd_not_eq :: "int \<Rightarrow> int \<Rightarrow> bool" where "ufd_not_eq fd rhs \<longleftrightarrow> ufd_get fd \<noteq> ufd_get rhs"

definition bfd_get :: "int \<Rightarrow> int" where "bfd_get fd = fd"
definition UniqueFd_to_int :: "int \<Rightarrow> int" where "UniqueFd_to_int fd = fd"

record borrowed_fd =
  borrowed :: int

definition borrow_int :: "int \<Rightarrow> borrowed_fd" where "borrow_int fd = \<lparr>borrowed = fd\<rparr>"
definition borrow_ufd :: "int \<Rightarrow> borrowed_fd" where "borrow_ufd fd = \<lparr>borrowed = ufd_get fd\<rparr>"
definition borrowed_get :: "borrowed_fd \<Rightarrow> int" where "borrowed_get b = borrowed b"
definition borrowed_greater_equal :: "borrowed_fd \<Rightarrow> int \<Rightarrow> bool" where "borrowed_greater_equal b rhs \<longleftrightarrow> borrowed_get b \<ge> rhs"
definition borrowed_less :: "borrowed_fd \<Rightarrow> int \<Rightarrow> bool" where "borrowed_less b rhs \<longleftrightarrow> borrowed_get b < rhs"
definition borrowed_eq :: "borrowed_fd \<Rightarrow> int \<Rightarrow> bool" where "borrowed_eq b rhs \<longleftrightarrow> borrowed_get b = rhs"
definition borrowed_not_eq :: "borrowed_fd \<Rightarrow> int \<Rightarrow> bool" where "borrowed_not_eq b rhs \<longleftrightarrow> borrowed_get b \<noteq> rhs"

text \<open>The borrowed class of \<open>binder/unique_fd.h\<close> has no comparisons.\<close>

definition binder_borrow_int :: "int \<Rightarrow> borrowed_fd" where "binder_borrow_int fd = \<lparr>borrowed = fd\<rparr>"
definition binder_borrow_ufd :: "int \<Rightarrow> borrowed_fd" where "binder_borrow_ufd fd = \<lparr>borrowed = bfd_get fd\<rparr>"
definition binder_borrowed_get :: "borrowed_fd \<Rightarrow> int" where "binder_borrowed_get b = borrowed b"

section \<open>Programs over owners\<close>

text \<open>
  A program works on a list of owners; the owner at index \<open>i\<close> lives at address \<open>addr i\<close>. An
  owner that was destroyed stays in the list as an empty one. Indices out of range have no
  effect. The state also lists the descriptors that \<open>release\<close> gave up.
\<close>

datatype fd_op =
    FdDefault | FdOfInt int | FdMove nat | FdMoveAssign nat nat | FdReset nat int
  | FdRelease nat | FdDestroy nat

type_synonym 'w fd_state = "int list \<times> int list \<times> 'w"

fun ufd_step :: "'w closer \<Rightarrow> (nat \<Rightarrow> u64) \<Rightarrow> fd_op \<Rightarrow> 'w fd_state \<Rightarrow> 'w fd_state" where
  "ufd_step C addr FdDefault (vs, rel, w) = (vs @ [ufd_default], rel, w)"
| "ufd_step C addr (FdOfInt fd) (vs, rel, w) =
     (let (v, w) = ufd_of_int C (addr (length vs)) fd w in (vs @ [v], rel, w))"
| "ufd_step C addr (FdMove j) (vs, rel, w) =
     (if j < length vs
      then let (v, o', w) = ufd_move C (addr (length vs)) (addr j) (vs ! j) w in (vs[j := o'] @ [v], rel, w)
      else (vs, rel, w))"
| "ufd_step C addr (FdMoveAssign i j) (vs, rel, w) =
     (if i < length vs \<and> j < length vs
      then let fd = vs ! j; vs = vs[j := -1];
               (v, w) = ufd_reset_tag C (addr i) (vs ! i) fd (addr j) w
           in (vs[i := v], rel, w)
      else (vs, rel, w))"
| "ufd_step C addr (FdReset i fd) (vs, rel, w) =
     (if i < length vs then let (v, w) = ufd_reset C (addr i) (vs ! i) fd w in (vs[i := v], rel, w)
      else (vs, rel, w))"
| "ufd_step C addr (FdRelease i) (vs, rel, w) =
     (if i < length vs then let (r, v, w) = ufd_release C (addr i) (vs ! i) w in (vs[i := v], r # rel, w)
      else (vs, rel, w))"
| "ufd_step C addr (FdDestroy i) (vs, rel, w) =
     (if i < length vs then (vs[i := -1], rel, ufd_destroy C (addr i) (vs ! i) w) else (vs, rel, w))"

fun bfd_step :: "'w closer \<Rightarrow> fd_op \<Rightarrow> 'w fd_state \<Rightarrow> 'w fd_state" where
  "bfd_step C FdDefault (vs, rel, w) = (vs @ [-1], rel, w)"
| "bfd_step C (FdOfInt fd) (vs, rel, w) = (let (v, w) = bfd_of_int C fd w in (vs @ [v], rel, w))"
| "bfd_step C (FdMove j) (vs, rel, w) =
     (if j < length vs then let (v, o', w) = bfd_move C (vs ! j) w in (vs[j := o'] @ [v], rel, w)
      else (vs, rel, w))"
| "bfd_step C (FdMoveAssign i j) (vs, rel, w) =
     (if i < length vs \<and> j < length vs
      then let fd = vs ! j; vs = vs[j := -1]; (v, w) = bfd_reset C (vs ! i) fd w
           in (vs[i := v], rel, w)
      else (vs, rel, w))"
| "bfd_step C (FdReset i fd) (vs, rel, w) =
     (if i < length vs then let (v, w) = bfd_reset C (vs ! i) fd w in (vs[i := v], rel, w)
      else (vs, rel, w))"
| "bfd_step C (FdRelease i) (vs, rel, w) =
     (if i < length vs then let (r, v) = bfd_release (vs ! i) in (vs[i := v], r # rel, w)
      else (vs, rel, w))"
| "bfd_step C (FdDestroy i) (vs, rel, w) =
     (if i < length vs then (vs[i := -1], rel, bfd_destroy C (vs ! i) w) else (vs, rel, w))"

text \<open>\<open>UniqueFd\<close> has no \<open>reset\<close> and no \<open>release\<close>; these operations do not exist for it.\<close>

fun UniqueFd_step :: "'w closer \<Rightarrow> fd_op \<Rightarrow> 'w fd_state \<Rightarrow> 'w fd_state" where
  "UniqueFd_step C FdDefault (vs, rel, w) = (vs @ [-1], rel, w)"
| "UniqueFd_step C (FdOfInt fd) (vs, rel, w) = (vs @ [fd], rel, w)"
| "UniqueFd_step C (FdMove j) (vs, rel, w) =
     (if j < length vs then let (v, o') = UniqueFd_move (vs ! j) in (vs[j := o'] @ [v], rel, w)
      else (vs, rel, w))"
| "UniqueFd_step C (FdMoveAssign i j) (vs, rel, w) =
     (if i < length vs \<and> j < length vs
      then let (v, o') = UniqueFd_assign_move (vs ! i) (vs ! j) in (vs[j := o', i := v], rel, w)
      else (vs, rel, w))"
| "UniqueFd_step C (FdDestroy i) (vs, rel, w) =
     (if i < length vs then (vs[i := -1], rel, UniqueFd_destroy C (vs ! i) w) else (vs, rel, w))"
| "UniqueFd_step C (FdReset i fd) s = s"
| "UniqueFd_step C (FdRelease i) s = s"

section \<open>Every descriptor is closed once\<close>

definition times_in :: "int list \<Rightarrow> int \<Rightarrow> int" where
  "times_in vs fd = of_nat (count_list vs fd)"

lemma times_in_simps [simp]:
  "times_in [] fd = 0" "times_in (v # vs) fd = (if v = fd then 1 else 0) + times_in vs fd"
  "times_in (vs @ us) fd = times_in vs fd + times_in us fd"
  by (simp_all add: times_in_def)

lemma times_in_update:
  "i < length vs \<Longrightarrow>
   times_in (vs[i := q]) fd = times_in vs fd - (if vs ! i = fd then 1 else 0) + (if q = fd then 1 else 0)"
  by (simp add: times_in_def of_nat_count_list_update)

text \<open>How often the descriptor is handed to an owner by an operation.\<close>

fun taken :: "fd_op \<Rightarrow> nat \<Rightarrow> int \<Rightarrow> int" where
  "taken (FdOfInt fd') n fd = (if fd' = fd then 1 else 0)"
| "taken (FdReset i fd') n fd = (if i < n \<and> fd' = fd then 1 else 0)"
| "taken op' n fd = 0"

text \<open>
  The contract of an owner class, with \<open>closes w fd\<close> the number of times the descriptor was
  closed: ownership is only transferred, and ends by one \<open>close\<close> or one \<open>release\<close>.
\<close>

locale fd_owner =
  fixes step :: "fd_op \<Rightarrow> 'w fd_state \<Rightarrow> 'w fd_state"
    and closes :: "'w \<Rightarrow> int \<Rightarrow> int"
    and supported :: "fd_op \<Rightarrow> bool"
  assumes step_conserves: "supported op' \<Longrightarrow> 0 \<le> fd \<Longrightarrow> step op' (vs, rel, w) = (vs', rel', w') \<Longrightarrow>
      times_in vs' fd + times_in rel' fd + closes w' fd =
      times_in vs fd + times_in rel fd + closes w fd + taken op' (length vs) fd"
begin

fun run :: "fd_op list \<Rightarrow> 'w fd_state \<Rightarrow> 'w fd_state" where
  "run [] s = s"
| "run (x # xs) s = run xs (step x s)"

fun taken_run :: "fd_op list \<Rightarrow> 'w fd_state \<Rightarrow> int \<Rightarrow> int" where
  "taken_run [] s fd = 0"
| "taken_run (x # xs) s fd = taken x (length (fst s)) fd + taken_run xs (step x s) fd"

lemma run_conserves:
  "list_all supported xs \<Longrightarrow> 0 \<le> fd \<Longrightarrow> run xs (vs, rel, w) = (vs', rel', w') \<Longrightarrow>
   times_in vs' fd + times_in rel' fd + closes w' fd =
   times_in vs fd + times_in rel fd + closes w fd + taken_run xs (vs, rel, w) fd"
proof (induction xs arbitrary: vs rel w)
  case (Cons x xs)
  obtain vs1 rel1 w1 where s: "step x (vs, rel, w) = (vs1, rel1, w1)" by (rule prod_cases3)
  with Cons.prems have "run xs (vs1, rel1, w1) = (vs', rel', w')" by simp
  from Cons.IH [OF _ Cons.prems(2) this] step_conserves [OF _ Cons.prems(2) s] Cons.prems(1) s
  show ?case by simp
qed simp

text \<open>A descriptor handed over once ends in exactly one place.\<close>

lemma closed_once:
  assumes "list_all supported xs" "0 \<le> fd" "run xs ([], [], w) = (vs, rel, w')"
    and "closes w fd = 0" "taken_run xs ([], [], w) fd = 1"
  shows "times_in vs fd + times_in rel fd + closes w' fd = 1"
  using run_conserves [OF assms(1-3)] assms(4,5) by simp

end

text \<open>What a closer must do for its descriptors to be counted.\<close>

definition counting_closer :: "'w closer \<Rightarrow> ('w \<Rightarrow> int \<Rightarrow> int) \<Rightarrow> bool" where
  "counting_closer C closes \<longleftrightarrow>
     (\<forall>fd t w. closes (fd_close C fd t w) = (closes w)(fd := closes w fd + 1)) \<and>
     (\<forall>fd a b w. closes (fd_tag C fd a b w) = closes w) \<and>
     (\<forall>e w. closes (set_errno C e w) = closes w)"

lemmas fd_defs = ufd_reset_tag_def ufd_reset_def ufd_default_def ufd_of_int_def ufd_destroy_def
  ufd_release_def ufd_move_def bfd_reset_def bfd_of_int_def bfd_destroy_def bfd_release_def
  bfd_move_def UniqueFd_destroy_def UniqueFd_move_def UniqueFd_assign_move_def

lemma ufd_step_conserves:
  assumes "counting_closer C closes" "0 \<le> fd" "ufd_step C addr op' (vs, rel, w) = (vs', rel', w')"
  shows "times_in vs' fd + times_in rel' fd + closes w' fd =
      times_in vs fd + times_in rel fd + closes w fd + taken op' (length vs) fd"
  using assms
  by (cases op')
     (auto simp: fd_defs Let_def counting_closer_def times_in_update nth_list_update
       split: if_splits)

lemma bfd_step_conserves:
  assumes "counting_closer C closes" "0 \<le> fd" "bfd_step C op' (vs, rel, w) = (vs', rel', w')"
  shows "times_in vs' fd + times_in rel' fd + closes w' fd =
      times_in vs fd + times_in rel fd + closes w fd + taken op' (length vs) fd"
  using assms
  by (cases op')
     (auto simp: fd_defs Let_def counting_closer_def times_in_update nth_list_update
       split: if_splits)

fun no_reset :: "fd_op \<Rightarrow> bool" where
  "no_reset (FdReset i fd) = False"
| "no_reset (FdRelease i) = False"
| "no_reset op' = True"

lemma UniqueFd_step_conserves:
  assumes "counting_closer C closes" "no_reset op'" "0 \<le> fd"
    "UniqueFd_step C op' (vs, rel, w) = (vs', rel', w')"
  shows "times_in vs' fd + times_in rel' fd + closes w' fd =
      times_in vs fd + times_in rel fd + closes w fd + taken op' (length vs) fd"
  using assms
  by (cases op')
     (auto simp: fd_defs Let_def counting_closer_def times_in_update nth_list_update
       split: if_splits)

text \<open>
  The three classes fulfil the contract, for a closer that records each \<open>close\<close>: the world is
  the list of closed descriptors and \<open>errno\<close>; a \<open>close\<close> may set \<open>errno\<close>.
\<close>

definition recording_closer :: "(int list \<times> int) closer" where
  "recording_closer = default_closer (\<lambda>fd (cs, e). (fd # cs, 9)) snd (\<lambda>e (cs, _). (cs, e))"

definition closed_times :: "int list \<times> int \<Rightarrow> int \<Rightarrow> int" where
  "closed_times w fd = times_in (fst w) fd"

lemma recording_closer_simps [simp]:
  "fd_tag recording_closer fd a b w = w" "fd_close recording_closer fd a w = (fd # fst w, 9)"
  "get_errno recording_closer w = snd w" "set_errno recording_closer e w = (fst w, e)"
  by (simp_all add: recording_closer_def default_closer_def split_def)

lemma recording_closer_counts: "counting_closer recording_closer closed_times"
  by (auto simp: counting_closer_def closed_times_def)

interpretation base_fd: fd_owner "ufd_step recording_closer addr" closed_times "\<lambda>_. True" for addr
  by unfold_locales (rule ufd_step_conserves [OF recording_closer_counts])

interpretation binder_fd: fd_owner "bfd_step recording_closer" closed_times "\<lambda>_. True"
  by unfold_locales (rule bfd_step_conserves [OF recording_closer_counts])

interpretation inject_fd: fd_owner "UniqueFd_step recording_closer" closed_times no_reset
  by unfold_locales (rule UniqueFd_step_conserves [OF recording_closer_counts])

section \<open>Helpers of unique_fd.h\<close>

text \<open>\<open>pipe2\<close>, \<open>socketpair\<close>, \<open>fdopen\<close> and \<open>fdopendir\<close> are system functions: \<open>None\<close> is their failure.\<close>

definition Pipe ::
  "(int \<Rightarrow> 'w \<Rightarrow> (int \<times> int) option \<times> 'w) \<Rightarrow> 'w closer \<Rightarrow> u64 \<Rightarrow> u64 \<Rightarrow> int \<Rightarrow> int \<Rightarrow> int \<Rightarrow> 'w
     \<Rightarrow> bool \<times> int \<times> int \<times> 'w" where
  "Pipe pipe2 C read_addr write_addr read_fd write_fd flags w =
     (case pipe2 flags w of
        (None, w) \<Rightarrow> (False, read_fd, write_fd, w)
      | (Some (p0, p1), w) \<Rightarrow>
          let (r, w) = ufd_reset C read_addr read_fd p0 w; (v, w) = ufd_reset C write_addr write_fd p1 w
          in (True, r, v, w))"

definition Socketpair ::
  "(int \<Rightarrow> int \<Rightarrow> int \<Rightarrow> 'w \<Rightarrow> (int \<times> int) option \<times> 'w) \<Rightarrow> 'w closer \<Rightarrow> int \<Rightarrow> int \<Rightarrow> int \<Rightarrow>
   u64 \<Rightarrow> u64 \<Rightarrow> int \<Rightarrow> int \<Rightarrow> 'w \<Rightarrow> bool \<times> int \<times> int \<times> 'w" where
  "Socketpair socketpair C domain ty protocol left_addr right_addr left right w =
     (case socketpair domain ty protocol w of
        (None, w) \<Rightarrow> (False, left, right, w)
      | (Some (s0, s1), w) \<Rightarrow>
          let (l, w) = ufd_reset C left_addr left s0 w; (r, w) = ufd_reset C right_addr right s1 w
          in (True, l, r, w))"

definition AF_UNIX :: int where "AF_UNIX = 1"

definition Socketpair_unix ::
  "(int \<Rightarrow> int \<Rightarrow> int \<Rightarrow> 'w \<Rightarrow> (int \<times> int) option \<times> 'w) \<Rightarrow> 'w closer \<Rightarrow> int \<Rightarrow>
   u64 \<Rightarrow> u64 \<Rightarrow> int \<Rightarrow> int \<Rightarrow> 'w \<Rightarrow> bool \<times> int \<times> int \<times> 'w" where
  "Socketpair_unix socketpair C ty left_addr right_addr left right w =
     Socketpair socketpair C AF_UNIX ty 0 left_addr right_addr left right w"

text \<open>Returns the stream (0 on failure) and the emptied owner; a failed \<open>fdopen\<close> closes.\<close>

definition Fdopen ::
  "(int \<Rightarrow> string \<Rightarrow> 'w \<Rightarrow> u64 \<times> 'w) \<Rightarrow> (int \<Rightarrow> 'w \<Rightarrow> 'w) \<Rightarrow> 'w closer \<Rightarrow> u64 \<Rightarrow> int \<Rightarrow> string \<Rightarrow> 'w
     \<Rightarrow> u64 \<times> int \<times> 'w" where
  "Fdopen fdopen sys_close C addr ufd mode w =
     (let (fd, ufd, w) = ufd_release C addr ufd w; (file, w) = fdopen fd mode w
      in (file, ufd, if file = 0 then sys_close fd w else w))"

definition Fdopendir ::
  "(int \<Rightarrow> 'w \<Rightarrow> u64 \<times> 'w) \<Rightarrow> (int \<Rightarrow> 'w \<Rightarrow> 'w) \<Rightarrow> 'w closer \<Rightarrow> u64 \<Rightarrow> int \<Rightarrow> 'w \<Rightarrow> u64 \<times> int \<times> 'w" where
  "Fdopendir fdopendir sys_close C addr ufd w =
     (let (fd, ufd, w) = ufd_release C addr ufd w; (dir, w) = fdopendir fd w
      in (dir, ufd, if dir = 0 then sys_close fd w else w))"

section \<open>Properties\<close>

text \<open>
  An empty owner is what a default-constructed or released one compares equal to, and compares
  below every valid descriptor; an owner and what borrows from it agree in every comparison.
\<close>

lemma fd_comparisons:
  "ufd_ok fd \<longleftrightarrow> ufd_greater_equal fd 0" "ufd_ok fd \<Longrightarrow> ufd_less ufd_default (ufd_to_int fd)"
  "ufd_release C a fd w = (r, fd', w') \<Longrightarrow> ufd_eq fd' ufd_default \<and> ufd_eq_int fd r"
  "borrowed_less (borrow_ufd fd) n \<longleftrightarrow> ufd_less fd n" "borrowed_eq (borrow_ufd fd) n \<longleftrightarrow> ufd_eq_int fd n"
  "borrowed_greater_equal (borrow_ufd fd) n \<longleftrightarrow> ufd_greater_equal fd n"
  "borrowed_not_eq (borrow_ufd fd) n \<longleftrightarrow> ufd_not_eq_int fd n" "binder_borrowed_get (binder_borrow_ufd fd) = bfd_get fd"
  by (auto simp: ufd_ok_def ufd_greater_equal_def ufd_less_def ufd_default_def ufd_to_int_def ufd_get_def
      ufd_release_def ufd_eq_def ufd_eq_int_def ufd_not_eq_int_def borrow_ufd_def borrowed_get_def
      borrowed_less_def borrowed_eq_def borrowed_greater_equal_def borrowed_not_eq_def
      binder_borrowed_get_def binder_borrow_ufd_def bfd_get_def)

text \<open>
  C40. Over any run of constructors, moves, resets, releases and destructors, a descriptor that
  was handed to \<open>android::base::unique_fd\<close> (or to \<open>android::binder::unique_fd\<close>, or to the
  injector's \<open>UniqueFd\<close>) once is afterwards either held by one owner, or was released once, or
  was closed once: it is never closed twice and never lost.
\<close>

theorem fd_closed_once:
  assumes "0 \<le> fd"
  shows "(base_fd.run addr xs ([], [], ([], e)) = (vs, rel, w) \<longrightarrow>
      base_fd.taken_run addr xs ([], [], ([], e)) fd = 1 \<longrightarrow>
      times_in vs fd + times_in rel fd + closed_times w fd = 1) \<and>
    (binder_fd.run xs ([], [], ([], e)) = (vs, rel, w) \<longrightarrow>
      binder_fd.taken_run xs ([], [], ([], e)) fd = 1 \<longrightarrow>
      times_in vs fd + times_in rel fd + closed_times w fd = 1) \<and>
    (inject_fd.run xs ([], [], ([], e)) = (vs, rel, w) \<longrightarrow> list_all no_reset xs \<longrightarrow>
      inject_fd.taken_run xs ([], [], ([], e)) fd = 1 \<longrightarrow>
      times_in vs fd + times_in rel fd + closed_times w fd = 1)"
proof -
  have a: "list_all (\<lambda>_. True) xs" by (simp add: list_all_iff)
  have z: "closed_times ([], e) fd = 0" by (simp add: closed_times_def)
  show ?thesis
    using base_fd.closed_once [OF a assms _ z] binder_fd.closed_once [OF a assms _ z]
      inject_fd.closed_once [OF _ assms _ z] by blast
qed

theorem fd_closed_once_witness:
  "times_in (fst (base_fd.run of_nat [FdOfInt 5, FdMove 0, FdDefault, FdMoveAssign 2 1, FdDestroy 2]
      ([], [], ([], 0)))) 5 +
   closed_times (snd (snd (base_fd.run of_nat [FdOfInt 5, FdMove 0, FdDefault, FdMoveAssign 2 1, FdDestroy 2]
      ([], [], ([], 0))))) 5 = 1"
proof -
  let ?ops = "[FdOfInt 5, FdMove 0, FdDefault, FdMoveAssign 2 1, FdDestroy 2]"
  obtain vs rel w where r: "base_fd.run of_nat ?ops ([], [], ([], 0)) = (vs, rel, w)"
    by (rule prod_cases3)
  have t: "base_fd.taken_run of_nat ?ops ([], [], ([], 0)) 5 = 1"
    by (simp add: fd_defs)
  have "rel = []" using r
    by (auto simp: fd_defs numeral_2_eq_2)
  with fd_closed_once [of 5 of_nat ?ops 0 vs rel w] r t show ?thesis by simp
qed

text \<open>
  Resetting, assigning and destroying an owner keep \<open>errno\<close>, whatever the \<open>close\<close> they make
  does to it.
\<close>

lemma reset_keeps_errno:
  assumes "\<And>e w. get_errno C (set_errno C e w) = e"
  shows "get_errno C (snd (ufd_reset_tag C this fd new prev w)) = get_errno C w \<and>
    get_errno C (ufd_destroy C this fd w) = get_errno C w \<and>
    get_errno C (snd (bfd_reset C fd new w)) = get_errno C w"
  by (simp add: fd_defs Let_def assms)

lemma reset_keeps_errno_witness:
  "get_errno recording_closer (snd (ufd_reset_tag recording_closer 8 5 6 0 ([], 2))) = 2"
  using reset_keeps_errno [of recording_closer 8 5 6 0 "([], 2)"] by simp

end
