(* ===== verification/Inject_Utils.thy ===== *)
theory Inject_Utils
  imports Maps_Props Unique_Fd
begin

unbundle bit_operations_syntax

text \<open>
  The helpers of the injector, \<open>inject/utils.cpp\<close> and \<open>inject/utils.hpp\<close>: access to the memory
  and registers of the traced process, symbol resolution, calls of functions in it, and the
  SELinux helpers. The system calls are the fields of a record \<open>kernel\<close>, an argument of every
  definition, over a world \<open>'w\<close>; addresses are words of the target's width \<open>'a\<close>, and the four
  supported architectures are records \<open>arch\<close> over their registers. Waiting may go on for ever,
  so the two waiting loops are partial: \<open>None\<close> is not returning.
\<close>

section \<open>System calls\<close>

text \<open>The result of \<open>waitpid\<close>: an error (with \<open>EINTR\<close> or not) or a status.\<close>

datatype wait_result = WaitError bool | WaitStatus u32

record ('a, 'r, 'w) kernel =
  k_open :: "string \<Rightarrow> int \<Rightarrow> 'w \<Rightarrow> int \<times> 'w"
  k_close :: "int \<Rightarrow> 'w \<Rightarrow> 'w"
  k_write :: "int \<Rightarrow> byte list \<Rightarrow> 'w \<Rightarrow> int \<times> 'w"
  k_pwrite :: "int \<Rightarrow> byte list \<Rightarrow> 'a \<Rightarrow> 'w \<Rightarrow> int \<times> 'w"
  process_vm_writev :: "int \<Rightarrow> 'a \<Rightarrow> byte list \<Rightarrow> 'w \<Rightarrow> int \<times> 'w"
  process_vm_readv :: "int \<Rightarrow> 'a \<Rightarrow> nat \<Rightarrow> 'w \<Rightarrow> int \<times> byte list \<times> 'w"
  ptrace_getregs :: "int \<Rightarrow> 'w \<Rightarrow> 'r option \<times> 'w"
  ptrace_setregs :: "int \<Rightarrow> 'r \<Rightarrow> 'w \<Rightarrow> bool \<times> 'w"
  ptrace_cont :: "int \<Rightarrow> 'w \<Rightarrow> bool \<times> 'w"
  ptrace_attach :: "int \<Rightarrow> 'w \<Rightarrow> bool \<times> 'w"
  ptrace_detach :: "int \<Rightarrow> 'w \<Rightarrow> bool \<times> 'w"
  k_waitpid :: "int \<Rightarrow> 'w \<Rightarrow> wait_result \<times> 'w"
  k_dlopen :: "string \<Rightarrow> 'w \<Rightarrow> 'a \<times> 'w"
  k_dlsym :: "'a \<Rightarrow> string \<Rightarrow> 'w \<Rightarrow> 'a \<times> 'w"
  k_dlclose :: "'a \<Rightarrow> 'w \<Rightarrow> 'w"
  k_setxattr :: "string \<Rightarrow> string \<Rightarrow> byte list \<Rightarrow> 'w \<Rightarrow> int \<times> 'w"
  k_gettid :: "'w \<Rightarrow> int"
  k_random :: "nat \<Rightarrow> 'w \<Rightarrow> nat \<times> 'w"
  k_socket :: "'w \<Rightarrow> int \<times> 'w"
  k_sendmsg :: "int \<Rightarrow> byte list \<Rightarrow> byte list \<Rightarrow> 'w \<Rightarrow> int \<times> 'w"
  k_file :: "'w \<Rightarrow> string \<Rightarrow> string option"

text \<open>The closer of \<open>UniqueFd\<close> in this world; the class does not touch \<open>errno\<close>.\<close>

definition fd_closer :: "('a, 'r, 'w) kernel \<Rightarrow> 'w closer" where
  "fd_closer K = default_closer (k_close K) (\<lambda>_. 0) (\<lambda>_ w. w)"

definition kInvalidFd :: int where "kInvalidFd = -1"
definition kStackAlignment :: nat where "kStackAlignment = 0xf"
definition kMaxPathLength :: nat where "kMaxPathLength = 256"
definition kStatusBufferSize :: nat where "kStatusBufferSize = 128"
definition O_WRONLY_CLOEXEC :: int where "O_WRONLY_CLOEXEC = 524289"
definition O_RDONLY_CLOEXEC :: int where "O_RDONLY_CLOEXEC = 524288"

text \<open>\<open>%d\<close> and the bytes of a C string.\<close>

definition show_int :: "int \<Rightarrow> string" where
  "show_int i = (if i < 0 then CHR ''-'' # to_digits 10 (nat (- i)) else to_digits 10 (nat i))"

definition c_bytes :: "string \<Rightarrow> byte list" where
  "c_bytes s = map of_char s @ [0]"

definition snprintf_cut :: "nat \<Rightarrow> string \<Rightarrow> string" where
  "snprintf_cut n s = take (n - 1) s"

section \<open>Memory of the traced process\<close>

text \<open>Returns the number of bytes written or -1; a null or empty buffer is the empty list.\<close>

definition write_proc ::
  "('a :: len word, 'r, 'w) kernel \<Rightarrow> int \<Rightarrow> 'a word \<Rightarrow> byte list \<Rightarrow> bool \<Rightarrow> 'w \<Rightarrow> int \<times> 'w" where
  "write_proc K pid remote_addr buf use_proc_mem w =
     (if buf = [] then (-1, w)
      else if use_proc_mem then
        (let (proc_fd, w) = k_open K (snprintf_cut kMaxPathLength (''/proc/'' @ show_int pid @ ''/mem''))
               O_WRONLY_CLOEXEC w
         in if proc_fd = kInvalidFd then (-1, UniqueFd_destroy (fd_closer K) proc_fd w)
            else let (bytes_written, w) = k_pwrite K proc_fd buf remote_addr w
                 in (bytes_written, UniqueFd_destroy (fd_closer K) proc_fd w))
      else process_vm_writev K pid remote_addr buf w)"

definition read_proc ::
  "('a :: len word, 'r, 'w) kernel \<Rightarrow> int \<Rightarrow> 'a word \<Rightarrow> nat \<Rightarrow> 'w \<Rightarrow> int \<times> byte list \<times> 'w" where
  "read_proc K pid remote_addr len w =
     (if len = 0 then (-1, [], w) else process_vm_readv K pid remote_addr len w)"

definition get_regs :: "('a, 'r, 'w) kernel \<Rightarrow> int \<Rightarrow> 'r \<Rightarrow> 'w \<Rightarrow> bool \<times> 'r \<times> 'w" where
  "get_regs K pid regs w =
     (case ptrace_getregs K pid w of (None, w) \<Rightarrow> (False, regs, w) | (Some r, w) \<Rightarrow> (True, r, w))"

definition set_regs :: "('a, 'r, 'w) kernel \<Rightarrow> int \<Rightarrow> 'r \<Rightarrow> 'w \<Rightarrow> bool \<times> 'w" where
  "set_regs K pid regs w = ptrace_setregs K pid regs w"

section \<open>Modules and symbols\<close>

definition ends_with :: "string \<Rightarrow> string \<Rightarrow> bool" where
  "ends_with s suffix \<longleftrightarrow> length suffix \<le> length s \<and> drop (length s - length suffix) s = suffix"

fun find_module_base :: "MapInfo list \<Rightarrow> string \<Rightarrow> 'a :: len word" where
  "find_module_base [] module_suffix = 0"
| "find_module_base (m # ms) module_suffix =
     (if mi_offset m = 0 \<and> ends_with (mi_path m) module_suffix then ucast (mi_start m)
      else find_module_base ms module_suffix)"

fun find_module_return_addr :: "MapInfo list \<Rightarrow> string \<Rightarrow> 'a :: len word" where
  "find_module_return_addr [] module_suffix = 0"
| "find_module_return_addr (m # ms) module_suffix =
     (if mi_perms m AND PROT_EXEC = 0 \<and> ends_with (mi_path m) module_suffix then ucast (mi_start m)
      else find_module_return_addr ms module_suffix)"

definition find_func_addr ::
  "('a :: len word, 'r, 'w) kernel \<Rightarrow> MapInfo list \<Rightarrow> MapInfo list \<Rightarrow> string \<Rightarrow> string \<Rightarrow> 'w \<Rightarrow> 'a word \<times> 'w" where
  "find_func_addr K local_map_info remote_map_info module_name function_name w =
     (let (lib_handle, w) = k_dlopen K module_name w
      in if lib_handle = 0 then (0, w)
      else let (symbol_addr, w) = k_dlsym K lib_handle function_name w
      in if symbol_addr = 0 then (0, k_dlclose K lib_handle w)
      else let w = k_dlclose K lib_handle w;
               local_base = find_module_base local_map_info module_name
      in if local_base = 0 then (0, w)
      else let remote_base = find_module_base remote_map_info module_name
      in if remote_base = 0 then (0, w)
      else let symbol_offset = symbol_addr - local_base
      in (remote_base + symbol_offset, w))"

section \<open>Architectures\<close>

text \<open>
  The registers the code names (\<open>REG_SP\<close>, \<open>REG_IP\<close>, \<open>REG_RET\<close>) and the architecture's part of
  \<open>remote_pre_call\<close>, which places arguments and return address.
\<close>

record ('a, 'r) regfile =
  REG_SP :: "'r \<Rightarrow> 'a"
  put_SP :: "'a \<Rightarrow> 'r \<Rightarrow> 'r"
  REG_IP :: "'r \<Rightarrow> 'a"
  REG_RET :: "'r \<Rightarrow> 'a"

record ('a, 'r, 'w) arch = "('a, 'r) regfile" +
  setup_call :: "('a, 'r, 'w) kernel \<Rightarrow> int \<Rightarrow> 'r \<Rightarrow> 'a \<Rightarrow> 'a \<Rightarrow> 'a list \<Rightarrow> 'w \<Rightarrow> bool \<times> 'r \<times> 'w"

definition align_down :: "'a :: len word \<Rightarrow> 'a word" where
  "align_down v = v AND NOT (of_nat kStackAlignment)"

definition align_stack :: "('a :: len word, 'r, 'x) regfile_scheme \<Rightarrow> 'r \<Rightarrow> 'a word \<Rightarrow> 'r" where
  "align_stack A regs preserve_bytes = put_SP A (align_down (REG_SP A regs - preserve_bytes)) regs"

definition push_memory ::
  "('a :: len word, 'r, 'x) regfile_scheme \<Rightarrow> ('a word, 'r, 'w) kernel \<Rightarrow> int \<Rightarrow> 'r \<Rightarrow> byte list \<Rightarrow> 'w \<Rightarrow> 'a word \<times> 'r \<times> 'w" where
  "push_memory A K pid regs data w =
     (if data = [] then (0, regs, w)
      else let regs = put_SP A (REG_SP A regs - of_nat (length data)) regs;
               regs = align_stack A regs 0;
               stack_addr = REG_SP A regs;
               (n, w) = write_proc K pid stack_addr data False w
           in if n \<noteq> int (length data) then (0, regs, w) else (stack_addr, regs, w))"

definition push_string ::
  "('a :: len word, 'r, 'x) regfile_scheme \<Rightarrow> ('a word, 'r, 'w) kernel \<Rightarrow> int \<Rightarrow> 'r \<Rightarrow> string option \<Rightarrow> 'w \<Rightarrow> 'a word \<times> 'r \<times> 'w" where
  "push_string A K pid regs str w =
     (case str of
        None \<Rightarrow> (0, regs, w)
      | Some str \<Rightarrow>
          let str_length = length str + 1;
              regs = put_SP A (REG_SP A regs - of_nat str_length) regs;
              regs = align_stack A regs 0;
              stack_addr = REG_SP A regs;
              (n, w) = write_proc K pid stack_addr (c_bytes str) False w
          in if n \<noteq> int str_length then (0, regs, w) else (stack_addr, regs, w))"

text \<open>The words of a list as they lie in memory; \<open>sizeof(uintptr_t)\<close> bytes each.\<close>

definition word_size :: "'a :: len word itself \<Rightarrow> nat" where
  "word_size t = LENGTH('a) div 8"

definition word_bytes :: "'a :: len word \<Rightarrow> byte list" where
  "word_bytes v = le_bytes (word_size TYPE('a word)) (unat v)"

definition words_bytes :: "'a :: len word list \<Rightarrow> byte list" where
  "words_bytes vs = concat (map word_bytes vs)"

section \<open>x86_64\<close>

record x86_64_regs =
  rdi :: u64
  rsi :: u64
  rdx :: u64
  rcx :: u64
  r8 :: u64
  r9 :: u64
  rax :: u64
  rsp :: u64
  rip :: u64
  orig_rax :: u64

definition setup_x86_64_args :: "x86_64_regs \<Rightarrow> u64 list \<Rightarrow> x86_64_regs" where
  "setup_x86_64_args regs args =
     (let regs = (if length args \<ge> 1 then regs\<lparr>rdi := args ! 0\<rparr> else regs);
          regs = (if length args \<ge> 2 then regs\<lparr>rsi := args ! 1\<rparr> else regs);
          regs = (if length args \<ge> 3 then regs\<lparr>rdx := args ! 2\<rparr> else regs);
          regs = (if length args \<ge> 4 then regs\<lparr>rcx := args ! 3\<rparr> else regs);
          regs = (if length args \<ge> 5 then regs\<lparr>r8 := args ! 4\<rparr> else regs)
      in if length args \<ge> 6 then regs\<lparr>r9 := args ! 5\<rparr> else regs)"

text \<open>
  The stack arguments that do not fit in \<open>n\<close> registers, written below the stack pointer. The
  three architectures with register arguments and i386 (\<open>n = 0\<close>) share this code.
\<close>

definition push_stack_args ::
  "('a :: len word, 'r, 'x) regfile_scheme \<Rightarrow> ('a word, 'r, 'w) kernel \<Rightarrow> nat \<Rightarrow> int \<Rightarrow> 'r \<Rightarrow> 'a word list \<Rightarrow> 'w
     \<Rightarrow> bool \<times> 'r \<times> 'w" where
  "push_stack_args A K n pid regs args w =
     (if length args > n then
        (let stack_args_size = (length args - n) * word_size TYPE('a word);
             regs = align_stack A regs (of_nat stack_args_size);
             (k, w) = write_proc K pid (REG_SP A regs) (words_bytes (drop n args)) False w
         in (k = int stack_args_size, regs, w))
      else (True, regs, w))"

text \<open>The return address on the stack, for the two x86 architectures.\<close>

definition push_return_addr ::
  "('a :: len word, 'r, 'x) regfile_scheme \<Rightarrow> ('a word, 'r, 'w) kernel \<Rightarrow> int \<Rightarrow> 'r \<Rightarrow> 'a word \<Rightarrow> 'w
     \<Rightarrow> bool \<times> 'r \<times> 'w" where
  "push_return_addr A K pid regs return_addr w =
     (let regs = put_SP A (REG_SP A regs - of_nat (word_size TYPE('a word))) regs;
          (k, w) = write_proc K pid (REG_SP A regs) (word_bytes return_addr) False w
      in (k = int (word_size TYPE('a word)), regs, w))"

definition x86_64_base :: "(u64, x86_64_regs) regfile" where
  "x86_64_base = \<lparr>REG_SP = rsp, put_SP = (\<lambda>v r. r\<lparr>rsp := v\<rparr>), REG_IP = rip, REG_RET = rax\<rparr>"

definition x86_64_setup ::
  "(u64, x86_64_regs, 'w) kernel \<Rightarrow> int \<Rightarrow> x86_64_regs \<Rightarrow> u64 \<Rightarrow> u64 \<Rightarrow> u64 list \<Rightarrow> 'w
     \<Rightarrow> bool \<times> x86_64_regs \<times> 'w" where
  "x86_64_setup K pid regs func_addr return_addr args w =
     (let regs = setup_x86_64_args regs args;
          (ok, regs, w) = push_stack_args x86_64_base K 6 pid regs args w
      in if \<not> ok then (False, regs, w)
      else let (ok, regs, w) = push_return_addr x86_64_base K pid regs return_addr w
      in if \<not> ok then (False, regs, w) else (True, regs\<lparr>rip := func_addr\<rparr>, w))"

definition x86_64 :: "(u64, x86_64_regs, 'w) arch" where
  "x86_64 = regfile.extend x86_64_base \<lparr>setup_call = x86_64_setup\<rparr>"

section \<open>i386\<close>

record i386_regs =
  eax :: u32
  esp :: u32
  eip :: u32
  ebx :: u32
  orig_eax :: u32

definition i386_base :: "(u32, i386_regs) regfile" where
  "i386_base = \<lparr>REG_SP = esp, put_SP = (\<lambda>v r. r\<lparr>esp := v\<rparr>), REG_IP = eip, REG_RET = eax\<rparr>"

definition i386_setup ::
  "(u32, i386_regs, 'w) kernel \<Rightarrow> int \<Rightarrow> i386_regs \<Rightarrow> u32 \<Rightarrow> u32 \<Rightarrow> u32 list \<Rightarrow> 'w
     \<Rightarrow> bool \<times> i386_regs \<times> 'w" where
  "i386_setup K pid regs func_addr return_addr args w =
     (let (ok, regs, w) = push_stack_args i386_base K 0 pid regs args w
      in if \<not> ok then (False, regs, w)
      else let (ok, regs, w) = push_return_addr i386_base K pid regs return_addr w
      in if \<not> ok then (False, regs, w) else (True, regs\<lparr>eip := func_addr\<rparr>, w))"

definition i386 :: "(u32, i386_regs, 'w) arch" where
  "i386 = regfile.extend i386_base \<lparr>setup_call = i386_setup\<rparr>"

section \<open>aarch64\<close>

text \<open>The general registers are a list of 31.\<close>

record aarch64_regs =
  xregs :: "u64 list"
  xsp :: u64
  xpc :: u64

fun setup_reg_args :: "nat \<Rightarrow> 'a list \<Rightarrow> 'a list \<Rightarrow> 'a list" where
  "setup_reg_args i [] regs = regs"
| "setup_reg_args i (a # args) regs = setup_reg_args (Suc i) args (regs[i := a])"

definition setup_aarch64_args :: "aarch64_regs \<Rightarrow> u64 list \<Rightarrow> aarch64_regs" where
  "setup_aarch64_args regs args = regs\<lparr>xregs := setup_reg_args 0 (take 8 args) (xregs regs)\<rparr>"

definition aarch64_base :: "(u64, aarch64_regs) regfile" where
  "aarch64_base = \<lparr>REG_SP = xsp, put_SP = (\<lambda>v r. r\<lparr>xsp := v\<rparr>), REG_IP = xpc,
     REG_RET = (\<lambda>r. xregs r ! 0)\<rparr>"

definition aarch64_setup ::
  "(u64, aarch64_regs, 'w) kernel \<Rightarrow> int \<Rightarrow> aarch64_regs \<Rightarrow> u64 \<Rightarrow> u64 \<Rightarrow> u64 list \<Rightarrow> 'w
     \<Rightarrow> bool \<times> aarch64_regs \<times> 'w" where
  "aarch64_setup K pid regs func_addr return_addr args w =
     (let regs = setup_aarch64_args regs args;
          (ok, regs, w) = push_stack_args aarch64_base K 8 pid regs args w
      in if \<not> ok then (False, regs, w)
      else (True, regs\<lparr>xregs := (xregs regs)[30 := return_addr], xpc := func_addr\<rparr>, w))"

definition aarch64 :: "(u64, aarch64_regs, 'w) arch" where
  "aarch64 = regfile.extend aarch64_base \<lparr>setup_call = aarch64_setup\<rparr>"

section \<open>arm\<close>

text \<open>The registers are the list \<open>uregs\<close> of 18: 13 is the stack pointer, 14 the link register,
  15 the program counter, 16 the status register.\<close>

type_synonym arm_regs = "u32 list"

definition setup_arm_args :: "arm_regs \<Rightarrow> u32 list \<Rightarrow> arm_regs" where
  "setup_arm_args regs args = setup_reg_args 0 (take 4 args) regs"

definition arm_base :: "(u32, arm_regs) regfile" where
  "arm_base = \<lparr>REG_SP = (\<lambda>r. r ! 13), put_SP = (\<lambda>v r. r[13 := v]), REG_IP = (\<lambda>r. r ! 15),
     REG_RET = (\<lambda>r. r ! 0)\<rparr>"

definition CPSR_T_MASK :: u32 where "CPSR_T_MASK = 0x20"

definition arm_setup ::
  "(u32, arm_regs, 'w) kernel \<Rightarrow> int \<Rightarrow> arm_regs \<Rightarrow> u32 \<Rightarrow> u32 \<Rightarrow> u32 list \<Rightarrow> 'w
     \<Rightarrow> bool \<times> arm_regs \<times> 'w" where
  "arm_setup K pid regs func_addr return_addr args w =
     (let regs = setup_arm_args regs args;
          (ok, regs, w) = push_stack_args arm_base K 4 pid regs args w
      in if \<not> ok then (False, regs, w)
      else let regs = regs[14 := return_addr];
               regs = regs[15 := func_addr];
               regs = (if regs ! 15 AND 1 \<noteq> 0
                       then (let regs = regs[15 := regs ! 15 AND NOT 1]
                             in regs[16 := regs ! 16 OR CPSR_T_MASK])
                       else regs[16 := regs ! 16 AND NOT CPSR_T_MASK])
           in (True, regs, w))"

definition arm :: "(u32, arm_regs, 'w) arch" where
  "arm = regfile.extend arm_base \<lparr>setup_call = arm_setup\<rparr>"

section \<open>Remote calls\<close>

definition remote_pre_call ::
  "('a :: len word, 'r, 'w) arch \<Rightarrow> ('a word, 'r, 'w) kernel \<Rightarrow> int \<Rightarrow> 'r \<Rightarrow> 'a word \<Rightarrow> 'a word \<Rightarrow> 'a word list \<Rightarrow> 'w
     \<Rightarrow> bool \<times> 'r \<times> 'w" where
  "remote_pre_call A K pid regs func_addr return_addr args w =
     (let regs = align_stack A regs 0;
          (ok, regs, w) = setup_call A K pid regs func_addr return_addr args w
      in if \<not> ok then (False, regs, w)
      else let (ok, w) = set_regs K pid regs w
      in if \<not> ok then (False, regs, w)
      else let (ok, w) = ptrace_cont K pid w
      in (ok, regs, w))"

section \<open>Wait status\<close>

definition WTERMSIG :: "u32 \<Rightarrow> u32" where "WTERMSIG s = s AND 0x7f"
definition WSTOPSIG :: "u32 \<Rightarrow> u32" where "WSTOPSIG s = drop_bit 8 (s AND 0xff00)"
definition WIFEXITED :: "u32 \<Rightarrow> bool" where "WIFEXITED s \<longleftrightarrow> WTERMSIG s = 0"
definition WIFSTOPPED :: "u32 \<Rightarrow> bool" where "WIFSTOPPED s \<longleftrightarrow> WTERMSIG s = 0x7f"
definition WIFSIGNALED :: "u32 \<Rightarrow> bool" where "WIFSIGNALED s \<longleftrightarrow> WTERMSIG (s + 1) \<ge> 2"

definition SIGSEGV :: u32 where "SIGSEGV = 11"
definition SIGSTOP :: u32 where "SIGSTOP = 19"

text \<open>The status on failure is left as it was; here it is not returned.\<close>

partial_function (option) wait_for_trace ::
  "('a, 'r, 'w) kernel \<Rightarrow> int \<Rightarrow> 'w \<Rightarrow> (u32 option \<times> 'w) option" where
  "wait_for_trace K pid w =
     (case k_waitpid K pid w of
        (WaitError eintr, w) \<Rightarrow> if eintr then wait_for_trace K pid w else Some (None, w)
      | (WaitStatus status, w) \<Rightarrow>
          if \<not> WIFSTOPPED status then Some (None, w) else Some (Some status, w))"

partial_function (option) remote_post_call ::
  "('a :: len word, 'r, 'w) arch \<Rightarrow> ('a word, 'r, 'w) kernel \<Rightarrow> int \<Rightarrow> 'r \<Rightarrow> 'a word \<Rightarrow> 'w
     \<Rightarrow> ('a word \<times> 'r \<times> 'w) option" where
  "remote_post_call A K pid regs expected_return_addr w =
     Option.bind (wait_for_trace K pid w) (\<lambda>(status, w).
       case status of
         None \<Rightarrow> Some (0, regs, w)
       | Some status \<Rightarrow>
           (case get_regs K pid regs w of (ok, regs, w) \<Rightarrow>
              if \<not> ok then Some (0, regs, w)
              else if WSTOPSIG status = SIGSEGV then
                (if REG_IP A regs \<noteq> expected_return_addr then Some (0, regs, w)
                 else Some (REG_RET A regs, regs, w))
              else (case ptrace_cont K pid w of (ok, w) \<Rightarrow>
                if \<not> ok then Some (0, regs, w)
                else remote_post_call A K pid regs expected_return_addr w)))"

definition remote_call ::
  "('a :: len word, 'r, 'w) arch \<Rightarrow> ('a word, 'r, 'w) kernel \<Rightarrow> int \<Rightarrow> 'r \<Rightarrow> 'a word \<Rightarrow> 'a word \<Rightarrow> 'a word list \<Rightarrow> 'w
     \<Rightarrow> ('a word \<times> 'r \<times> 'w) option" where
  "remote_call A K pid regs func_addr return_addr args w =
     (case remote_pre_call A K pid regs func_addr return_addr args w of (ok, regs, w) \<Rightarrow>
        if \<not> ok then Some (0, regs, w) else remote_post_call A K pid regs return_addr w)"

section \<open>Texts\<close>

text \<open>The name of a ptrace event; the shift of the signed status is arithmetic.\<close>

definition parse_ptrace_event :: "u32 \<Rightarrow> string" where
  "parse_ptrace_event status =
     (let e = sint status div 2 ^ 16
      in if e = 1 then ''PTRACE_EVENT_FORK'' else if e = 2 then ''PTRACE_EVENT_VFORK''
         else if e = 3 then ''PTRACE_EVENT_CLONE'' else if e = 4 then ''PTRACE_EVENT_EXEC''
         else if e = 5 then ''PTRACE_EVENT_VFORK_DONE'' else if e = 6 then ''PTRACE_EVENT_EXIT''
         else if e = 7 then ''PTRACE_EVENT_SECCOMP'' else if e = 128 then ''PTRACE_EVENT_STOP''
         else ''(no event)'')"

definition NSIG :: int where "NSIG = 65"

text \<open>\<open>sys_signame\<close> is the C library's table of signal names.\<close>

definition sigabbrev_np :: "(int \<Rightarrow> string) \<Rightarrow> int \<Rightarrow> string" where
  "sigabbrev_np sys_signame sig = (if sig > 0 \<and> sig < NSIG then sys_signame sig else ''(unknown)'')"

definition hex_of :: "u32 \<Rightarrow> string" where "hex_of v = to_digits 16 (unat v)"

definition parse_status :: "(int \<Rightarrow> string) \<Rightarrow> u32 \<Rightarrow> string" where
  "parse_status sys_signame status =
     snprintf_cut kStatusBufferSize (''0x'' @ hex_of status @
       (if WIFEXITED status then '' exited with code '' @ show_int (uint (WSTOPSIG status))
        else if WIFSIGNALED status then
          '' terminated by signal '' @ sigabbrev_np sys_signame (uint (WTERMSIG status)) @
          ''('' @ show_int (uint (WTERMSIG status)) @ '')''
        else if WIFSTOPPED status then
          '' stopped by signal='' @ sigabbrev_np sys_signame (uint (WSTOPSIG status)) @
          ''('' @ show_int (uint (WSTOPSIG status)) @ ''), event='' @ parse_ptrace_event status
        else '' unknown status''))"

definition kRandomChars :: string where
  "kRandomChars = ''0123456789abcdefghijklmnopqrstuvwxyzABCDEFGHIJKLMNOPQRSTUVWXYZ''"

text \<open>\<open>k_random n\<close> draws from the uniform distribution on \<open>0..n\<close>.\<close>

fun magic_chars :: "('a, 'r, 'w) kernel \<Rightarrow> nat \<Rightarrow> 'w \<Rightarrow> string \<times> 'w" where
  "magic_chars K 0 w = ([], w)"
| "magic_chars K (Suc n) w =
     (let (i, w) = k_random K (length kRandomChars - 1) w; (cs, w) = magic_chars K n w
      in (kRandomChars ! i # cs, w))"

definition generateMagic :: "('a, 'r, 'w) kernel \<Rightarrow> nat \<Rightarrow> 'w \<Rightarrow> string \<times> 'w" where
  "generateMagic K n w = (if n = 0 then ([], w) else magic_chars K n w)"

section \<open>SELinux contexts\<close>

definition XATTR_NAME_SELINUX :: string where "XATTR_NAME_SELINUX = ''security.selinux''"

definition setfilecon ::
  "('a, 'r, 'w) kernel \<Rightarrow> string option \<Rightarrow> string option \<Rightarrow> 'w \<Rightarrow> int \<times> 'w" where
  "setfilecon K file_path security_context w =
     (case (file_path, security_context) of
        (Some file_path, Some security_context) \<Rightarrow>
          k_setxattr K file_path XATTR_NAME_SELINUX (c_bytes security_context) w
      | _ \<Rightarrow> (-1, w))"

text \<open>
  The context is written through \<open>thread-self\<close>, or through the path with the thread id when
  that fails. The move assignment of the second descriptor swaps: the first is closed with the
  temporary.
\<close>

definition set_sockcreate_con ::
  "('a, 'r, 'w) kernel \<Rightarrow> string option \<Rightarrow> 'w \<Rightarrow> bool \<times> 'w" where
  "set_sockcreate_con K security_context w =
     (case security_context of None \<Rightarrow> (False, w)
      | Some security_context \<Rightarrow>
          let context = c_bytes security_context;
              close = UniqueFd_destroy (fd_closer K);
              (sockcreate_fd, w) = k_open K ''/proc/thread-self/attr/sockcreate'' O_WRONLY_CLOEXEC w;
              (n, w) = (if sockcreate_fd \<noteq> kInvalidFd then k_write K sockcreate_fd context w
                        else (-1, w))
          in if sockcreate_fd \<noteq> kInvalidFd \<and> n = int (length context)
             then (True, close sockcreate_fd w)
             else let (fd, w) = k_open K (snprintf_cut kMaxPathLength
                         (''/proc/'' @ show_int (k_gettid K w) @ ''/attr/sockcreate'')) O_WRONLY_CLOEXEC w;
                      (sockcreate_fd, temporary) = UniqueFd_assign_move sockcreate_fd fd;
                      w = close temporary w;
                      (n, w) = (if sockcreate_fd = kInvalidFd then (-1, w)
                                else k_write K sockcreate_fd context w)
                  in (\<not> (sockcreate_fd = kInvalidFd \<or> n \<noteq> int (length context)),
                      close sockcreate_fd w))"

end
