(* ===== verification/Inject_Main.thy ===== *)
theory Inject_Main
  imports Inject_Utils
begin

text \<open>
  The injector, \<open>inject/main.cpp\<close>: attach to the process, pass it the descriptor of the library
  over a socket, let it load the library, find and call the entry point, restore the registers
  and detach. Functions that call into the traced process return \<open>None\<close> when they wait for
  ever, otherwise their result with the registers (which they change through a reference) and
  the world. The layouts of system structures are the record \<open>sysabi\<close>, a parameter.
\<close>

definition kMagicLength :: nat where "kMagicLength = 16"
definition kPathMax :: nat where "kPathMax = 4096"
definition kSystemFileContext :: string where "kSystemFileContext = ''u:object_r:system_file:s0''"
definition kLibcModule :: string where "kLibcModule = ''libc.so''"
definition kLibdlModule :: string where "kLibdlModule = ''libdl.so''"
definition kEntrySymbol :: string where "kEntrySymbol = ''entry''"

definition AF_UNIX_value :: nat where "AF_UNIX_value = 1"
definition SOCK_DGRAM_CLOEXEC :: nat where "SOCK_DGRAM_CLOEXEC = 524290"
definition MSG_WAITALL :: nat where "MSG_WAITALL = 256"
definition RTLD_NOW :: nat where "RTLD_NOW = 2"

text \<open>
  The system structures: \<open>msghdr\<close> with a control buffer, the control message with one
  descriptor (and its check: length, level and type), and \<open>android_dlextinfo\<close> with the flag
  \<open>ANDROID_DLEXT_USE_LIBRARY_FD\<close>.
\<close>

record 'a sysabi =
  cmsg_space :: nat
  msghdr_bytes :: "'a \<Rightarrow> nat \<Rightarrow> byte list"
  cmsg_encode :: "int \<Rightarrow> byte list"
  cmsg_decode :: "byte list \<Rightarrow> int option"
  dlextinfo_bytes :: "int \<Rightarrow> byte list"

definition sockaddr_un_bytes :: "string \<Rightarrow> byte list" where
  "sockaddr_un_bytes magic =
     (let body = enc16 (of_nat AF_UNIX_value) @ [0] @ map of_char magic
      in body @ replicate (110 - length body) 0)"

section \<open>Passing the descriptor\<close>

text \<open>The local half: context of new sockets, socket, context and descriptor of the library.\<close>

definition open_local ::
  "('a, 'r, 'w) kernel \<Rightarrow> string \<Rightarrow> 'w \<Rightarrow> (int \<times> int) option \<times> 'w" where
  "open_local K lib_path w =
     (let (ok, w) = set_sockcreate_con K (Some kSystemFileContext) w
      in if \<not> ok then (None, w)
      else let (local_socket, w) = k_socket K w
      in if local_socket = -1 then (None, UniqueFd_destroy (fd_closer K) local_socket w)
      else let (_, w) = setfilecon K (Some lib_path) (Some kSystemFileContext) w;
               (local_lib_fd, w) = k_open K lib_path O_RDONLY_CLOEXEC w
      in if local_lib_fd = -1
         then (None, UniqueFd_destroy (fd_closer K) local_socket
                 (UniqueFd_destroy (fd_closer K) local_lib_fd w))
         else (Some (local_socket, local_lib_fd), w))"

record 'a remote_functions =
  socket_addr :: 'a
  bind_addr :: 'a
  recvmsg_addr :: 'a
  close_addr :: 'a
  errno_addr :: 'a

definition resolve_functions ::
  "('a :: len word, 'r, 'w) kernel \<Rightarrow> MapInfo list \<Rightarrow> MapInfo list \<Rightarrow> 'w
     \<Rightarrow> 'a word remote_functions option \<times> 'w" where
  "resolve_functions K local_map remote_map w =
     (let (s, w) = find_func_addr K local_map remote_map kLibcModule ''socket'' w;
          (b, w) = find_func_addr K local_map remote_map kLibcModule ''bind'' w;
          (r, w) = find_func_addr K local_map remote_map kLibcModule ''recvmsg'' w;
          (c, w) = find_func_addr K local_map remote_map kLibcModule ''close'' w;
          (e, w) = find_func_addr K local_map remote_map kLibcModule ''__errno'' w
      in (if s = 0 \<or> b = 0 \<or> r = 0 \<or> c = 0 then None
          else Some \<lparr>socket_addr = s, bind_addr = b, recvmsg_addr = r, close_addr = c, errno_addr = e\<rparr>,
          w))"

text \<open>
  The closures of \<open>transfer_fd_to_remote\<close>. The value of the remote \<open>errno\<close> is only logged; the
  call and the read are made.
\<close>

definition get_remote_errno ::
  "('a :: len word, 'r, 'w) arch \<Rightarrow> ('a word, 'r, 'w) kernel \<Rightarrow> int \<Rightarrow> 'a word \<Rightarrow> 'r \<Rightarrow> 'w
     \<Rightarrow> ('r \<times> 'w) option" where
  "get_remote_errno A K pid errno_a regs w =
     (if errno_a = 0 then Some (regs, w)
      else Option.bind (remote_call A K pid regs errno_a 0 [] w) (\<lambda>(addr, regs, w).
        Some (regs, snd (snd (read_proc K pid addr 4 w)))))"

definition close_remote ::
  "('a :: len word, 'r, 'w) arch \<Rightarrow> ('a word, 'r, 'w) kernel \<Rightarrow> int \<Rightarrow> 'a word \<Rightarrow> int \<Rightarrow> 'r \<Rightarrow> 'w
     \<Rightarrow> ('r \<times> 'w) option" where
  "close_remote A K pid close_a fd regs w =
     Option.bind (remote_call A K pid regs close_a 0 [of_int fd] w) (\<lambda>(_, regs, w). Some (regs, w))"

text \<open>Give up: close the remote socket and return \<open>nullopt\<close>.\<close>

definition give_up ::
  "('a :: len word, 'r, 'w) arch \<Rightarrow> ('a word, 'r, 'w) kernel \<Rightarrow> int \<Rightarrow> 'a word \<Rightarrow> int \<Rightarrow> 'r \<Rightarrow> 'w
     \<Rightarrow> (int option \<times> 'r \<times> 'w) option" where
  "give_up A K pid close_a fd regs w =
     Option.bind (close_remote A K pid close_a fd regs w) (\<lambda>(regs, w). Some (None, regs, w))"

definition receive_fd ::
  "('a :: len word, 'r, 'w) arch \<Rightarrow> ('a word, 'r, 'w) kernel \<Rightarrow> 'a word sysabi \<Rightarrow> int \<Rightarrow> 'a word remote_functions \<Rightarrow>
   int \<Rightarrow> byte list \<Rightarrow> int \<Rightarrow> int \<Rightarrow> 'r \<Rightarrow> 'w \<Rightarrow> (int option \<times> 'r \<times> 'w) option" where
  "receive_fd A K B pid funcs remote_fd sock_name local_socket local_lib_fd regs w =
     (let quit = give_up A K pid (close_addr funcs) remote_fd;
          (remote_cmsgbuf, regs, w) = push_memory A K pid regs (replicate (cmsg_space B) 0) w;
          (remote_hdr, regs, w) =
            push_memory A K pid regs (msghdr_bytes B remote_cmsgbuf (cmsg_space B)) w;
          (ok, regs, w) = remote_pre_call A K pid regs (recvmsg_addr funcs) 0
            [of_int remote_fd, remote_hdr, of_nat MSG_WAITALL] w
      in if \<not> ok then quit regs w
      else let (sent, w) = k_sendmsg K local_socket sock_name (cmsg_encode B local_lib_fd) w
      in if sent = -1 then quit regs w
      else Option.bind (remote_post_call A K pid regs 0 w) (\<lambda>(recvmsg_result, regs, w).
        if recvmsg_result = - 1 then
          Option.bind (get_remote_errno A K pid (errno_addr funcs) regs w) (\<lambda>(regs, w). quit regs w)
        else let (n, cmsgbuf, w) = read_proc K pid remote_cmsgbuf (cmsg_space B) w
        in if n \<noteq> int (cmsg_space B) then quit regs w
        else (case cmsg_decode B cmsgbuf of
            None \<Rightarrow> quit regs w
          | Some transferred_fd \<Rightarrow>
              Option.bind (close_remote A K pid (close_addr funcs) remote_fd regs w)
                (\<lambda>(regs, w). Some (Some transferred_fd, regs, w)))))"

definition bind_and_receive ::
  "('a :: len word, 'r, 'w) arch \<Rightarrow> ('a word, 'r, 'w) kernel \<Rightarrow> 'a word sysabi \<Rightarrow> int \<Rightarrow> 'a word remote_functions \<Rightarrow>
   int \<Rightarrow> int \<Rightarrow> 'r \<Rightarrow> 'w \<Rightarrow> (int option \<times> 'r \<times> 'w) option" where
  "bind_and_receive A K B pid funcs local_socket local_lib_fd regs w =
     Option.bind (remote_call A K pid regs (socket_addr funcs) 0
         [of_nat AF_UNIX_value, of_nat SOCK_DGRAM_CLOEXEC, 0] w) (\<lambda>(r, regs, w).
     let remote_fd = sint (ucast r :: u32)
     in if remote_fd = -1 then
          Option.bind (get_remote_errno A K pid (errno_addr funcs) regs w) (\<lambda>(regs, w). Some (None, regs, w))
        else let (magic, w) = generateMagic K kMagicLength w;
                 sock_addr = sockaddr_un_bytes magic;
                 addr_len = 2 + 1 + length magic;
                 (remote_addr, regs, w) = push_memory A K pid regs sock_addr w
        in Option.bind (remote_call A K pid regs (bind_addr funcs) 0
               [of_int remote_fd, remote_addr, of_nat addr_len] w) (\<lambda>(bind_result, regs, w).
             if bind_result = - 1 then
               Option.bind (get_remote_errno A K pid (errno_addr funcs) regs w) (\<lambda>(regs, w).
                 give_up A K pid (close_addr funcs) remote_fd regs w)
             else receive_fd A K B pid funcs remote_fd (take addr_len sock_addr) local_socket
                    local_lib_fd regs w))"

text \<open>The two local descriptors are closed on every return.\<close>

definition transfer_fd_to_remote ::
  "('a :: len word, 'r, 'w) arch \<Rightarrow> ('a word, 'r, 'w) kernel \<Rightarrow> 'a word sysabi \<Rightarrow> int \<Rightarrow> string \<Rightarrow> 'r \<Rightarrow>
   MapInfo list \<Rightarrow> MapInfo list \<Rightarrow> 'w \<Rightarrow> (int option \<times> 'r \<times> 'w) option" where
  "transfer_fd_to_remote A K B pid lib_path regs local_map remote_map w =
     (let (fds, w) = open_local K lib_path w
      in case fds of
        None \<Rightarrow> Some (None, regs, w)
      | Some (local_socket, local_lib_fd) \<Rightarrow>
          let close = (\<lambda>w. UniqueFd_destroy (fd_closer K) local_socket
                             (UniqueFd_destroy (fd_closer K) local_lib_fd w));
              (funcs, w) = resolve_functions K local_map remote_map w
          in case funcs of
               None \<Rightarrow> Some (None, regs, close w)
             | Some funcs \<Rightarrow>
                 Option.bind (bind_and_receive A K B pid funcs local_socket local_lib_fd regs w)
                   (\<lambda>(result, regs, w). Some (result, regs, close w)))"

section \<open>Loading the library and calling its entry point\<close>

definition get_remote_dlerror ::
  "('a :: len word, 'r, 'w) arch \<Rightarrow> ('a word, 'r, 'w) kernel \<Rightarrow> int \<Rightarrow> 'r \<Rightarrow> MapInfo list \<Rightarrow> MapInfo list \<Rightarrow>
   'a word \<Rightarrow> 'w \<Rightarrow> (string \<times> 'r \<times> 'w) option" where
  "get_remote_dlerror A K pid regs local_map remote_map libc_return_addr w =
     (let (dlerror_addr, w) = find_func_addr K local_map remote_map kLibdlModule ''dlerror'' w
      in if dlerror_addr = 0 then Some (''Failed to find dlerror function'', regs, w)
      else Option.bind (remote_call A K pid regs dlerror_addr libc_return_addr [] w)
        (\<lambda>(dlerror_str_addr, regs, w).
      if dlerror_str_addr = 0 then Some (''dlerror returned null'', regs, w)
      else let (strlen_addr, w) = find_func_addr K local_map remote_map kLibcModule ''strlen'' w
      in if strlen_addr = 0 then Some (''Failed to find strlen function'', regs, w)
      else Option.bind (remote_call A K pid regs strlen_addr libc_return_addr [dlerror_str_addr] w)
        (\<lambda>(dlerror_len, regs, w).
      if dlerror_len = 0 \<or> dlerror_len > 1024 then Some (''Invalid dlerror string length'', regs, w)
      else let (n, err, w) = read_proc K pid dlerror_str_addr (unat dlerror_len) w
      in if n \<noteq> int (unat dlerror_len) then Some (''Failed to read dlerror string'', regs, w)
      else Some (map (\<lambda>b. char_of (unat b)) err, regs, w))))"

definition remote_dlopen ::
  "('a :: len word, 'r, 'w) arch \<Rightarrow> ('a word, 'r, 'w) kernel \<Rightarrow> 'a word sysabi \<Rightarrow> int \<Rightarrow> 'r \<Rightarrow> MapInfo list \<Rightarrow> MapInfo list \<Rightarrow>
   int \<Rightarrow> string \<Rightarrow> 'a word \<Rightarrow> 'w \<Rightarrow> ('a word option \<times> 'r \<times> 'w) option" where
  "remote_dlopen A K B pid regs local_map remote_map lib_fd lib_path libc_return_addr w =
     (let (dlopen_addr, w) = find_func_addr K local_map remote_map kLibdlModule ''android_dlopen_ext'' w
      in if dlopen_addr = 0 then Some (None, regs, w)
      else let (remote_info, regs, w) = push_memory A K pid regs (dlextinfo_bytes B lib_fd) w;
               (remote_path, regs, w) = push_string A K pid regs (Some lib_path) w
      in Option.bind (remote_call A K pid regs dlopen_addr libc_return_addr
             [remote_path, of_nat RTLD_NOW, remote_info] w) (\<lambda>(remote_handle, regs, w).
           if remote_handle = 0 then
             Option.bind (get_remote_dlerror A K pid regs local_map remote_map libc_return_addr w)
               (\<lambda>(error_msg, regs, w). Some (None, regs, w))
           else Some (Some remote_handle, regs, w)))"

definition remote_find_entry ::
  "('a :: len word, 'r, 'w) arch \<Rightarrow> ('a word, 'r, 'w) kernel \<Rightarrow> int \<Rightarrow> 'r \<Rightarrow> MapInfo list \<Rightarrow> MapInfo list \<Rightarrow>
   'a word \<Rightarrow> 'a word \<Rightarrow> 'w \<Rightarrow> ('a word option \<times> 'r \<times> 'w) option" where
  "remote_find_entry A K pid regs local_map remote_map remote_handle libc_return_addr w =
     (let (dlsym_addr, w) = find_func_addr K local_map remote_map kLibdlModule ''dlsym'' w
      in if dlsym_addr = 0 then Some (None, regs, w)
      else let (remote_symbol, regs, w) = push_string A K pid regs (Some kEntrySymbol) w
      in Option.bind (remote_call A K pid regs dlsym_addr libc_return_addr [remote_handle, remote_symbol] w)
           (\<lambda>(entry_addr, regs, w).
           if entry_addr = 0 then
             Option.bind (get_remote_dlerror A K pid regs local_map remote_map libc_return_addr w)
               (\<lambda>(error_msg, regs, w). Some (None, regs, w))
           else Some (Some entry_addr, regs, w)))"

text \<open>The result of the entry point is only logged.\<close>

definition remote_call_entry ::
  "('a :: len word, 'r, 'w) arch \<Rightarrow> ('a word, 'r, 'w) kernel \<Rightarrow> int \<Rightarrow> 'r \<Rightarrow> 'a word \<Rightarrow> 'a word \<Rightarrow> 'a word \<Rightarrow> 'w
     \<Rightarrow> (bool \<times> 'r \<times> 'w) option" where
  "remote_call_entry A K pid regs entry_addr remote_handle libc_return_addr w =
     Option.bind (remote_call A K pid regs entry_addr libc_return_addr [remote_handle] w)
       (\<lambda>(result, regs, w). Some (True, regs, w))"

section \<open>Attaching\<close>

text \<open>\<open>PtraceAttachment\<close>: the constructor returns \<open>attached_\<close>, the destructor detaches.\<close>

definition PtraceAttachment :: "('a, 'r, 'w) kernel \<Rightarrow> int \<Rightarrow> 'w \<Rightarrow> bool \<times> 'w" where
  "PtraceAttachment K target_pid w = ptrace_attach K target_pid w"

definition PtraceAttachment_destroy :: "('a, 'r, 'w) kernel \<Rightarrow> int \<Rightarrow> bool \<Rightarrow> 'w \<Rightarrow> 'w" where
  "PtraceAttachment_destroy K pid attached w = (if attached then snd (ptrace_detach K pid w) else w)"

text \<open>\<open>RemoteLibraryHandle\<close>: its destructor closes the descriptor in the traced process.\<close>

record 'a RemoteLibraryHandle =
  rl_pid :: int
  rl_fd :: int
  rl_handle :: 'a

definition RemoteLibraryHandle_destroy ::
  "('a :: len word, 'r, 'w) arch \<Rightarrow> ('a word, 'r, 'w) kernel \<Rightarrow> 'r \<Rightarrow> 'a word RemoteLibraryHandle \<Rightarrow> 'w \<Rightarrow> 'w option" where
  "RemoteLibraryHandle_destroy A K zero_regs h w =
     (if rl_fd h = -1 then Some w
      else let (ok, regs, w) = get_regs K (rl_pid h) zero_regs w
      in if \<not> ok then Some w
      else let local_map = Scan (k_file K w) ''self'';
               remote_map = Scan (k_file K w) (show_int (rl_pid h));
               (close_a, w) = find_func_addr K local_map remote_map kLibcModule ''close'' w
      in if close_a = 0 then Some w
      else Option.bind (remote_call A K (rl_pid h) regs close_a 0 [of_int (rl_fd h)] w)
             (\<lambda>(_, regs, w). Some w))"

definition RemoteLibraryHandle_move ::
  "'a :: len word RemoteLibraryHandle \<Rightarrow> 'a word RemoteLibraryHandle \<times> 'a word RemoteLibraryHandle" where
  "RemoteLibraryHandle_move other = (other, other\<lparr>rl_fd := -1, rl_handle := 0\<rparr>)"

section \<open>inject_library\<close>

text \<open>
  The part of \<open>inject_library\<close> that works on the stopped process, after its registers were
  saved.
\<close>

definition inject_stopped ::
  "('a :: len word, 'r, 'w) arch \<Rightarrow> ('a word, 'r, 'w) kernel \<Rightarrow> 'a word sysabi \<Rightarrow> int \<Rightarrow> string \<Rightarrow> 'r \<Rightarrow> 'w
     \<Rightarrow> (bool \<times> 'w) option" where
  "inject_stopped A K B pid lib_path backup_regs w =
     (let remote_map = Scan (k_file K w) (show_int pid);
          local_map = Scan (k_file K w) ''self'';
          libc_return_addr = find_module_return_addr remote_map kLibcModule
      in if libc_return_addr = 0 then Some (False, w)
      else Option.bind (transfer_fd_to_remote A K B pid lib_path backup_regs local_map remote_map w)
        (\<lambda>(lib_fd_opt, regs, w). case lib_fd_opt of None \<Rightarrow> Some (False, w) | Some lib_fd \<Rightarrow>
      Option.bind (remote_dlopen A K B pid regs local_map remote_map lib_fd lib_path libc_return_addr w)
        (\<lambda>(handle_opt, regs, w). case handle_opt of None \<Rightarrow> Some (False, w) | Some remote_handle \<Rightarrow>
      let (close_a, w) = find_func_addr K local_map remote_map kLibcModule ''close'' w
      in Option.bind (if close_a \<noteq> 0
            then Option.bind (remote_call A K pid regs close_a 0 [of_int lib_fd] w) (\<lambda>(_, regs, w). Some (regs, w))
            else Some (regs, w)) (\<lambda>(regs, w).
      Option.bind (remote_find_entry A K pid regs local_map remote_map remote_handle libc_return_addr w)
        (\<lambda>(entry_opt, regs, w). case entry_opt of None \<Rightarrow> Some (False, w) | Some entry_addr \<Rightarrow>
      Option.bind (remote_call_entry A K pid regs entry_addr remote_handle libc_return_addr w)
        (\<lambda>(ok, regs, w). if \<not> ok then Some (False, w)
          else Some (set_regs K pid backup_regs w)))))))"

definition inject_library ::
  "('a :: len word, 'r, 'w) arch \<Rightarrow> ('a word, 'r, 'w) kernel \<Rightarrow> 'a word sysabi \<Rightarrow> 'r \<Rightarrow> int \<Rightarrow> string \<Rightarrow> string \<Rightarrow> 'w
     \<Rightarrow> (bool \<times> 'w) option" where
  "inject_library A K B zero_regs pid lib_path entry_name w =
     (let (attached, w) = PtraceAttachment K pid w;
          leave = PtraceAttachment_destroy K pid attached
      in if \<not> attached then Some (False, leave w)
      else Option.bind (wait_for_trace K pid w) (\<lambda>(status, w).
        case status of
          None \<Rightarrow> Some (False, leave w)
        | Some status \<Rightarrow>
            if \<not> WIFSTOPPED status \<or> WSTOPSIG status \<noteq> SIGSTOP then Some (False, leave w)
            else let (ok, current_regs, w) = get_regs K pid zero_regs w
            in if \<not> ok then Some (False, leave w)
            else Option.bind (inject_stopped A K B pid lib_path current_regs w)
                   (\<lambda>(ok, w). Some (ok, leave w))))"

section \<open>main\<close>

definition INT_MAX :: int where "INT_MAX = 2147483647"

text \<open>
  \<open>strtol\<close> in base 10: the value, limited to a \<open>long\<close> of the given width, and the rest of the
  string. On Android \<open>long\<close> has the width of an address.
\<close>

definition strtol :: "nat \<Rightarrow> string \<Rightarrow> int \<times> string" where
  "strtol width s =
     (let (neg, r) = scan_sign (skip_space s);
          ds = takeWhile (is_digit 10) r;
          v = int (digits_value 10 0 ds);
          v = (if neg then - v else v)
      in if ds = [] then (0, s)
         else (max (- (2 ^ (width - 1))) (min (2 ^ (width - 1) - 1) v), dropWhile (is_digit 10) r))"

text \<open>
  \<open>realpath\<close> and \<open>access\<close> are system functions. The result is the exit status; \<open>None\<close> is
  waiting for ever.
\<close>

definition inject_main ::
  "('a :: len word, 'r, 'w) arch \<Rightarrow> ('a word, 'r, 'w) kernel \<Rightarrow> 'a word sysabi \<Rightarrow> 'r \<Rightarrow>
   (string \<Rightarrow> 'w \<Rightarrow> string option) \<Rightarrow> (string \<Rightarrow> 'w \<Rightarrow> bool) \<Rightarrow> string list \<Rightarrow> 'w \<Rightarrow> (int \<times> 'w) option" where
  "inject_main A K B zero_regs realpath readable argv w =
     (if length argv < 4 then Some (1, w)
      else let (pid_long, endptr) = strtol LENGTH('a) (argv ! 1)
      in if endptr \<noteq> [] \<or> pid_long \<le> 0 \<or> pid_long > INT_MAX then Some (1, w)
      else (case realpath (argv ! 2) w of
          None \<Rightarrow> Some (1, w)
        | Some resolved_path \<Rightarrow>
            if \<not> readable resolved_path w then Some (1, w)
            else if length (argv ! 3) = 0 then Some (1, w)
            else Option.bind (inject_library A K B zero_regs pid_long resolved_path (argv ! 3) w)
                   (\<lambda>(success, w). Some (if success then 0 else 1, w))))"

end
