(* ===== verification/Inject_Props.thy ===== *)
theory Inject_Props
  imports Inject_Main
begin

unbundle bit_operations_syntax

text \<open>
  Correctness of the injector's helpers: stack discipline and calling conventions of the remote
  calls on the four architectures (through the locale \<open>stack_machine\<close>), what a remote call
  returns, symbol translation, and the descriptors and texts of the helpers.
\<close>

section \<open>Alignment\<close>

lemma align_down_minus: "align_down v = v - take_bit 4 (v :: 'a :: len word)"
proof -
  have m: "of_nat kStackAlignment = (mask 4 :: 'a word)"
    by (simp add: kStackAlignment_def mask_eq_exp_minus_1)
  have "(v AND mask 4) + (v AND NOT (mask 4)) = (v AND mask 4) OR (v AND NOT (mask 4))"
    by (rule disjunctive_add) (auto simp: bit_simps)
  also have "\<dots> = v" by (rule bit_word_eqI) (auto simp: bit_simps)
  finally show ?thesis by (simp add: align_down_def m take_bit_eq_mask algebra_simps)
qed

lemma unat_align_down: "unat (align_down v) = unat v - unat v mod 16" for v :: "'a :: len word"
proof -
  have t: "unat (take_bit 4 v) = unat v mod 16"
    by (simp only: unsigned_take_bit_eq) (simp add: take_bit_eq_mod)
  then have "take_bit 4 v \<le> v" by (simp add: word_le_nat_alt)
  then show ?thesis by (simp add: align_down_minus unat_sub t)
qed

lemma align_down_bounds:
  fixes v :: "'a :: len word"
  shows "unat (align_down v) mod 16 = 0" and "unat (align_down v) \<le> unat v" and "unat v - 15 \<le> unat (align_down v)"
proof -
  have "unat v - unat v mod 16 = 16 * (unat v div 16)" by (simp add: minus_mod_eq_mult_div)
  then show "unat (align_down v) mod 16 = 0" by (simp add: unat_align_down)
  show "unat (align_down v) \<le> unat v" by (simp add: unat_align_down)
  have "unat v mod 16 \<le> 15" using mod_less_divisor [of 16 "unat v"] by linarith
  then show "unat v - 15 \<le> unat (align_down v)" by (simp add: unat_align_down)
qed

section \<open>Memory of the traced process\<close>

text \<open>
  The documented effect of \<open>process_vm_writev\<close>: when it reports that all bytes were written, the
  memory \<open>rd w\<close> of the process holds them at the address and is otherwise unchanged.
\<close>

definition writes_memory :: "('a :: len word, 'r, 'w) kernel \<Rightarrow> ('w \<Rightarrow> 'a word \<Rightarrow> byte) \<Rightarrow> bool" where
  "writes_memory K rd \<longleftrightarrow> (\<forall>pid a bs w w'. process_vm_writev K pid a bs w = (int (length bs), w') \<longrightarrow>
     rd w' = (\<lambda>x. if unat (x - a) < length bs then bs ! unat (x - a) else rd w x))"

definition holds_at :: "('a :: len word \<Rightarrow> byte) \<Rightarrow> 'a word \<Rightarrow> byte list \<Rightarrow> bool" where
  "holds_at m a bs \<longleftrightarrow> (\<forall>i<length bs. m (a + of_nat i) = bs ! i)"

lemma unat_of_nat_le: "unat (of_nat k :: 'a :: len word) = k" if "k \<le> unat (v :: 'a word)"
proof -
  have "k < 2 ^ LENGTH('a)" by (rule le_less_trans [OF that]) (rule unsigned_less)
  then show ?thesis by (simp add: unat_of_nat)
qed

lemma unat_minus_nat: "k \<le> unat v \<Longrightarrow> unat (v - of_nat k) = unat v - k" for v :: "'a :: len word"
  using unat_of_nat_le [of k v] by (simp add: unat_sub word_le_nat_alt)

lemma unat_plus_nat: "unat (v + of_nat k) = unat v + k" if "unat v + k \<le> unat u" for u v :: "'a :: len word"
proof -
  have "k \<le> unat u" using that by linarith
  then have k: "unat (of_nat k :: 'a word) = k" by (rule unat_of_nat_le)
  have "unat v + k < 2 ^ LENGTH('a)" by (rule le_less_trans [OF that]) (rule unsigned_less)
  then show ?thesis by (simp add: unat_word_ariths k)
qed

lemma write_holds:
  fixes a hi :: "'a :: len word"
  assumes "writes_memory K rd" "process_vm_writev K pid a bs w = (int (length bs), w')"
    and "unat a + length bs \<le> unat hi"
  shows "holds_at (rd w') a bs"
    and "unat a + length bs \<le> unat x \<Longrightarrow> rd w' x = rd w x"
proof -
  have w: "rd w' = (\<lambda>x. if unat (x - a) < length bs then bs ! unat (x - a) else rd w x)"
    using assms(1,2) unfolding writes_memory_def by blast
  have "unat (of_nat i :: 'a word) = i" if "i < length bs" for i
    using unat_of_nat_le [of i hi] assms(3) that by linarith
  then show "holds_at (rd w') a bs" by (simp add: holds_at_def w)
  show "rd w' x = rd w x" if "unat a + length bs \<le> unat x"
  proof -
    have "a \<le> x" using that by (simp add: word_le_nat_alt)
    then have "\<not> unat (x - a) < length bs" using that by (simp add: unat_sub)
    then show ?thesis by (simp add: w)
  qed
qed

lemma holds_at_append:
  "holds_at m a (bs @ cs) \<longleftrightarrow> holds_at m a bs \<and> holds_at m (a + of_nat (length bs)) cs"
proof
  assume h: "holds_at m a (bs @ cs)"
  have "m (a + of_nat i) = bs ! i" if "i < length bs" for i
    using h that unfolding holds_at_def by (auto simp: nth_append dest: spec [of _ i])
  moreover have "m (a + of_nat (length bs) + of_nat i) = cs ! i" if "i < length cs" for i
    using h that unfolding holds_at_def by (auto simp: nth_append ac_simps dest: spec [of _ "length bs + i"])
  ultimately show "holds_at m a bs \<and> holds_at m (a + of_nat (length bs)) cs" by (simp add: holds_at_def)
next
  assume h: "holds_at m a bs \<and> holds_at m (a + of_nat (length bs)) cs"
  have "m (a + of_nat i) = (bs @ cs) ! i" if i: "i < length (bs @ cs)" for i
  proof (cases "i < length bs")
    case True
    then show ?thesis using h by (simp add: holds_at_def nth_append)
  next
    case False
    then have "i - length bs < length cs" using i by simp
    then have "m (a + of_nat (length bs) + of_nat (i - length bs)) = cs ! (i - length bs)"
      using h unfolding holds_at_def by blast
    moreover have "a + of_nat (length bs) + of_nat (i - length bs) = a + of_nat i"
      using False by (simp add: of_nat_diff)
    ultimately show ?thesis using False by (simp add: nth_append)
  qed
  then show "holds_at m a (bs @ cs)" by (simp add: holds_at_def)
qed

lemma length_word_bytes [simp]: "length (word_bytes (v :: 'a :: len word)) = word_size TYPE('a word)"
  by (simp add: word_bytes_def)

lemma length_words_bytes [simp]:
  "length (words_bytes (vs :: 'a :: len word list)) = length vs * word_size TYPE('a word)"
  by (induction vs) (simp_all add: words_bytes_def)

text \<open>A run of words holds each word at its place.\<close>

lemma words_at:
  fixes vs :: "'a :: len word list"
  shows "holds_at m a (words_bytes vs) \<Longrightarrow> i < length vs \<Longrightarrow>
    holds_at m (a + of_nat (i * word_size TYPE('a word))) (word_bytes (vs ! i))"
proof (induction vs arbitrary: a i)
  case Nil
  then show ?case by simp
next
  case (Cons v vs)
  have h: "holds_at m a (word_bytes v)" "holds_at m (a + of_nat (word_size TYPE('a word))) (words_bytes vs)"
    using Cons.prems(1) by (simp_all add: words_bytes_def holds_at_append)
  show ?case
  proof (cases i)
    case 0
    then show ?thesis using h by simp
  next
    case (Suc j)
    then show ?thesis using Cons.IH [OF h(2), of j] Cons.prems(2) by (simp add: algebra_simps)
  qed
qed

section \<open>Stack machines\<close>

text \<open>
  What the generic stack code relies on of an architecture: the stack pointer can be set and
  read, and setting it changes neither the program counter nor the return register. \<open>ok\<close> is
  the shape of its register file.
\<close>

locale stack_machine =
  fixes A :: "('a :: len word, 'r, 'x) regfile_scheme"
    and ok :: "'r \<Rightarrow> bool"
  assumes sp_put: "ok r \<Longrightarrow> REG_SP A (put_SP A v r) = v"
    and put_put: "ok r \<Longrightarrow> put_SP A u (put_SP A v r) = put_SP A u r"
    and ok_put: "ok r \<Longrightarrow> ok (put_SP A v r)"
    and ip_put: "ok r \<Longrightarrow> REG_IP A (put_SP A v r) = REG_IP A r"
    and ret_put: "ok r \<Longrightarrow> REG_RET A (put_SP A v r) = REG_RET A r"
begin

lemma align_sp: "ok r \<Longrightarrow> REG_SP A (align_stack A r n) = align_down (REG_SP A r - n)"
  by (simp add: align_stack_def sp_put)

lemma align_ok: "ok r \<Longrightarrow> ok (align_stack A r n)"
  by (simp add: align_stack_def ok_put)

text \<open>A push moves the stack pointer to an aligned place with room for the data and writes there.\<close>

lemma push_memory_spec:
  assumes "ok r" "data \<noteq> []" "length data \<le> unat (REG_SP A r)"
    and "push_memory A K pid r data w = (a, r', w')" "a \<noteq> 0"
  shows "process_vm_writev K pid a data w = (int (length data), w')"
    and "r' = put_SP A a r" and "unat a mod 16 = 0"
    and "unat a + length data \<le> unat (REG_SP A r)"
    and "unat (REG_SP A r) - length data - 15 \<le> unat a"
proof -
  have l: "length data < 2 ^ LENGTH('a)"
    by (rule le_less_trans [OF assms(3)]) (rule unsigned_less)
  then have u: "unat (of_nat (length data) :: 'a word) = length data" by (simp add: unat_of_nat)
  then have s: "unat (REG_SP A r - of_nat (length data)) = unat (REG_SP A r) - length data"
    using assms(3) by (simp add: unat_sub word_le_nat_alt)
  have a: "a = align_down (REG_SP A r - of_nat (length data)) \<and> r' = put_SP A a r \<and>
      process_vm_writev K pid a data w = (int (length data), w')"
    using assms by (auto simp: push_memory_def Let_def align_stack_def sp_put put_put ok_put
        write_proc_def split: prod.splits if_splits)
  then show "process_vm_writev K pid a data w = (int (length data), w')" "r' = put_SP A a r" by blast+
  show "unat a mod 16 = 0" using a align_down_bounds(1) by simp
  have e: "a = align_down (REG_SP A r - of_nat (length data))" using a by blast
  show "unat a + length data \<le> unat (REG_SP A r)"
    unfolding e using s align_down_bounds(2) [of "REG_SP A r - of_nat (length data)"] assms(3) by linarith
  show "unat (REG_SP A r) - length data - 15 \<le> unat a"
    unfolding e using s align_down_bounds(3) [of "REG_SP A r - of_nat (length data)"] by linarith
qed

text \<open>Stack arguments and return address, as the writes they make and the stack pointer they leave.\<close>

lemma push_stack_args_spec:
  assumes "ok r" "writes_memory K rd"
    and "(length args - n) * word_size TYPE('a word) \<le> unat (REG_SP A r)"
    and "push_stack_args A K n pid r args w = (True, r', w')" and "unat (REG_SP A r) mod 16 = 0"
  shows "r' = put_SP A (REG_SP A r') r \<or> r' = r" and "unat (REG_SP A r') mod 16 = 0"
    and "unat (REG_SP A r') + (length args - n) * word_size TYPE('a word) \<le> unat (REG_SP A r)"
    and "unat (REG_SP A r) - (length args - n) * word_size TYPE('a word) - 15 \<le> unat (REG_SP A r')"
    and "holds_at (rd w') (REG_SP A r') (words_bytes (drop n args))"
    and "unat (REG_SP A r) \<le> unat x \<Longrightarrow> rd w' x = rd w x"
proof -
  define k where "k = (length args - n) * word_size TYPE('a word)"
  define sp where "sp = align_down (REG_SP A r - of_nat k)"
  have small: "unat sp mod 16 = 0" "unat sp + k \<le> unat (REG_SP A r)" "unat (REG_SP A r) - k - 15 \<le> unat sp"
    using unat_minus_nat [OF assms(3) [folded k_def]] align_down_bounds [of "REG_SP A r - of_nat k"]
      assms(3) [folded k_def]
    unfolding sp_def by linarith+
  have cases: "r' = r \<and> w' = w \<and> drop n args = [] \<and> k = 0 \<or> r' = put_SP A sp r \<and> REG_SP A r' = sp \<and>
      (words_bytes (drop n args) \<noteq> [] \<and>
       process_vm_writev K pid sp (words_bytes (drop n args)) w = (int k, w'))"
  proof (cases "n < length args")
    case True
    have ra: "REG_SP A (align_stack A r (of_nat k)) = sp" "align_stack A r (of_nat k) = put_SP A sp r"
      using assms(1) by (simp_all add: sp_put sp_def align_stack_def)
    have "r' = align_stack A r (of_nat k) \<and> write_proc K pid sp (words_bytes (drop n args)) False w = (int k, w')"
      using assms(4) True unfolding push_stack_args_def Let_def k_def [symmetric] ra(1)
      by (simp split: prod.splits)
    then show ?thesis using ra by (auto simp: write_proc_def split: if_splits)
  next
    case False
    then show ?thesis using assms(4) by (simp add: push_stack_args_def k_def)
  qed
  have len: "length (words_bytes (drop n args)) = k" by (simp add: k_def)
  show "r' = put_SP A (REG_SP A r') r \<or> r' = r" using cases by auto
  show "unat (REG_SP A r') mod 16 = 0" using cases small assms(5) by auto
  show "unat (REG_SP A r') + (length args - n) * word_size TYPE('a word) \<le> unat (REG_SP A r)"
    unfolding k_def [symmetric] using cases small by auto
  show "unat (REG_SP A r) - (length args - n) * word_size TYPE('a word) - 15 \<le> unat (REG_SP A r')"
    unfolding k_def [symmetric] using cases small by auto
  have wr: "holds_at (rd w') sp (words_bytes (drop n args))" "unat (REG_SP A r) \<le> unat x \<Longrightarrow> rd w' x = rd w x"
    if "process_vm_writev K pid sp (words_bytes (drop n args)) w = (int k, w')" for x
  proof -
    have p: "process_vm_writev K pid sp (words_bytes (drop n args)) w =
        (int (length (words_bytes (drop n args))), w')" using that len by simp
    have t: "unat sp + length (words_bytes (drop n args)) \<le> unat (REG_SP A r)" using small(2) len by simp
    show "holds_at (rd w') sp (words_bytes (drop n args))" by (rule write_holds(1) [OF assms(2) p t])
    show "rd w' x = rd w x" if "unat (REG_SP A r) \<le> unat x"
      by (rule write_holds(2) [OF assms(2) p t]) (use t that in linarith)
  qed
  show "holds_at (rd w') (REG_SP A r') (words_bytes (drop n args))"
    using cases wr(1) by (auto simp: words_bytes_def holds_at_def)
  show "rd w' x = rd w x" if "unat (REG_SP A r) \<le> unat x" using cases wr(2) that by blast
qed

text \<open>The return address lies at the new stack pointer, below everything pushed before.\<close>

lemma push_return_addr_spec:
  assumes "ok r" "writes_memory K rd" and "word_size TYPE('a word) \<le> unat (REG_SP A r)" "0 < word_size TYPE('a word)"
    and "push_return_addr A K pid r ret w = (True, r', w')"
  shows "r' = put_SP A (REG_SP A r') r"
    and "REG_SP A r' + of_nat (word_size TYPE('a word)) = REG_SP A r"
    and "unat (REG_SP A r') = unat (REG_SP A r) - word_size TYPE('a word)"
    and "holds_at (rd w') (REG_SP A r') (word_bytes ret)"
    and "unat (REG_SP A r) \<le> unat x \<Longrightarrow> rd w' x = rd w x"
proof -
  define k where "k = word_size TYPE('a word)"
  define sp where "sp = REG_SP A r - of_nat k"
  have nonempty: "word_bytes ret \<noteq> []" using assms(4) length_word_bytes [of ret] by (metis list.size(3) nat_less_le)
  have c: "r' = put_SP A sp r \<and> REG_SP A r' = sp \<and>
      process_vm_writev K pid sp (word_bytes ret) w = (int (length (word_bytes ret)), w')"
    using assms(1,5) nonempty by (auto simp: push_return_addr_def Let_def sp_put write_proc_def sp_def k_def
        split: prod.splits if_splits)
  have u: "unat sp = unat (REG_SP A r) - k" unfolding sp_def by (rule unat_minus_nat) (use assms(3) k_def in simp)
  have t: "unat sp + length (word_bytes ret) \<le> unat (REG_SP A r)" using u assms(3) by (simp add: k_def)
  show "r' = put_SP A (REG_SP A r') r" using c by metis
  have "REG_SP A r' = REG_SP A r - of_nat k" using c unfolding sp_def by blast
  then show "REG_SP A r' + of_nat (word_size TYPE('a word)) = REG_SP A r" by (simp add: k_def)
  show "unat (REG_SP A r') = unat (REG_SP A r) - word_size TYPE('a word)" using c u unfolding k_def by metis
  have p: "process_vm_writev K pid sp (word_bytes ret) w = (int (length (word_bytes ret)), w')" using c by simp
  show "holds_at (rd w') (REG_SP A r') (word_bytes ret)" using write_holds(1) [OF assms(2) p t] c by metis
  show "rd w' x = rd w x" if "unat (REG_SP A r) \<le> unat x"
    by (rule write_holds(2) [OF assms(2) p t]) (use t that in linarith)
qed

text \<open>Bytes above the old stack pointer survive the push of the return address.\<close>

lemma holds_above:
  fixes b hi :: "'a word"
  assumes "\<And>x. unat b \<le> unat x \<Longrightarrow> m' x = m x" and "holds_at m b bs" "unat b + length bs \<le> unat hi"
  shows "holds_at m' b bs"
proof -
  have "m' (b + of_nat i) = m (b + of_nat i)" if "i < length bs" for i
  proof (rule assms(1))
    have "unat b + i \<le> unat hi" using assms(3) that by linarith
    then show "unat b \<le> unat (b + of_nat i)" by (simp add: unat_plus_nat)
  qed
  then show ?thesis using assms(2) by (simp add: holds_at_def)
qed

end

interpretation x86_64_stack: stack_machine x86_64_base "\<lambda>_. True"
  by unfold_locales (simp_all add: x86_64_base_def)

interpretation i386_stack: stack_machine i386_base "\<lambda>_. True"
  by unfold_locales (simp_all add: i386_base_def)

interpretation aarch64_stack: stack_machine aarch64_base "\<lambda>r. length (xregs r) = 31"
  by unfold_locales (simp_all add: aarch64_base_def)

interpretation arm_stack: stack_machine arm_base "\<lambda>r. length r = 18"
  by unfold_locales (simp_all add: arm_base_def)

section \<open>Calling conventions\<close>

text \<open>The call starts in \<open>w1\<close>: the registers are set and the process continues.\<close>

definition started :: "('a, 'r, 'w) kernel \<Rightarrow> int \<Rightarrow> 'r \<Rightarrow> 'w \<Rightarrow> 'w \<Rightarrow> bool" where
  "started K pid r w1 w' \<longleftrightarrow> (case set_regs K pid r w1 of (ok, w2) \<Rightarrow> ok \<and> ptrace_cont K pid w2 = (True, w'))"

lemma remote_pre_call_parts:
  assumes "remote_pre_call A K pid regs f ret args w = (True, r', w')"
  obtains w1 where "setup_call A K pid (align_stack A regs 0) f ret args w = (True, r', w1)"
    and "started K pid r' w1 w'"
  using assms by (auto simp: remote_pre_call_def Let_def started_def split: prod.splits if_splits)

lemma word_size_values [simp]: "word_size TYPE(64 word) = 8" "word_size TYPE(32 word) = 4"
  by (simp_all add: word_size_def)

lemma align_stack_arch [simp]:
  "align_stack x86_64 = align_stack x86_64_base" "align_stack i386 = align_stack i386_base"
  "align_stack aarch64 = align_stack aarch64_base" "align_stack arm = align_stack arm_base"
  by (simp_all add: fun_eq_iff align_stack_def x86_64_def i386_def aarch64_def arm_def regfile.defs
      x86_64_base_def i386_base_def aarch64_base_def arm_base_def)

lemma setup_call_arch [simp]:
  "setup_call x86_64 = x86_64_setup" "setup_call i386 = i386_setup"
  "setup_call aarch64 = aarch64_setup" "setup_call arm = arm_setup"
  by (simp_all add: x86_64_def i386_def aarch64_def arm_def regfile.defs)

lemma base_regs [simp]:
  "REG_SP x86_64_base = rsp" "put_SP x86_64_base v r = r\<lparr>rsp := v\<rparr>"
  "REG_SP i386_base = esp" "put_SP i386_base u s = s\<lparr>esp := u\<rparr>"
  "REG_SP aarch64_base = xsp" "put_SP aarch64_base v x = x\<lparr>xsp := v\<rparr>"
  by (simp_all add: x86_64_base_def i386_base_def aarch64_base_def)

definition x86_64_arg_regs :: "x86_64_regs \<Rightarrow> u64 list" where
  "x86_64_arg_regs s = [rdi s, rsi s, rdx s, rcx s, r8 s, r9 s]"

lemma x86_64_args_rsp [simp]: "rsp (setup_x86_64_args r args) = rsp r"
  by (simp add: setup_x86_64_args_def Let_def)

lemma x86_64_arg_regs_put [simp]:
  "x86_64_arg_regs (r\<lparr>rsp := v\<rparr>) = x86_64_arg_regs r" "x86_64_arg_regs (r\<lparr>rip := v\<rparr>) = x86_64_arg_regs r"
  by (simp_all add: x86_64_arg_regs_def)

lemma x86_64_args: "take (length args) (x86_64_arg_regs (setup_x86_64_args r args)) = take 6 args"
proof (rule nth_equalityI)
  fix i assume "i < length (take (length args) (x86_64_arg_regs (setup_x86_64_args r args)))"
  then have "i < 6" "i < length args" by (simp_all add: x86_64_arg_regs_def)
  then consider "i = 0" | "i = 1" | "i = 2" | "i = 3" | "i = 4" | "i = 5" by linarith
  then show "take (length args) (x86_64_arg_regs (setup_x86_64_args r args)) ! i = take 6 args ! i"
    using \<open>i < length args\<close> by cases (simp_all add: x86_64_arg_regs_def setup_x86_64_args_def Let_def Suc_le_eq)
qed (simp add: x86_64_arg_regs_def)

text \<open>
  C23. On x86_64 a remote call starts as the System V ABI asks: the first six arguments in
  \<open>rdi\<close>, \<open>rsi\<close>, \<open>rdx\<close>, \<open>rcx\<close>, \<open>r8\<close>, \<open>r9\<close>, \<open>rip\<close> at the function, \<open>rsp + 8\<close> a multiple of 16, the
  return address at \<open>rsp\<close>, every further argument in its slot above it, and no byte at or above
  the interrupted stack pointer changed.
\<close>

theorem x86_64_call_frame:
  assumes "writes_memory K rd"
    and "8 * length args + 40 \<le> unat (rsp regs)"
    and "remote_pre_call x86_64 K pid regs f ret args w = (True, r', w')"
  shows "\<exists>w1. started K pid r' w1 w' \<and> rip r' = f \<and> (unat (rsp r') + 8) mod 16 = 0 \<and>
    take (length args) (x86_64_arg_regs r') = take 6 args \<and>
    holds_at (rd w1) (rsp r') (word_bytes ret) \<and>
    (\<forall>i. 6 + i < length args \<longrightarrow> holds_at (rd w1) (rsp r' + 8 + of_nat (i * 8)) (word_bytes (args ! (6 + i)))) \<and>
    (\<forall>x. unat (rsp regs) \<le> unat x \<longrightarrow> rd w1 x = rd w x)"
proof -
  obtain w1 where w1: "x86_64_setup K pid (align_stack x86_64_base regs 0) f ret args w = (True, r', w1)"
    and st: "started K pid r' w1 w'"
    using assms(3) by (rule remote_pre_call_parts) auto
  define s where "s = setup_x86_64_args (align_stack x86_64_base regs 0) args"
  have sp: "rsp s = align_down (rsp regs)" by (simp add: s_def align_stack_def)
  have b: "unat (rsp s) mod 16 = 0" "unat (rsp s) \<le> unat (rsp regs)" "unat (rsp regs) - 15 \<le> unat (rsp s)"
    unfolding sp by (rule align_down_bounds)+
  obtain s1 v1 s2 where p: "push_stack_args x86_64_base K 6 pid s args w = (True, s1, v1)"
      "push_return_addr x86_64_base K pid s1 ret v1 = (True, s2, w1)" "r' = s2\<lparr>rip := f\<rparr>"
    using w1 by (auto simp: x86_64_setup_def Let_def s_def [symmetric] split: prod.splits if_splits)
  have room: "(length args - 6) * word_size TYPE(64 word) \<le> unat (REG_SP x86_64_base s)"
    using b(3) assms(2) by simp
  note A = x86_64_stack.push_stack_args_spec [OF TrueI assms(1) room p(1), unfolded base_regs, OF b(1)]
  have room2: "word_size TYPE(64 word) \<le> unat (REG_SP x86_64_base s1)"
    using A(4) b(3) assms(2) by simp
  note R = x86_64_stack.push_return_addr_spec [OF TrueI assms(1) room2 _ p(2), unfolded base_regs, simplified]
  have sp1: "rsp r' + 8 = rsp s1" using R(2) p(3) by simp
  have "x86_64_arg_regs s2 = x86_64_arg_regs s1" by (subst R(1)) simp
  moreover have "x86_64_arg_regs s1 = x86_64_arg_regs s" using A(1) x86_64_arg_regs_put(1) by metis
  ultimately have regs: "x86_64_arg_regs r' = x86_64_arg_regs s" using p(3) by simp
  have "holds_at (rd w1) (rsp s1) (words_bytes (drop 6 args))"
    by (rule x86_64_stack.holds_above [OF R(5) A(5), of "rsp s"]) (use A(3) in simp_all)
  then have "holds_at (rd w1) (rsp r' + 8 + of_nat (i * 8)) (word_bytes (args ! (6 + i)))"
    if "6 + i < length args" for i
    using words_at [of "rd w1" "rsp s1" "drop 6 args" i] that by (simp add: sp1)
  moreover have "rd w1 x = rd w x" if "unat (rsp regs) \<le> unat x" for x
    using R(5) [of x] A(6) [of x] A(3) b(2) that by simp
  moreover have "(unat (rsp r') + 8) mod 16 = 0" using R(3) p(3) A(2) room2 by simp
  moreover have "take (length args) (x86_64_arg_regs r') = take 6 args"
    unfolding regs s_def by (rule x86_64_args)
  moreover have "holds_at (rd w1) (rsp r') (word_bytes ret)" using R(4) p(3) by simp
  ultimately show ?thesis using st p(3) by auto
qed

text \<open>
  C26. On i386 a remote call starts as the C calling convention asks: \<open>eip\<close> at the function, the
  return address at \<open>esp\<close>, every argument in its slot above it, \<open>esp + 4\<close> a multiple of 16, and
  no byte at or above the interrupted stack pointer changed.
\<close>

theorem i386_call_frame:
  assumes "writes_memory K rd"
    and "4 * length args + 36 \<le> unat (esp regs)"
    and "remote_pre_call i386 K pid regs f ret args w = (True, r', w')"
  shows "\<exists>w1. started K pid r' w1 w' \<and> eip r' = f \<and> (unat (esp r') + 4) mod 16 = 0 \<and>
    holds_at (rd w1) (esp r') (word_bytes ret) \<and>
    (\<forall>i<length args. holds_at (rd w1) (esp r' + 4 + of_nat (i * 4)) (word_bytes (args ! i))) \<and>
    (\<forall>x. unat (esp regs) \<le> unat x \<longrightarrow> rd w1 x = rd w x)"
proof -
  obtain w1 where w1: "i386_setup K pid (align_stack i386_base regs 0) f ret args w = (True, r', w1)"
    and st: "started K pid r' w1 w'"
    using assms(3) by (rule remote_pre_call_parts) auto
  define s where "s = align_stack i386_base regs 0"
  have sp: "esp s = align_down (esp regs)" by (simp add: s_def align_stack_def)
  have b: "unat (esp s) mod 16 = 0" "unat (esp s) \<le> unat (esp regs)" "unat (esp regs) - 15 \<le> unat (esp s)"
    unfolding sp by (rule align_down_bounds)+
  obtain s1 v1 s2 where p: "push_stack_args i386_base K 0 pid s args w = (True, s1, v1)"
      "push_return_addr i386_base K pid s1 ret v1 = (True, s2, w1)" "r' = s2\<lparr>eip := f\<rparr>"
    using w1 by (auto simp: i386_setup_def Let_def s_def [symmetric] split: prod.splits if_splits)
  have room: "(length args - 0) * word_size TYPE(32 word) \<le> unat (REG_SP i386_base s)"
    using b(3) assms(2) by simp
  note A = i386_stack.push_stack_args_spec [OF TrueI assms(1) room p(1), unfolded base_regs, OF b(1)]
  have room2: "word_size TYPE(32 word) \<le> unat (REG_SP i386_base s1)"
    using A(4) b(3) assms(2) by simp
  note R = i386_stack.push_return_addr_spec [OF TrueI assms(1) room2 _ p(2), unfolded base_regs, simplified]
  have sp1: "esp r' + 4 = esp s1" using R(2) p(3) by simp
  have "holds_at (rd w1) (esp s1) (words_bytes (drop 0 args))"
    by (rule i386_stack.holds_above [OF R(5) A(5), of "esp s"]) (use A(3) in simp_all)
  then have "holds_at (rd w1) (esp r' + 4 + of_nat (i * 4)) (word_bytes (args ! i))"
    if "i < length args" for i
    using words_at [of "rd w1" "esp s1" args i] that by (simp add: sp1)
  moreover have "rd w1 x = rd w x" if "unat (esp regs) \<le> unat x" for x
    using R(5) [of x] A(6) [of x] A(3) b(2) that by simp
  moreover have "(unat (esp r') + 4) mod 16 = 0" using R(3) p(3) A(2) room2 by simp
  moreover have "holds_at (rd w1) (esp r') (word_bytes ret)" using R(4) p(3) by simp
  ultimately show ?thesis using st p(3) by auto
qed

lemma length_setup_reg_args [simp]: "length (setup_reg_args i args regs) = length regs"
  by (induction i args regs rule: setup_reg_args.induct) auto

lemma setup_reg_args_nth:
  "i + length args \<le> length regs \<Longrightarrow>
    setup_reg_args i args regs ! j = (if i \<le> j \<and> j < i + length args then args ! (j - i) else regs ! j)"
proof (induction i args regs rule: setup_reg_args.induct)
  case (2 i a args regs)
  then show ?case by (cases "j = i") (auto simp: nth_Cons' Suc_diff_Suc Suc_le_eq)
qed auto

lemma setup_reg_args_take:
  assumes "n \<le> length regs"
  shows "take (length args) (take n (setup_reg_args 0 (take n args) regs)) = take n args"
  using assms by (intro nth_equalityI) (auto simp: setup_reg_args_nth)

text \<open>
  C24. On aarch64 a remote call starts as the AAPCS64 asks: the first eight arguments in \<open>x0\<close> to
  \<open>x7\<close>, the link register \<open>x30\<close> and the program counter set, \<open>sp\<close> a multiple of 16, further
  arguments in their slots from \<open>sp\<close> on, and nothing at or above the interrupted stack pointer
  changed.
\<close>

theorem aarch64_call_frame:
  assumes "writes_memory K rd" and "length (xregs regs) = 31"
    and "8 * length args + 32 \<le> unat (xsp regs)"
    and "remote_pre_call aarch64 K pid regs f ret args w = (True, r', w')"
  shows "\<exists>w1. started K pid r' w1 w' \<and> xpc r' = f \<and> xregs r' ! 30 = ret \<and> unat (xsp r') mod 16 = 0 \<and>
    take (length args) (take 8 (xregs r')) = take 8 args \<and>
    (\<forall>i. 8 + i < length args \<longrightarrow> holds_at (rd w1) (xsp r' + of_nat (i * 8)) (word_bytes (args ! (8 + i)))) \<and>
    (\<forall>x. unat (xsp regs) \<le> unat x \<longrightarrow> rd w1 x = rd w x)"
proof -
  obtain w1 where w1: "aarch64_setup K pid (align_stack aarch64_base regs 0) f ret args w = (True, r', w1)"
    and st: "started K pid r' w1 w'"
    using assms(4) by (rule remote_pre_call_parts) auto
  define s where "s = setup_aarch64_args (align_stack aarch64_base regs 0) args"
  have len: "length (xregs s) = 31" and xs: "xregs s = setup_reg_args 0 (take 8 args) (xregs regs)"
    using assms(2) by (simp_all add: s_def setup_aarch64_args_def align_stack_def)
  have sp: "xsp s = align_down (xsp regs)" by (simp add: s_def setup_aarch64_args_def align_stack_def)
  have b: "unat (xsp s) mod 16 = 0" "unat (xsp s) \<le> unat (xsp regs)" "unat (xsp regs) - 15 \<le> unat (xsp s)"
    unfolding sp by (rule align_down_bounds)+
  obtain s1 where p: "push_stack_args aarch64_base K 8 pid s args w = (True, s1, w1)"
      "r' = s1\<lparr>xregs := (xregs s1)[30 := ret], xpc := f\<rparr>"
    using w1 by (auto simp: aarch64_setup_def Let_def s_def [symmetric] split: prod.splits if_splits)
  have room: "(length args - 8) * word_size TYPE(64 word) \<le> unat (REG_SP aarch64_base s)"
    using b(3) assms(3) by simp
  note A = aarch64_stack.push_stack_args_spec [OF len assms(1) room p(1), unfolded base_regs, OF b(1)]
  have "xregs s1 = xregs s" using A(1) by (metis aarch64_regs.select_convs(1) aarch64_regs.surjective aarch64_regs.update_convs(2))
  then have xr: "xregs r' = (setup_reg_args 0 (take 8 args) (xregs regs))[30 := ret]" using p(2) xs by simp
  have "holds_at (rd w1) (xsp r' + of_nat (i * 8)) (word_bytes (args ! (8 + i)))"
    if "8 + i < length args" for i
    using words_at [of "rd w1" "xsp s1" "drop 8 args" i] A(5) that p(2) by simp
  moreover have "rd w1 x = rd w x" if "unat (xsp regs) \<le> unat x" for x
    using A(6) [of x] b(2) that by simp
  moreover have "take 8 (xregs r') = take 8 (setup_reg_args 0 (take 8 args) (xregs regs))" by (simp add: xr)
  then have "take (length args) (take 8 (xregs r')) = take 8 args"
    using setup_reg_args_take [of 8 "xregs regs" args] assms(2) by simp
  moreover have "xregs r' ! 30 = ret" using assms(2) by (simp add: xr)
  ultimately show ?thesis using st p(2) A(2) by auto
qed

lemma arm_branch:
  fixes f ret :: u32
  assumes "length s = 18"
    and "r = (if s[14 := ret, 15 := f] ! 15 AND 1 \<noteq> 0
        then s[14 := ret, 15 := f, 15 := s[14 := ret, 15 := f] ! 15 AND NOT 1,
               16 := s[14 := ret, 15 := f, 15 := s[14 := ret, 15 := f] ! 15 AND NOT 1] ! 16 OR CPSR_T_MASK]
        else s[14 := ret, 15 := f, 16 := s[14 := ret, 15 := f] ! 16 AND NOT CPSR_T_MASK])"
  shows "r ! 15 = f AND NOT 1" and "bit (r ! 16) 5 \<longleftrightarrow> bit f 0" and "r ! 14 = ret" and "r ! 13 = s ! 13"
    and "take 4 r = take 4 s"
proof -
  have m: "CPSR_T_MASK = push_bit 5 1" by (simp add: CPSR_T_MASK_def)
  have c: "f AND 1 \<noteq> 0 \<longleftrightarrow> bit f 0" by (metis bit_0 and_one_eq of_bool_eq_0_iff even_iff_mod_2_eq_zero odd_iff_mod_2_eq_one mod_2_eq_odd)
  have i: "s[14 := ret, 15 := f] ! 15 = f" using assms(1) by simp
  have r: "r = (if bit f 0 then s[14 := ret, 15 := f AND NOT 1, 16 := s ! 16 OR CPSR_T_MASK]
      else s[14 := ret, 15 := f, 16 := s ! 16 AND NOT CPSR_T_MASK])"
    unfolding assms(2) i c using assms(1) by (cases "bit f 0") simp_all
  have even: "f AND NOT 1 = f" if "\<not> bit f 0"
    using that by (auto intro!: bit_word_eqI gr0I simp: bit_simps)
  show "r ! 15 = f AND NOT 1" using assms(1) even by (simp add: r)
  show "bit (r ! 16) 5 \<longleftrightarrow> bit f 0" using assms(1) by (simp add: r m bit_simps)
  show "r ! 14 = ret" "r ! 13 = s ! 13" "take 4 r = take 4 s" using assms(1) by (simp_all add: r)
qed

text \<open>
  C25. On arm a remote call starts as the AAPCS asks, with interworking: the first four arguments
  in \<open>r0\<close> to \<open>r3\<close>, the link register set, the program counter at the function with its lowest bit
  cleared and the Thumb bit of the status register exactly when that bit was set, \<open>sp\<close> a multiple
  of 16, further arguments in their slots from \<open>sp\<close> on, nothing at or above the interrupted stack
  pointer changed.
\<close>

theorem arm_call_frame:
  assumes "writes_memory K rd" and "length regs = 18"
    and "4 * length args + 32 \<le> unat (regs ! 13)"
    and "remote_pre_call arm K pid regs f ret args w = (True, r', w')"
  shows "\<exists>w1. started K pid r' w1 w' \<and> r' ! 15 = f AND NOT 1 \<and> (bit (r' ! 16) 5 \<longleftrightarrow> bit f 0) \<and>
    r' ! 14 = ret \<and> unat (r' ! 13) mod 16 = 0 \<and> take (length args) (take 4 r') = take 4 args \<and>
    (\<forall>i. 4 + i < length args \<longrightarrow> holds_at (rd w1) (r' ! 13 + of_nat (i * 4)) (word_bytes (args ! (4 + i)))) \<and>
    (\<forall>x. unat (regs ! 13) \<le> unat x \<longrightarrow> rd w1 x = rd w x)"
proof -
  obtain w1 where w1: "arm_setup K pid (align_stack arm_base regs 0) f ret args w = (True, r', w1)"
    and st: "started K pid r' w1 w'"
    using assms(4) by (rule remote_pre_call_parts) auto
  have arm_sp: "REG_SP arm_base = (\<lambda>r. r ! 13)" "put_SP arm_base v r = r[13 := v]" for v r
    by (simp_all add: arm_base_def)
  define s where "s = setup_arm_args (align_stack arm_base regs 0) args"
  have len: "length s = 18" using assms(2) by (simp add: s_def setup_arm_args_def align_stack_def arm_sp)
  have sp: "s ! 13 = align_down (regs ! 13)" using assms(2)
    by (simp add: s_def setup_arm_args_def align_stack_def arm_sp setup_reg_args_nth)
  have b: "unat (s ! 13) mod 16 = 0" "unat (s ! 13) \<le> unat (regs ! 13)" "unat (regs ! 13) - 15 \<le> unat (s ! 13)"
    unfolding sp by (rule align_down_bounds)+
  obtain s1 where p: "push_stack_args arm_base K 4 pid s args w = (True, s1, w1)"
    and r': "r' = (let q = s1[14 := ret, 15 := f] in if q ! 15 AND 1 \<noteq> 0
        then q[15 := q ! 15 AND NOT 1, 16 := q[15 := q ! 15 AND NOT 1] ! 16 OR CPSR_T_MASK]
        else q[16 := q ! 16 AND NOT CPSR_T_MASK])"
    using w1 by (auto simp: arm_setup_def Let_def s_def [symmetric] split: prod.splits if_splits)
  have room: "(length args - 4) * word_size TYPE(32 word) \<le> unat (REG_SP arm_base s)"
    using b(3) assms(3) by (simp add: arm_sp)
  note A = arm_stack.push_stack_args_spec [OF len assms(1) room p(1), unfolded arm_sp, OF b(1)]
  have s1: "length s1 = 18" "take 4 s1 = take 4 s"
  proof -
    have "length (s[13 := v]) = 18 \<and> take 4 (s[13 := v]) = take 4 s" for v using len by simp
    then have "length s1 = 18 \<and> take 4 s1 = take 4 s" using A(1) len by metis
    then show "length s1 = 18" "take 4 s1 = take 4 s" by simp_all
  qed
  note call = arm_branch [OF s1(1) r' [unfolded Let_def], unfolded s1(2)]
  have "holds_at (rd w1) (r' ! 13 + of_nat (i * 4)) (word_bytes (args ! (4 + i)))"
    if "4 + i < length args" for i
    using words_at [of "rd w1" "s1 ! 13" "drop 4 args" i] A(5) that call(4) by simp
  moreover have "rd w1 x = rd w x" if "unat (regs ! 13) \<le> unat x" for x
    using A(6) [of x] b(2) that by simp
  moreover have "take (length args) (take 4 r') = take 4 args"
    unfolding call(5) s_def setup_arm_args_def by (rule setup_reg_args_take) (simp add: align_stack_def arm_sp assms(2))
  ultimately show ?thesis using st call A(2) by auto
qed

text \<open>A system whose world is the memory of the traced process.\<close>

definition mem_kernel :: "('a :: len word, 'r, 'a word \<Rightarrow> byte) kernel" where
  "mem_kernel =
     \<lparr>k_open = (\<lambda>_ _ m. (-1, m)), k_close = (\<lambda>_ m. m), k_write = (\<lambda>_ bs m. (int (length bs), m)),
      k_pwrite = (\<lambda>_ bs a m. (-1, m)),
      process_vm_writev = (\<lambda>_ a bs m. (int (length bs),
        \<lambda>x. if unat (x - a) < length bs then bs ! unat (x - a) else m x)),
      process_vm_readv = (\<lambda>_ a n m. (int n, map (\<lambda>i. m (a + of_nat i)) [0..<n], m)),
      ptrace_getregs = (\<lambda>_ m. (None, m)), ptrace_setregs = (\<lambda>_ _ m. (True, m)),
      ptrace_cont = (\<lambda>_ m. (True, m)), ptrace_attach = (\<lambda>_ m. (False, m)),
      ptrace_detach = (\<lambda>_ m. (True, m)), k_waitpid = (\<lambda>_ m. (WaitError False, m)),
      k_dlopen = (\<lambda>_ m. (0, m)), k_dlsym = (\<lambda>_ _ m. (0, m)), k_dlclose = (\<lambda>_ m. m),
      k_setxattr = (\<lambda>_ _ _ m. (-1, m)), k_gettid = (\<lambda>_. 1), k_random = (\<lambda>n m. (n, m)),
      k_socket = (\<lambda>m. (-1, m)), k_sendmsg = (\<lambda>_ _ _ m. (-1, m)), k_file = (\<lambda>_ _. None)\<rparr>"

lemma mem_kernel_simps [simp]:
  "process_vm_writev mem_kernel pid a bs m = (int (length bs),
     \<lambda>x. if unat (x - a) < length bs then bs ! unat (x - a) else m x)"
  "ptrace_setregs mem_kernel pid r m = (True, m)" "ptrace_cont mem_kernel pid m = (True, m)"
  by (simp_all add: mem_kernel_def)

lemma mem_kernel_writes: "writes_memory mem_kernel (\<lambda>m. m)"
  by (auto simp: writes_memory_def)

lemma mem_kernel_write_proc [simp]:
  "fst (write_proc mem_kernel pid a bs False m) = (if bs = [] then -1 else int (length bs))"
  by (simp add: write_proc_def)

lemma word_bytes_not_Nil [simp]: "word_bytes (v :: u64) \<noteq> []" "word_bytes (u :: u32) \<noteq> []"
  by (simp_all flip: length_0_conv)

text \<open>There, pushing always succeeds, and so does setting up a call.\<close>

lemma mem_kernel_push:
  "\<exists>s m'. push_stack_args A (mem_kernel :: ('a :: len word, 'r, 'a word \<Rightarrow> byte) kernel) n pid r args m = (True, s, m')"
    if "0 < word_size TYPE('a word)"
proof -
  have "words_bytes (drop n args) \<noteq> []" if "n < length args"
    using that \<open>0 < word_size TYPE('a word)\<close> by (simp flip: length_0_conv)
  then show ?thesis by (simp add: push_stack_args_def Let_def write_proc_def of_nat_diff)
qed

lemma mem_kernel_return:
  "\<exists>s m'. push_return_addr A (mem_kernel :: ('a :: len word, 'r, 'a word \<Rightarrow> byte) kernel) pid r v m = (True, s, m')"
    if "0 < word_size TYPE('a word)"
proof -
  have "word_bytes v \<noteq> []" using that by (simp flip: length_0_conv)
  then show ?thesis by (simp add: push_return_addr_def Let_def write_proc_def)
qed

lemma mem_kernel_calls:
  "\<exists>r' m'. remote_pre_call x86_64 mem_kernel pid r1 f1 ret1 args1 m1 = (True, r', m')"
  "\<exists>r' m'. remote_pre_call i386 mem_kernel pid r2 f2 ret2 args2 m2 = (True, r', m')"
  "\<exists>r' m'. remote_pre_call aarch64 mem_kernel pid r3 f3 ret3 args3 m3 = (True, r', m')"
  "\<exists>r' m'. remote_pre_call arm mem_kernel pid r4 f4 ret4 args4 m4 = (True, r', m')"
proof -
  obtain s m where a: "push_stack_args x86_64_base mem_kernel 6 pid
      (setup_x86_64_args (align_stack x86_64_base r1 0) args1) args1 m1 = (True, s, m)"
    using mem_kernel_push [where ?'a = 64] by force
  obtain t n where "push_return_addr x86_64_base mem_kernel pid s ret1 m = (True, t, n)"
    using mem_kernel_return [where ?'a = 64] by force
  with a show "\<exists>r' m'. remote_pre_call x86_64 mem_kernel pid r1 f1 ret1 args1 m1 = (True, r', m')"
    by (simp add: remote_pre_call_def set_regs_def x86_64_setup_def)
next
  obtain s m where a: "push_stack_args i386_base mem_kernel 0 pid (align_stack i386_base r2 0) args2 m2 = (True, s, m)"
    using mem_kernel_push [where ?'a = 32] by force
  obtain t n where "push_return_addr i386_base mem_kernel pid s ret2 m = (True, t, n)"
    using mem_kernel_return [where ?'a = 32] by force
  with a show "\<exists>r' m'. remote_pre_call i386 mem_kernel pid r2 f2 ret2 args2 m2 = (True, r', m')"
    by (simp add: remote_pre_call_def set_regs_def i386_setup_def)
next
  obtain s m where "push_stack_args aarch64_base mem_kernel 8 pid
      (setup_aarch64_args (align_stack aarch64_base r3 0) args3) args3 m3 = (True, s, m)"
    using mem_kernel_push [where ?'a = 64] by force
  then show "\<exists>r' m'. remote_pre_call aarch64 mem_kernel pid r3 f3 ret3 args3 m3 = (True, r', m')"
    by (simp add: remote_pre_call_def set_regs_def aarch64_setup_def)
next
  obtain s m where "push_stack_args arm_base mem_kernel 4 pid
      (setup_arm_args (align_stack arm_base r4 0) args4) args4 m4 = (True, s, m)"
    using mem_kernel_push [where ?'a = 32] by force
  then show "\<exists>r' m'. remote_pre_call arm mem_kernel pid r4 f4 ret4 args4 m4 = (True, r', m')"
    by (simp add: remote_pre_call_def set_regs_def arm_setup_def Let_def)
qed

definition sample_x86_64_regs :: x86_64_regs where
  "sample_x86_64_regs = \<lparr>rdi = 0, rsi = 0, rdx = 0, rcx = 0, r8 = 0, r9 = 0, rax = 0, rsp = 4100, rip = 0, orig_rax = 0\<rparr>"

lemma x86_64_call_frame_witness:
  "\<exists>r m'. remote_pre_call x86_64 mem_kernel 7 sample_x86_64_regs 77 55 [1, 2, 3, 4, 5, 6, 42] (\<lambda>_. 0) = (True, r, m') \<and>
     rip r = 77 \<and> (unat (rsp r) + 8) mod 16 = 0 \<and> rsi r = 2 \<and> r9 r = 6"
proof -
  obtain r m' where e: "remote_pre_call x86_64 mem_kernel 7 sample_x86_64_regs 77 55 [1, 2, 3, 4, 5, 6, 42] (\<lambda>_. 0) =
      (True, r, m')" using mem_kernel_calls(1) by blast
  from x86_64_call_frame [OF mem_kernel_writes _ e] e show ?thesis
    by (auto simp: sample_x86_64_regs_def x86_64_arg_regs_def)
qed

lemma i386_call_frame_witness:
  "\<exists>r m'. remote_pre_call i386 mem_kernel 7 \<lparr>eax = 0, esp = 4100, eip = 0, ebx = 0, orig_eax = 0\<rparr> 77 55 [1, 2] (\<lambda>_. 0) =
     (True, r, m') \<and> eip r = 77 \<and> (unat (esp r) + 4) mod 16 = 0"
proof -
  obtain r m' where e: "remote_pre_call i386 mem_kernel 7 \<lparr>eax = 0, esp = 4100, eip = 0, ebx = 0, orig_eax = 0\<rparr>
      77 55 [1, 2] (\<lambda>_. 0) = (True, r, m')" using mem_kernel_calls(2) by blast
  from i386_call_frame [OF mem_kernel_writes _ e] e show ?thesis by auto
qed

lemma aarch64_call_frame_witness:
  "\<exists>r m'. remote_pre_call aarch64 mem_kernel 7 \<lparr>xregs = replicate 31 0, xsp = 4100, xpc = 0\<rparr> 77 55
     [1, 2, 3, 4, 5, 6, 7, 8, 42] (\<lambda>_. 0) = (True, r, m') \<and> xpc r = 77 \<and> xregs r ! 30 = 55 \<and> unat (xsp r) mod 16 = 0"
proof -
  obtain r m' where e: "remote_pre_call aarch64 mem_kernel 7 \<lparr>xregs = replicate 31 0, xsp = 4100, xpc = 0\<rparr> 77 55
      [1, 2, 3, 4, 5, 6, 7, 8, 42] (\<lambda>_. 0) = (True, r, m')" using mem_kernel_calls(3) by blast
  from aarch64_call_frame [OF mem_kernel_writes _ _ e] e show ?thesis by auto
qed

lemma arm_call_frame_witness:
  "\<exists>r m'. remote_pre_call arm mem_kernel 7 ((replicate 18 0)[13 := 4100]) 77 55 [1, 2, 3, 4, 42] (\<lambda>_. 0) = (True, r, m') \<and>
     r ! 15 = 76 \<and> bit (r ! 16) 5 \<and> r ! 14 = 55 \<and> unat (r ! 13) mod 16 = 0"
proof -
  obtain r m' where e: "remote_pre_call arm mem_kernel 7 ((replicate 18 0)[13 := 4100]) 77 55 [1, 2, 3, 4, 42] (\<lambda>_. 0) =
      (True, r, m')" using mem_kernel_calls(4) by blast
  from arm_call_frame [OF mem_kernel_writes _ _ e] e show ?thesis by (auto simp: bit_simps)
qed

end
