(* ===== verification/Remote_Calls.thy ===== *)
theory Remote_Calls
  imports Inject_Props
begin

text \<open>
  What a call into the traced process returns (the two waiting loops, against an inductive account
  of the stops the process may report), address translation by module, and the descriptors,
  texts and random names of the injector's helpers.
\<close>

section \<open>Waiting for the return\<close>

text \<open>
  The process comes back from a call: waiting may be interrupted, other stops are continued, and
  at last it stops with \<open>SIGSEGV\<close> at the return address, with the registers \<open>r\<close>.
\<close>

inductive call_returns ::
  "('a :: len word, 'r, 'w) arch \<Rightarrow> ('a word, 'r, 'w) kernel \<Rightarrow> int \<Rightarrow> 'a word \<Rightarrow> 'w \<Rightarrow> 'r \<Rightarrow> 'w \<Rightarrow> bool"
  for A K pid ret where
  returned: "k_waitpid K pid w = (WaitStatus s, w1) \<Longrightarrow> WIFSTOPPED s \<Longrightarrow> WSTOPSIG s = SIGSEGV \<Longrightarrow>
    ptrace_getregs K pid w1 = (Some r, w') \<Longrightarrow> REG_IP A r = ret \<Longrightarrow> call_returns A K pid ret w r w'"
| interrupted: "k_waitpid K pid w = (WaitError True, w1) \<Longrightarrow> call_returns A K pid ret w1 r w' \<Longrightarrow>
    call_returns A K pid ret w r w'"
| other_stop: "k_waitpid K pid w = (WaitStatus s, w1) \<Longrightarrow> WIFSTOPPED s \<Longrightarrow> WSTOPSIG s \<noteq> SIGSEGV \<Longrightarrow>
    ptrace_getregs K pid w1 = (Some q, w2) \<Longrightarrow> ptrace_cont K pid w2 = (True, w3) \<Longrightarrow>
    call_returns A K pid ret w3 r w' \<Longrightarrow> call_returns A K pid ret w r w'"

lemma wait_stopped:
  "k_waitpid K pid w = (WaitStatus s, w1) \<Longrightarrow> WIFSTOPPED s \<Longrightarrow> wait_for_trace K pid w = Some (Some s, w1)"
  by (subst wait_for_trace.simps) simp

lemma wait_interrupted:
  "k_waitpid K pid w = (WaitError True, w1) \<Longrightarrow> wait_for_trace K pid w = wait_for_trace K pid w1"
  by (subst wait_for_trace.simps) simp

lemma call_returns_result:
  "call_returns A K pid ret w r w' \<Longrightarrow> remote_post_call A K pid regs ret w = Some (REG_RET A r, r, w')"
proof (induction arbitrary: regs rule: call_returns.induct)
  case (returned w s w1 r w')
  then show ?case by (subst remote_post_call.simps) (simp add: wait_stopped get_regs_def)
next
  case (interrupted w w1 r w')
  have "remote_post_call A K pid regs ret w = remote_post_call A K pid regs ret w1"
    by (subst (1 2) remote_post_call.simps) (simp add: wait_interrupted [OF interrupted.hyps(1)])
  then show ?case by (simp add: interrupted.IH)
next
  case (other_stop w s w1 q w2 w3 r w')
  then show ?case by (subst remote_post_call.simps) (simp add: wait_stopped get_regs_def)
qed

text \<open>Conversely, a wait that ends with a stop got there through interruptions only.\<close>

definition stops_lead :: "('a :: len word, 'r, 'w) arch \<Rightarrow> 'a word \<Rightarrow> 'r \<Rightarrow> 'w \<Rightarrow> ('a word, 'r, 'w) kernel \<Rightarrow> int \<Rightarrow> 'w \<Rightarrow>
    u32 option \<times> 'w \<Rightarrow> bool" where
  "stops_lead A ret r w' K pid w y \<longleftrightarrow> (\<forall>s w1. y = (Some s, w1) \<longrightarrow>
     (\<forall>w0. k_waitpid K pid w0 = (WaitStatus s, w1) \<longrightarrow> WIFSTOPPED s \<longrightarrow> call_returns A K pid ret w0 r w') \<longrightarrow>
     call_returns A K pid ret w r w')"

lemma wait_to_stop:
  fixes K :: "('a :: len word, 'r, 'w) kernel"
  shows "wait_for_trace K pid w = Some y \<Longrightarrow> stops_lead A ret r w' K pid w y"
proof (rule wait_for_trace.raw_induct [where P = "stops_lead A ret r w'"])
  fix wait and K :: "('a word, 'r, 'w) kernel" and pid w y
  assume IH: "\<And>K pid w y. wait K pid w = Some y \<Longrightarrow> stops_lead A ret r w' K pid w y"
    and run: "(case k_waitpid K pid w of
        (WaitError eintr, w) \<Rightarrow> if eintr then wait K pid w else Some (None, w)
      | (WaitStatus status, w) \<Rightarrow> if \<not> WIFSTOPPED status then Some (None, w) else Some (Some status, w)) = Some y"
  obtain res w1 where k: "k_waitpid K pid w = (res, w1)" by (rule prod.exhaust)
  show "stops_lead A ret r w' K pid w y"
  proof (cases res)
    case (WaitError eintr)
    show ?thesis
    proof (cases eintr)
      case True
      then have "wait K pid w1 = Some y" using run k WaitError by simp
      from IH [OF this] have "stops_lead A ret r w' K pid w1 y" .
      moreover have "call_returns A K pid ret w1 r w' \<Longrightarrow> call_returns A K pid ret w r w'"
        by (rule call_returns.interrupted) (use k WaitError True in simp_all)
      ultimately show ?thesis unfolding stops_lead_def by blast
    next
      case False
      then show ?thesis using run k WaitError by (auto simp: stops_lead_def)
    qed
  next
    case (WaitStatus s)
    then show ?thesis using run k by (auto simp: stops_lead_def split: if_splits)
  qed
qed

definition nonzero_returns :: "('a :: len word, 'r, 'w) arch \<Rightarrow> ('a word, 'r, 'w) kernel \<Rightarrow> int \<Rightarrow> 'r \<Rightarrow> 'a word \<Rightarrow> 'w \<Rightarrow>
    'a word \<times> 'r \<times> 'w \<Rightarrow> bool" where
  "nonzero_returns A K pid regs ret w y \<longleftrightarrow> (case y of (v, r, w') \<Rightarrow>
     v \<noteq> 0 \<longrightarrow> call_returns A K pid ret w r w' \<and> v = REG_RET A r)"

lemma nonzero_result:
  fixes K :: "('a :: len word, 'r, 'w) kernel"
  shows "remote_post_call A K pid regs ret w = Some y \<Longrightarrow> nonzero_returns A K pid regs ret w y"
proof (rule remote_post_call.raw_induct [where P = nonzero_returns])
  fix post and A :: "('a word, 'r, 'w) arch" and K pid regs ret w y
  assume IH: "\<And>A K pid regs ret w y. post A K pid regs ret w = Some y \<Longrightarrow> nonzero_returns A K pid regs ret w y"
    and run: "Option.bind (wait_for_trace K pid w) (\<lambda>(status, w).
       case status of
         None \<Rightarrow> Some (0, regs, w)
       | Some status \<Rightarrow>
           (case get_regs K pid regs w of (ok, regs, w) \<Rightarrow>
              if \<not> ok then Some (0, regs, w)
              else if WSTOPSIG status = SIGSEGV then
                (if REG_IP A regs \<noteq> ret then Some (0, regs, w) else Some (REG_RET A regs, regs, w))
              else (case ptrace_cont K pid w of (ok, w) \<Rightarrow>
                if \<not> ok then Some (0, regs, w) else post A K pid regs ret w))) = Some y"
  obtain v r w' where y: "y = (v, r, w')" by (rule prod_cases3)
  have "call_returns A K pid ret w r w' \<and> v = REG_RET A r" if nz: "v \<noteq> 0"
  proof -
    obtain s w1 q w2 where st: "wait_for_trace K pid w = Some (Some s, w1)" "ptrace_getregs K pid w1 = (Some q, w2)"
      and tl: "(if WSTOPSIG s = SIGSEGV then
           (if REG_IP A q \<noteq> ret then Some (0, q, w2) else Some (REG_RET A q, q, w2))
         else (case ptrace_cont K pid w2 of (ok, w) \<Rightarrow>
                if \<not> ok then Some (0, q, w) else post A K pid q ret w)) = Some (v, r, w')"
      using run nz unfolding y get_regs_def
      by (auto split: Option.bind_splits option.splits prod.splits if_splits)
    have lead: "(\<And>w0. k_waitpid K pid w0 = (WaitStatus s, w1) \<Longrightarrow> WIFSTOPPED s \<Longrightarrow> call_returns A K pid ret w0 r w')
        \<Longrightarrow> call_returns A K pid ret w r w'"
      using wait_to_stop [OF st(1), of A ret r w'] by (simp add: stops_lead_def)
    show ?thesis
    proof (cases "WSTOPSIG s = SIGSEGV")
      case True
      then have "REG_IP A q = ret" "v = REG_RET A q" "r = q" "w' = w2" using tl nz by (auto split: if_splits)
      then show ?thesis using lead call_returns.returned st(2) True by metis
    next
      case False
      obtain w3 where c: "ptrace_cont K pid w2 = (True, w3)" "post A K pid q ret w3 = Some (v, r, w')"
        using tl False nz by (auto split: prod.splits if_splits)
      have "call_returns A K pid ret w3 r w' \<and> v = REG_RET A r"
        using IH [OF c(2)] nz by (simp add: nonzero_returns_def)
      then show ?thesis using lead call_returns.other_stop st(2) c(1) False by metis
    qed
  qed
  then show "nonzero_returns A K pid regs ret w y" by (simp add: nonzero_returns_def y)
qed

text \<open>
  C21. The wait for a remote call ends with a value other than zero exactly when the process comes
  back by a \<open>SIGSEGV\<close> at the expected return address, after any number of interruptions and other
  stops, and that value is its return register: neither a crash elsewhere nor a failing system
  call is taken for a result, and no such return is missed.
\<close>

theorem post_call_iff_returned:
  "remote_post_call A K pid regs ret w = Some (v, r, w') \<and> v \<noteq> 0 \<longleftrightarrow>
   call_returns A K pid ret w r w' \<and> v = REG_RET A r \<and> v \<noteq> 0"
  using nonzero_result [of A K pid regs ret w "(v, r, w')"] call_returns_result [of A K pid ret w r w' regs]
  by (auto simp: nonzero_returns_def)

end
