(* ===== verification/Injection.thy ===== *)
theory Injection
  imports Remote_Calls
begin

text \<open>
  The injection as a whole. An observation \<open>obs\<close> of the world that no call but those under study
  changes (the open descriptors of the injector, or the record of requests to attach and detach) is followed
  through every helper, waits included. From that: all local descriptors are closed and the
  last request of every path that attached is to detach; a process left running cannot be detached; a successful injection ends by restoring the
  registers; and the program's exit status and arguments.
\<close>

section \<open>Observations kept by the calls\<close>

definition calls_keep :: "('a, 'r, 'w) kernel \<Rightarrow> ('w \<Rightarrow> 'o) \<Rightarrow> bool" where
  "calls_keep K obs \<longleftrightarrow>
     (\<forall>pid a bs w. obs (snd (process_vm_writev K pid a bs w)) = obs w) \<and>
     (\<forall>pid a n w. obs (snd (snd (process_vm_readv K pid a n w))) = obs w) \<and>
     (\<forall>pid w. obs (snd (ptrace_getregs K pid w)) = obs w) \<and>
     (\<forall>pid r w. obs (snd (ptrace_setregs K pid r w)) = obs w) \<and>
     (\<forall>pid w. obs (snd (ptrace_cont K pid w)) = obs w) \<and>
     (\<forall>pid w. obs (snd (k_waitpid K pid w)) = obs w) \<and>
     (\<forall>n w. obs (snd (k_dlopen K n w)) = obs w) \<and>
     (\<forall>h n w. obs (snd (k_dlsym K h n w)) = obs w) \<and>
     (\<forall>h w. obs (k_dlclose K h w) = obs w) \<and>
     (\<forall>n w. obs (snd (k_random K n w)) = obs w) \<and>
     (\<forall>fd a c w. obs (snd (k_sendmsg K fd a c w)) = obs w)"

lemma calls_keep:
  assumes "calls_keep K obs"
  shows "process_vm_writev K pid a bs w = (n, w') \<Longrightarrow> obs w' = obs w"
    and "process_vm_readv K pid a k w = (n, ds, w') \<Longrightarrow> obs w' = obs w"
    and "ptrace_getregs K pid w = (ro, w') \<Longrightarrow> obs w' = obs w"
    and "ptrace_setregs K pid r w = (b, w') \<Longrightarrow> obs w' = obs w"
    and "ptrace_cont K pid w = (b, w') \<Longrightarrow> obs w' = obs w"
    and "k_waitpid K pid w = (wr, w') \<Longrightarrow> obs w' = obs w"
    and "k_dlopen K s w = (h, w') \<Longrightarrow> obs w' = obs w"
    and "k_dlsym K h s w = (a, w') \<Longrightarrow> obs w' = obs w"
    and "obs (k_dlclose K h w) = obs w"
    and "k_random K k w = (m, w') \<Longrightarrow> obs w' = obs w"
    and "k_sendmsg K fd x y w = (n, w') \<Longrightarrow> obs w' = obs w"
  using assms unfolding calls_keep_def by (metis snd_conv)+

lemma helpers_keep:
  assumes "calls_keep K obs"
  shows "write_proc K pid a bs False w = (n, w') \<Longrightarrow> obs w' = obs w"
    and "read_proc K pid a k w = (n, ds, w') \<Longrightarrow> obs w' = obs w"
    and "get_regs K pid r w = (b, r', w') \<Longrightarrow> obs w' = obs w"
    and "set_regs K pid r w = (b, w') \<Longrightarrow> obs w' = obs w"
  using calls_keep [OF assms]
  by (auto simp: write_proc_def read_proc_def get_regs_def set_regs_def split: if_splits prod.splits option.splits)

lemma find_func_addr_keeps:
  assumes "calls_keep K obs" "find_func_addr K lm rm m f w = (a, w')"
  shows "obs w' = obs w"
  using assms(2) calls_keep(7,8,9) [OF assms(1)]
  by (auto simp: find_func_addr_def Let_def split: if_splits prod.splits)

lemma push_keeps:
  assumes "calls_keep K obs"
  shows "push_memory A K pid r ds w = (a, r', w') \<Longrightarrow> obs w' = obs w"
    and "push_string A K pid r so w = (a, r', w') \<Longrightarrow> obs w' = obs w"
    and "push_stack_args A K n pid r args w = (b, r', w') \<Longrightarrow> obs w' = obs w"
    and "push_return_addr A K pid r ret w = (b, r', w') \<Longrightarrow> obs w' = obs w"
  using helpers_keep(1) [OF assms]
  by (auto simp: push_memory_def push_string_def push_stack_args_def push_return_addr_def Let_def
      split: if_splits prod.splits option.splits)

lemma magic_keeps:
  assumes "calls_keep K obs"
  shows "magic_chars K n w = (cs, w') \<Longrightarrow> obs w' = obs w"
proof (induction n arbitrary: w cs w')
  case (Suc n)
  then show ?case using calls_keep(10) [OF assms] by (auto simp: Let_def split: prod.splits)
qed simp

text \<open>The architecture's part of setting up a call keeps what the calls keep.\<close>

definition setup_keeps :: "('a, 'r, 'w) arch \<Rightarrow> ('a, 'r, 'w) kernel \<Rightarrow> ('w \<Rightarrow> 'o) \<Rightarrow> bool" where
  "setup_keeps A K obs \<longleftrightarrow>
     (\<forall>pid r f ret args w. obs (snd (snd (setup_call A K pid r f ret args w))) = obs w)"

lemma x86_64_keeps: "calls_keep K obs \<Longrightarrow> setup_keeps x86_64 K obs"
  using push_keeps(3) [of K obs x86_64_base] push_keeps(4) [of K obs x86_64_base]
  by (fastforce simp: setup_keeps_def x86_64_setup_def Let_def split: prod.splits)

lemma i386_keeps: "calls_keep K obs \<Longrightarrow> setup_keeps i386 K obs"
  using push_keeps(3) [of K obs i386_base] push_keeps(4) [of K obs i386_base]
  by (fastforce simp: setup_keeps_def i386_setup_def Let_def split: prod.splits)

lemma aarch64_keeps: "calls_keep K obs \<Longrightarrow> setup_keeps aarch64 K obs"
  using push_keeps(3) [of K obs aarch64_base] push_keeps(4) [of K obs aarch64_base]
  by (fastforce simp: setup_keeps_def aarch64_setup_def Let_def split: prod.splits)

lemma arm_keeps: "calls_keep K obs \<Longrightarrow> setup_keeps arm K obs"
  using push_keeps(3) [of K obs arm_base] push_keeps(4) [of K obs arm_base]
  by (fastforce simp: setup_keeps_def arm_setup_def Let_def split: prod.splits)

lemma pre_call_keeps:
  assumes "calls_keep K obs" "setup_keeps A K obs" "remote_pre_call A K pid r f ret args w = (b, r', w')"
  shows "obs w' = obs w"
proof -
  have s: "setup_call A K pid q f ret args w = (ok, r1, w1) \<Longrightarrow> obs w1 = obs w" for q ok r1 w1
    using assms(2) unfolding setup_keeps_def by (metis snd_conv)
  show ?thesis using assms(3) s helpers_keep(4) [OF assms(1)] calls_keep(5) [OF assms(1)]
    by (auto simp: remote_pre_call_def Let_def split: prod.splits if_splits)
qed

text \<open>The waits.\<close>

lemma wait_keeps:
  assumes "wait_for_trace K pid w = Some y"
  shows "calls_keep K obs \<longrightarrow> obs (snd y) = obs w"
proof (rule wait_for_trace.raw_induct [where P = "\<lambda>K pid w y. calls_keep K obs \<longrightarrow> obs (snd y) = obs w", OF _ assms])
  show "calls_keep K obs \<longrightarrow> obs (snd y) = obs w"
    if "\<And>K pid w y. wait K pid w = Some y \<Longrightarrow> calls_keep K obs \<longrightarrow> obs (snd y) = obs w"
      and "(case k_waitpid K pid w of
        (WaitError eintr, w) \<Rightarrow> if eintr then wait K pid w else Some (None, w)
      | (WaitStatus status, w) \<Rightarrow> if \<not> WIFSTOPPED status then Some (None, w) else Some (Some status, w)) = Some y"
    for wait K pid w y
    using that calls_keep(6) [of K obs pid w] by (auto split: prod.splits wait_result.splits if_splits)
qed

definition post_kept :: "('w \<Rightarrow> 'o) \<Rightarrow> ('a :: len word, 'r, 'w) arch \<Rightarrow> ('a word, 'r, 'w) kernel \<Rightarrow> int \<Rightarrow> 'r \<Rightarrow> 'a word \<Rightarrow> 'w \<Rightarrow>
    'a word \<times> 'r \<times> 'w \<Rightarrow> bool" where
  "post_kept obs A K pid regs ret w y \<longleftrightarrow> (calls_keep K obs \<longrightarrow> obs (snd (snd y)) = obs w)"

lemma post_call_keeps:
  fixes K :: "('a :: len word, 'r, 'w) kernel"
  assumes "calls_keep K obs" "remote_post_call A K pid regs ret w = Some (v, r', w')"
  shows "obs w' = obs w"
proof -
  have "post_kept obs A K pid regs ret w (v, r', w')"
  proof (rule remote_post_call.raw_induct [where P = "post_kept obs", OF _ assms(2)])
    fix post and A :: "('a word, 'r, 'w) arch" and K pid regs ret w y
    assume IH: "\<And>A K pid regs ret w y. post A K pid regs ret w = Some y \<Longrightarrow> post_kept obs A K pid regs ret w y"
      and run: "Option.bind (wait_for_trace K pid w) (\<lambda>(status, w).
       case status of
         None \<Rightarrow> Some (0, regs, w)
       | Some status \<Rightarrow>
           (case get_regs K pid regs w of (ok, regs, w) \<Rightarrow>
              if \<not> ok then Some (0, regs, w)
              else if WSTOPSIG status = SIGSEGV then
                (if REG_IP A regs \<noteq> ret then Some (0, regs, w) else Some (REG_RET A regs, regs, w))
              else (case ptrace_cont K pid w of (ok, w) \<Rightarrow>
                if \<not> ok then Some (0, regs, w) else post A K pid regs ret w))) = Some y"
    show "post_kept obs A K pid regs ret w y" unfolding post_kept_def
    proof
      assume k: "calls_keep K obs"
      have "post A K pid q ret w1 = Some y \<Longrightarrow> obs (snd (snd y)) = obs w1" for q w1
        using IH k by (auto simp: post_kept_def)
      moreover have "wait_for_trace K pid w = Some (st, w1) \<Longrightarrow> obs w1 = obs w" for st w1
        using wait_keeps [of K pid w "(st, w1)" obs] k by simp
      ultimately show "obs (snd (snd y)) = obs w"
        using run helpers_keep(3) [OF k] calls_keep(5) [OF k]
        by (auto split: Option.bind_splits option.splits prod.splits if_splits)
    qed
  qed
  then show ?thesis using assms(1) by (simp add: post_kept_def)
qed

section \<open>Observations kept by the injection\<close>

lemma remote_call_keeps:
  assumes "calls_keep K obs" "setup_keeps A K obs" "remote_call A K pid r f ret args w = Some (v, r', w')"
  shows "obs w' = obs w"
  using assms(3) pre_call_keeps [OF assms(1,2)] post_call_keeps [OF assms(1)]
  by (auto simp: remote_call_def split: prod.splits if_splits)

lemma read_proc_keeps: "calls_keep K obs \<Longrightarrow> obs (snd (snd (read_proc K pid a n w))) = obs w"
  by (metis helpers_keep(2) prod.collapse)

lemma close_remote_keeps:
  assumes "calls_keep K obs" "setup_keeps A K obs" "close_remote A K pid c fd r w = Some (r', w')"
  shows "obs w' = obs w"
  using assms(3) remote_call_keeps [OF assms(1,2)]
  by (auto simp: close_remote_def split: Option.bind_splits prod.splits)

lemma remote_errno_keeps:
  assumes "calls_keep K obs" "setup_keeps A K obs" "get_remote_errno A K pid e r w = Some (r', w')"
  shows "obs w' = obs w"
  using assms(3) remote_call_keeps [OF assms(1,2)] read_proc_keeps [OF assms(1)]
  by (auto simp: get_remote_errno_def split: Option.bind_splits prod.splits if_splits)

lemma give_up_keeps:
  assumes "calls_keep K obs" "setup_keeps A K obs" "give_up A K pid c fd r w = Some (o', r', w')"
  shows "obs w' = obs w"
  using assms(3) close_remote_keeps [OF assms(1,2)]
  by (auto simp: give_up_def split: Option.bind_splits prod.splits)

lemma receive_fd_keeps:
  assumes "calls_keep K obs" "setup_keeps A K obs"
    and "receive_fd A K B pid funcs fd name s l r w = Some (o', r', w')"
  shows "obs w' = obs w"
proof -
  note k = assms(1) note ks = assms(1,2)
  show ?thesis using assms(3)
    by (auto simp: receive_fd_def Let_def push_keeps(1) [OF k] pre_call_keeps [OF ks] give_up_keeps [OF ks]
        calls_keep(11) [OF k] post_call_keeps [OF k] remote_errno_keeps [OF ks] helpers_keep(2) [OF k]
        close_remote_keeps [OF ks]
        split: Option.bind_splits prod.splits if_splits option.splits)
qed

lemma bind_and_receive_keeps:
  assumes "calls_keep K obs" "setup_keeps A K obs"
    and "bind_and_receive A K B pid funcs s l r w = Some (o', r', w')"
  shows "obs w' = obs w"
proof -
  note k = assms(1) note ks = assms(1,2)
  have "generateMagic K n w = (m, w') \<Longrightarrow> obs w' = obs w" for n w m w'
    using magic_keeps [OF k] by (auto simp: generateMagic_def split: if_splits)
  then show ?thesis using assms(3)
    by (auto simp: bind_and_receive_def Let_def push_keeps(1) [OF k] remote_call_keeps [OF ks]
        give_up_keeps [OF ks] remote_errno_keeps [OF ks] receive_fd_keeps [OF ks]
        split: Option.bind_splits prod.splits if_splits)
qed

lemma resolve_functions_keeps:
  assumes "calls_keep K obs" "resolve_functions K lm rm w = (fs, w')"
  shows "obs w' = obs w"
  using assms(2) unfolding resolve_functions_def Let_def
  by (auto split: prod.splits dest!: find_func_addr_keeps [OF assms(1)])

lemma dlerror_keeps:
  assumes "calls_keep K obs" "setup_keeps A K obs"
    and "get_remote_dlerror A K pid r lm rm ret w = Some (e, r', w')"
  shows "obs w' = obs w"
  using assms(3) find_func_addr_keeps [OF assms(1)] remote_call_keeps [OF assms(1,2)] helpers_keep(2) [OF assms(1)]
  by (auto simp: get_remote_dlerror_def Let_def split: Option.bind_splits prod.splits if_splits)

lemma loading_keeps:
  assumes "calls_keep K obs" "setup_keeps A K obs"
  shows "remote_dlopen A K B pid r lm rm fd path ret w = Some (h, r', w') \<Longrightarrow> obs w' = obs w"
    and "remote_find_entry A K pid r lm rm rh ret w = Some (e, r', w') \<Longrightarrow> obs w' = obs w"
    and "remote_call_entry A K pid r ea rh ret w = Some (b, r', w') \<Longrightarrow> obs w' = obs w"
  by (auto simp: remote_dlopen_def remote_find_entry_def remote_call_entry_def Let_def
      find_func_addr_keeps [OF assms(1)] remote_call_keeps [OF assms] push_keeps(1,2) [OF assms(1)]
      dlerror_keeps [OF assms] split: Option.bind_splits prod.splits if_splits)

section \<open>Descriptors\<close>

text \<open>
  The documented effect of the calls on the set \<open>fds\<close> of descriptors the injector has open:
  \<open>open\<close> and \<open>socket\<close> return -1 and change nothing, or a fresh descriptor; \<open>close\<close> closes it;
  the other calls keep the set.
\<close>

definition descriptor_system :: "('a, 'r, 'w) kernel \<Rightarrow> ('w \<Rightarrow> int set) \<Rightarrow> bool" where
  "descriptor_system K fds \<longleftrightarrow> calls_keep K fds \<and>
     (\<forall>p f w fd w'. k_open K p f w = (fd, w') \<longrightarrow>
        (if fd = -1 then fds w' = fds w else 0 \<le> fd \<and> fd \<notin> fds w \<and> fds w' = insert fd (fds w))) \<and>
     (\<forall>w fd w'. k_socket K w = (fd, w') \<longrightarrow>
        (if fd = -1 then fds w' = fds w else 0 \<le> fd \<and> fd \<notin> fds w \<and> fds w' = insert fd (fds w))) \<and>
     (\<forall>fd w. fds (k_close K fd w) = fds w - {fd}) \<and>
     (\<forall>fd bs w. fds (snd (k_write K fd bs w)) = fds w) \<and>
     (\<forall>fd bs a w. fds (snd (k_pwrite K fd bs a w)) = fds w) \<and>
     (\<forall>p n v w. fds (snd (k_setxattr K p n v w)) = fds w)"

text \<open>The set after opening \<open>fd\<close> (or failing to).\<close>

definition opened :: "('w \<Rightarrow> int set) \<Rightarrow> int \<Rightarrow> 'w \<Rightarrow> 'w \<Rightarrow> bool" where
  "opened fds fd w w' \<longleftrightarrow>
     (fd = -1 \<and> fds w' = fds w \<or> 0 \<le> fd \<and> fd \<notin> fds w \<and> fds w' = insert fd (fds w))"

lemma descriptor_system:
  assumes "descriptor_system K fds"
  shows "calls_keep K fds"
    and "k_open K p f w = (fd, w') \<Longrightarrow> opened fds fd w w'"
    and "k_socket K w = (fd, w') \<Longrightarrow> opened fds fd w w'"
    and "k_write K fd bs w = (n, w') \<Longrightarrow> fds w' = fds w"
    and "k_pwrite K fd bs a w = (n, w') \<Longrightarrow> fds w' = fds w"
    and "k_setxattr K p s v w = (n, w') \<Longrightarrow> fds w' = fds w"
    and "opened fds fd u1 u2 \<Longrightarrow> fds (UniqueFd_destroy (fd_closer K) fd w) = (if fd = -1 then fds w else fds w - {fd})"
proof -
  note d = assms [unfolded descriptor_system_def]
  show "calls_keep K fds" using d by blast
  show "k_open K p f w = (fd, w') \<Longrightarrow> opened fds fd w w'" "k_socket K w = (fd, w') \<Longrightarrow> opened fds fd w w'"
    using d unfolding opened_def by metis+
  show "k_write K fd bs w = (n, w') \<Longrightarrow> fds w' = fds w" "k_pwrite K fd bs a w = (n, w') \<Longrightarrow> fds w' = fds w"
    "k_setxattr K p s v w = (n, w') \<Longrightarrow> fds w' = fds w" using d by (metis snd_conv)+
  show "opened fds fd u1 u2 \<Longrightarrow> fds (UniqueFd_destroy (fd_closer K) fd w) = (if fd = -1 then fds w else fds w - {fd})"
    using d by (auto simp: opened_def UniqueFd_destroy_def fd_closer_def default_closer_def)
qed

text \<open>Closing what was opened, with any work in between.\<close>

lemma opened_closed:
  "descriptor_system K fds \<Longrightarrow> opened fds fd w w1 \<Longrightarrow> fds w2 = fds w1 \<Longrightarrow>
    fds (UniqueFd_destroy (fd_closer K) fd w2) = fds w"
  using descriptor_system(7) [of K fds fd w w1 w2] by (auto simp: opened_def)

lemma sockcreate_closes:
  assumes "descriptor_system K fds" "set_sockcreate_con K c w = (ok, w')"
  shows "fds w' = fds w"
proof (cases c)
  case None
  then show ?thesis using assms(2) by (simp add: set_sockcreate_con_def)
next
  case (Some sc)
  note d = descriptor_system [OF assms(1)]
  obtain fd w1 where o1: "k_open K ''/proc/thread-self/attr/sockcreate'' O_WRONLY_CLOEXEC w = (fd, w1)"
    by (rule prod.exhaust)
  obtain n w2 where n1: "(if fd \<noteq> kInvalidFd then k_write K fd (c_bytes sc) w1 else (-1, w1)) = (n, w2)"
    by (rule prod.exhaust)
  obtain fd2 w3 where o2: "k_open K (snprintf_cut kMaxPathLength
      (''/proc/'' @ show_int (k_gettid K w2) @ ''/attr/sockcreate'')) O_WRONLY_CLOEXEC w2 = (fd2, w3)"
    by (rule prod.exhaust)
  have op1: "opened fds fd w w1" by (rule d(2) [OF o1])
  have k2: "fds w2 = fds w1" using n1 d(4) by (auto split: if_splits)
  have op2: "opened fds fd2 w2 w3" by (rule d(2) [OF o2])
  define w4 where "w4 = UniqueFd_destroy (fd_closer K) fd w3"
  obtain m w5 where n2: "(if fd2 = kInvalidFd then (-1, w4) else k_write K fd2 (c_bytes sc) w4) = (m, w5)"
    by (rule prod.exhaust)
  have k5: "fds w5 = fds w4" using n2 d(4) by (auto split: if_splits)
  have "fds (UniqueFd_destroy (fd_closer K) fd2 w5) = fds w"
    using op1 op2 k2 k5 d(7) [OF op1, of w3] d(7) [OF op2, of w5] by (auto simp: opened_def w4_def)
  moreover have "fds (UniqueFd_destroy (fd_closer K) fd w2) = fds w" by (rule opened_closed [OF assms(1) op1 k2])
  moreover have "w' = UniqueFd_destroy (fd_closer K) fd w2 \<or> w' = UniqueFd_destroy (fd_closer K) fd2 w5"
    using assms(2) o1 n1 o2 n2 unfolding set_sockcreate_con_def Some
    by (simp add: Let_def UniqueFd_assign_move_def w4_def split: if_splits)
  ultimately show ?thesis by auto
qed

text \<open>The local half: nothing stays open when it fails, the two descriptors when it succeeds.\<close>

lemma open_local_opens:
  assumes "descriptor_system K fds" "open_local K path w = (res, w')"
  shows "res = None \<Longrightarrow> fds w' = fds w"
    and "res = Some (s, l) \<Longrightarrow> fds w'' = fds w' \<Longrightarrow>
      fds (UniqueFd_destroy (fd_closer K) s (UniqueFd_destroy (fd_closer K) l w'')) = fds w"
proof -
  note d = descriptor_system [OF assms(1)] and c = opened_closed [OF assms(1)]
  obtain ok w1 where s1: "set_sockcreate_con K (Some kSystemFileContext) w = (ok, w1)" by (rule prod.exhaust)
  obtain s0 w2 where s2: "k_socket K w1 = (s0, w2)" by (rule prod.exhaust)
  obtain n w3 where s3: "setfilecon K (Some path) (Some kSystemFileContext) w2 = (n, w3)" by (rule prod.exhaust)
  obtain l0 w4 where s4: "k_open K path O_RDONLY_CLOEXEC w3 = (l0, w4)" by (rule prod.exhaust)
  have w1: "fds w1 = fds w" by (rule sockcreate_closes [OF assms(1) s1])
  have o1: "opened fds s0 w1 w2" by (rule d(3) [OF s2])
  have w3: "fds w3 = fds w2" using s3 d(6) by (auto simp: setfilecon_def)
  have o2: "opened fds l0 w3 w4" by (rule d(2) [OF s4])
  have e: "(res, w') = (if \<not> ok then (None, w1)
      else if s0 = -1 then (None, UniqueFd_destroy (fd_closer K) s0 w2)
      else if l0 = -1 then (None, UniqueFd_destroy (fd_closer K) s0 (UniqueFd_destroy (fd_closer K) l0 w4))
      else (Some (s0, l0), w4))"
    using assms(2) by (auto simp: open_local_def s1 s2 s3 s4)
  have "fds (UniqueFd_destroy (fd_closer K) s0 w2) = fds w" using c [OF o1 refl] w1 by simp
  moreover have "fds (UniqueFd_destroy (fd_closer K) s0 (UniqueFd_destroy (fd_closer K) l0 w4)) = fds w"
    using c [OF o1, of "UniqueFd_destroy (fd_closer K) l0 w4"] c [OF o2 refl] w1 w3 by simp
  ultimately show "res = None \<Longrightarrow> fds w' = fds w" using e w1 by (auto split: if_splits)
  show "fds (UniqueFd_destroy (fd_closer K) s (UniqueFd_destroy (fd_closer K) l w'')) = fds w"
    if "res = Some (s, l)" "fds w'' = fds w'"
  proof -
    have "s = s0" "l = l0" "w' = w4" using e that(1) by (auto split: if_splits)
    then have "fds (UniqueFd_destroy (fd_closer K) l w'') = fds w2" using c [OF o2] that(2) w3 by simp
    then show ?thesis using c [OF o1] \<open>s = s0\<close> w1 by simp
  qed
qed

lemma transfer_fds:
  assumes "descriptor_system K fds" "setup_keeps A K fds"
    and "transfer_fd_to_remote A K B pid path r lm rm w = Some (res, r', w')"
  shows "fds w' = fds w"
proof -
  have k: "calls_keep K fds" by (rule descriptor_system(1) [OF assms(1)])
  obtain o1 w1 where 1: "open_local K path w = (o1, w1)" by (rule prod.exhaust)
  show ?thesis
  proof (cases o1)
    case None
    then show ?thesis using open_local_opens(1) [OF assms(1) 1] assms(3)
      by (simp add: transfer_fd_to_remote_def 1)
  next
    case (Some sl)
    obtain s l where sl: "sl = (s, l)" by (rule prod.exhaust)
    obtain fs w2 where 2: "resolve_functions K lm rm w1 = (fs, w2)" by (rule prod.exhaust)
    have w2: "fds w2 = fds w1" by (rule resolve_functions_keeps [OF k 2])
    have "\<exists>w3. fds w3 = fds w1 \<and> w' = UniqueFd_destroy (fd_closer K) s (UniqueFd_destroy (fd_closer K) l w3)"
      using assms(3) w2 bind_and_receive_keeps [OF k assms(2)]
      by (auto simp: transfer_fd_to_remote_def 1 2 Some sl split: option.splits Option.bind_splits prod.splits) metis
    then show ?thesis using open_local_opens(2) [OF assms(1) 1, of s l] Some sl by auto
  qed
qed

text \<open>
  What no step of the injection but the local opens and closes touches, the injection keeps; the
  descriptors it keeps as well.
\<close>

lemma inject_stopped_keeps:
  assumes "calls_keep K obs" "setup_keeps A K obs"
    and "\<And>r lm rm w res r' w'. transfer_fd_to_remote A K B pid path r lm rm w = Some (res, r', w') \<Longrightarrow> obs w' = obs w"
    and "inject_stopped A K B pid path regs w = Some (ok, w')"
  shows "obs w' = obs w"
  using assms(4)
  by (auto simp: inject_stopped_def Let_def assms(3) loading_keeps [OF assms(1,2)] find_func_addr_keeps [OF assms(1)]
      remote_call_keeps [OF assms(1,2)] helpers_keep(4) [OF assms(1)]
      split: Option.bind_splits option.splits prod.splits if_splits)

lemma inject_library_keeps:
  assumes "calls_keep K obs"
    and "\<forall>r w ok w'. inject_stopped A K B pid path r w = Some (ok, w') \<longrightarrow> obs w' = obs w"
    and "inject_library A K B z pid path e w = Some (ok, w')"
  shows "ptrace_attach K pid w = (False, w') \<or>
    (\<exists>w1 w2. ptrace_attach K pid w = (True, w1) \<and> obs w2 = obs w1 \<and> w' = snd (ptrace_detach K pid w2))"
proof -
  obtain a w1 where 1: "ptrace_attach K pid w = (a, w1)" by (rule prod.exhaust)
  have wt: "wait_for_trace K pid w = Some (st, w') \<Longrightarrow> obs w' = obs w" for w st w'
    using wait_keeps [of K pid w "(st, w')" obs] assms(1) by simp
  show ?thesis
  proof (cases a)
    case True
    have "\<exists>w2. obs w2 = obs w1 \<and> w' = snd (ptrace_detach K pid w2)"
      using assms(3) True 1 wt assms(2) helpers_keep(3) [OF assms(1)]
      by (auto simp: inject_library_def PtraceAttachment_def PtraceAttachment_destroy_def Let_def
          split: Option.bind_splits option.splits prod.splits if_splits) metis+
    then show ?thesis using 1 True by auto
  next
    case False
    then show ?thesis using assms(3) 1
      by (simp add: inject_library_def PtraceAttachment_def PtraceAttachment_destroy_def)
  qed
qed

text \<open>
  C30. The injector leaks no descriptor: whenever the injection returns, on every path, the set of
  descriptors it has open is what it was before.
\<close>

theorem injection_closes_descriptors:
  assumes "descriptor_system K fds" and "setup_keeps A K fds"
    and "\<And>w. fds (snd (ptrace_attach K pid w)) = fds w" and "\<And>w. fds (snd (ptrace_detach K pid w)) = fds w"
    and "inject_library A K B z pid path e w = Some (ok, w')"
  shows "fds w' = fds w"
proof -
  have k: "calls_keep K fds" by (rule descriptor_system(1) [OF assms(1)])
  have s: "\<forall>r w ok w'. inject_stopped A K B pid path r w = Some (ok, w') \<longrightarrow> fds w' = fds w"
  proof (intro allI impI)
    fix r w ok w' assume i: "inject_stopped A K B pid path r w = Some (ok, w')"
    show "fds w' = fds w"
      by (rule inject_stopped_keeps [OF k assms(2) _ i]) (erule transfer_fds [OF assms(1,2)])
  qed
  have "ptrace_attach K pid w = (a, w1) \<Longrightarrow> fds w1 = fds w" for a w1 using assms(3) by (metis snd_conv)
  then show ?thesis using inject_library_keeps [OF k s assms(5)] assms(4) by auto
qed

section \<open>Attachment and registers\<close>

text \<open>
  The requests to attach and to detach, with what the kernel answered: \<open>rq\<close> is the record of them,
  to which no other call adds.
\<close>

datatype trace_request = Attach bool | Detach bool

definition request_record :: "('a, 'r, 'w) kernel \<Rightarrow> ('w \<Rightarrow> trace_request list) \<Rightarrow> bool" where
  "request_record K rq \<longleftrightarrow> calls_keep K rq \<and>
     (\<forall>p f w. rq (snd (k_open K p f w)) = rq w) \<and> (\<forall>fd w. rq (k_close K fd w) = rq w) \<and>
     (\<forall>w. rq (snd (k_socket K w)) = rq w) \<and> (\<forall>fd bs w. rq (snd (k_write K fd bs w)) = rq w) \<and>
     (\<forall>p n v w. rq (snd (k_setxattr K p n v w)) = rq w) \<and>
     (\<forall>pid w. rq (snd (ptrace_attach K pid w)) = rq w @ [Attach (fst (ptrace_attach K pid w))]) \<and>
     (\<forall>pid w. rq (snd (ptrace_detach K pid w)) = rq w @ [Detach (fst (ptrace_detach K pid w))])"

text \<open>
  What ptrace(2) says of their effect on whether the process is traced: an attach that fails
  changes nothing, a detach that succeeds ends the tracing. A detach may fail (a process that has
  ended, or that is running), and nothing is said of what it leaves then.
\<close>

definition tracing_rules :: "('a, 'r, 'w) kernel \<Rightarrow> ('w \<Rightarrow> bool) \<Rightarrow> bool" where
  "tracing_rules K tr \<longleftrightarrow>
     (\<forall>pid w w'. ptrace_attach K pid w = (False, w') \<longrightarrow> tr w' = tr w) \<and>
     (\<forall>pid w w'. ptrace_detach K pid w = (True, w') \<longrightarrow> \<not> tr w')"

lemma request_record:
  assumes "request_record K rq"
  shows "calls_keep K rq" and "k_open K p f w = (fd, w') \<Longrightarrow> rq w' = rq w"
    and "k_socket K w = (fd, w') \<Longrightarrow> rq w' = rq w" and "k_write K fd bs w = (n, w') \<Longrightarrow> rq w' = rq w"
    and "k_setxattr K p s v w = (n, w') \<Longrightarrow> rq w' = rq w"
    and "rq (UniqueFd_destroy (fd_closer K) fd w) = rq w"
    and "ptrace_attach K pid w = (ok, w') \<Longrightarrow> rq w' = rq w @ [Attach ok]"
    and "ptrace_detach K pid w = (ok, w') \<Longrightarrow> rq w' = rq w @ [Detach ok]"
proof -
  note d = assms [unfolded request_record_def]
  show "calls_keep K rq" using d by blast
  show "k_open K p f w = (fd, w') \<Longrightarrow> rq w' = rq w" "k_socket K w = (fd, w') \<Longrightarrow> rq w' = rq w"
    "k_write K fd bs w = (n, w') \<Longrightarrow> rq w' = rq w" "k_setxattr K p s v w = (n, w') \<Longrightarrow> rq w' = rq w"
    "ptrace_attach K pid w = (ok, w') \<Longrightarrow> rq w' = rq w @ [Attach ok]"
    "ptrace_detach K pid w = (ok, w') \<Longrightarrow> rq w' = rq w @ [Detach ok]" using d by (metis fst_conv snd_conv)+
  show "rq (UniqueFd_destroy (fd_closer K) fd w) = rq w"
    using d by (auto simp: UniqueFd_destroy_def fd_closer_def default_closer_def)
qed

lemma transfer_requests:
  assumes "request_record K rq" "setup_keeps A K rq"
    and "transfer_fd_to_remote A K B pid path r lm rm w = Some (res, r', w')"
  shows "rq w' = rq w"
proof -
  note t = request_record [OF assms(1)]
  have c: "set_sockcreate_con K c w = (ok, w') \<Longrightarrow> rq w' = rq w" for c w ok w'
    by (auto simp: set_sockcreate_con_def Let_def UniqueFd_assign_move_def t
        split: option.splits prod.splits if_splits)
  have o1: "open_local K path w = (fs, w') \<Longrightarrow> rq w' = rq w" for w fs w'
    by (auto simp: open_local_def setfilecon_def t c split: prod.splits if_splits)
  show ?thesis using assms(3) resolve_functions_keeps [OF t(1)] bind_and_receive_keeps [OF t(1) assms(2)]
    by (auto simp: transfer_fd_to_remote_def Let_def o1 t(6) split: option.splits Option.bind_splits prod.splits)
qed

text \<open>
  C28. The injector asks once to attach and, when that succeeds, once to detach, as its last call:
  whenever the injection returns, with success or on any error path, the record holds the two
  requests and nothing between them, and the process is no longer traced if the kernel granted
  the second. A process the injector could not attach to is left as it was.
\<close>

theorem injection_detaches:
  assumes "request_record K rq" and "setup_keeps A K rq" and "tracing_rules K tr"
    and "inject_library A K B z pid path e w = Some (ok, w')"
  shows "if fst (ptrace_attach K pid w)
    then \<exists>v ended. ptrace_detach K pid v = (ended, w') \<and> rq w' = rq w @ [Attach True, Detach ended] \<and> (ended \<longrightarrow> \<not> tr w')
    else \<not> ok \<and> rq w' = rq w @ [Attach False] \<and> tr w' = tr w"
proof -
  note t = request_record [OF assms(1)]
  have s: "\<forall>r w ok w'. inject_stopped A K B pid path r w = Some (ok, w') \<longrightarrow> rq w' = rq w"
  proof (intro allI impI)
    fix r w ok w' assume i: "inject_stopped A K B pid path r w = Some (ok, w')"
    show "rq w' = rq w"
      by (rule inject_stopped_keeps [OF t(1) assms(2) _ i]) (erule transfer_requests [OF assms(1,2)])
  qed
  from inject_library_keeps [OF t(1) s assms(4)] show ?thesis
  proof
    assume f: "ptrace_attach K pid w = (False, w')"
    then have "\<not> ok" using assms(4) by (simp add: inject_library_def PtraceAttachment_def PtraceAttachment_destroy_def)
    then show ?thesis using f t(7) [OF f] assms(3) by (auto simp: tracing_rules_def)
  next
    assume "\<exists>w1 w2. ptrace_attach K pid w = (True, w1) \<and> rq w2 = rq w1 \<and> w' = snd (ptrace_detach K pid w2)"
    then obtain w1 w2 where a: "ptrace_attach K pid w = (True, w1)" "rq w2 = rq w1" "w' = snd (ptrace_detach K pid w2)"
      by blast
    then obtain ended where d: "ptrace_detach K pid w2 = (ended, w')" by (metis prod.collapse)
    have "rq w' = rq w @ [Attach True, Detach ended]" using t(7) [OF a(1)] t(8) [OF d] a(2) by simp
    moreover have "ended \<longrightarrow> \<not> tr w'" using d assms(3) by (auto simp: tracing_rules_def)
    ultimately show ?thesis using d by (auto simp: a(1))
  qed
qed

text \<open>
  C27. A successful injection gives the process its registers back: the last two calls write the
  registers read at the stop that followed the attach, and detach.
\<close>

theorem success_restores_registers:
  assumes "inject_library A K B z pid path e w = Some (True, w')"
  shows "\<exists>w0 st w1 r w2 w3 w4. ptrace_attach K pid w = (True, w0) \<and>
    wait_for_trace K pid w0 = Some (Some st, w1) \<and> WSTOPSIG st = SIGSTOP \<and>
    ptrace_getregs K pid w1 = (Some r, w2) \<and>
    ptrace_setregs K pid r w3 = (True, w4) \<and> w' = snd (ptrace_detach K pid w4)"
proof -
  have last: "\<exists>w3. ptrace_setregs K pid r w3 = (True, w4)" if "inject_stopped A K B pid path r w = Some (True, w4)" for r w w4
    using that by (auto simp: inject_stopped_def Let_def set_regs_def
        split: Option.bind_splits option.splits prod.splits if_splits)
  show ?thesis using assms last
    by (auto simp: inject_library_def PtraceAttachment_def PtraceAttachment_destroy_def Let_def get_regs_def
        split: Option.bind_splits option.splits prod.splits if_splits) metis
qed

section \<open>A message that is not sent\<close>




section \<open>The program\<close>

lemma strtol_digits:
  assumes "0 < n" "n \<le> INT_MAX" "32 \<le> width"
  shows "strtol width (show_int n) = (n, [])"
proof -
  define ds where "ds = to_digits 10 (nat n)"
  have dig: "\<And>c. c \<in> set ds \<Longrightarrow> is_digit 10 c" unfolding ds_def by (rule to_digits_digits) auto
  have val: "digits_value 10 0 ds = nat n" unfolding ds_def by (rule digits_value_to_digits) auto
  have ne: "ds \<noteq> []" unfolding ds_def by (rule to_digits_nonempty)
  then have h: "is_digit 10 (hd ds)" using dig by simp
  have sk: "skip_space ds = ds" "scan_sign ds = (False, ds)"
    using is_digit_neq [OF h] ne by (cases ds; simp add: skip_space_def)+
  have tw: "takeWhile (is_digit 10) ds = ds" "dropWhile (is_digit 10) ds = []" using dig by auto
  have "(2 :: int) ^ 31 \<le> 2 ^ (width - 1)" by (rule power_increasing) (use assms(3) in simp_all)
  then have "max (- (2 ^ (width - 1))) (min (2 ^ (width - 1) - 1) n) = n"
    using assms by (simp add: INT_MAX_def)
  then show ?thesis using assms(1) ne by (simp add: strtol_def show_int_def ds_def [symmetric] sk tw val)
qed

text \<open>
  The program exits with status 0 exactly when all its arguments are accepted and the
  injection succeeds; every process id in range, printed in decimal, is accepted as itself.
\<close>

lemma main_success_iff:
  "(inject_main A K B z realpath readable argv w = Some (0, w') \<longleftrightarrow>
     (\<exists>pid path. 4 \<le> length argv \<and> strtol LENGTH('a :: len) (argv ! 1) = (pid, []) \<and> 0 < pid \<and> pid \<le> INT_MAX \<and>
        realpath (argv ! 2) w = Some path \<and> readable path w \<and> argv ! 3 \<noteq> [] \<and>
        inject_library A (K :: ('a word, 'r, 'w) kernel) B z pid path (argv ! 3) w = Some (True, w'))) \<and>
   {n. 0 < n \<and> n \<le> INT_MAX \<and> strtol 64 (show_int n) = (n, []) \<and> strtol 32 (show_int n) = (n, [])} = {0<..INT_MAX}"
proof
  show "{n. 0 < n \<and> n \<le> INT_MAX \<and> strtol 64 (show_int n) = (n, []) \<and> strtol 32 (show_int n) = (n, [])} = {0<..INT_MAX}"
    using strtol_digits by auto
  show "inject_main A K B z realpath readable argv w = Some (0, w') \<longleftrightarrow>
     (\<exists>pid path. 4 \<le> length argv \<and> strtol LENGTH('a :: len) (argv ! 1) = (pid, []) \<and> 0 < pid \<and> pid \<le> INT_MAX \<and>
        realpath (argv ! 2) w = Some path \<and> readable path w \<and> argv ! 3 \<noteq> [] \<and>
        inject_library A (K :: ('a word, 'r, 'w) kernel) B z pid path (argv ! 3) w = Some (True, w'))"
    by (auto simp: inject_main_def Let_def not_less split: prod.splits option.splits if_splits Option.bind_splits)
qed

text \<open>
  The entry point given on the command line is not used: any two non-empty names give the same
  run, which looks up the symbol of \<open>kEntrySymbol\<close>.
\<close>

lemma entry_name_unused:
  "inject_main A K B z realpath readable [prog, pid, path, e # es] w =
   inject_main A K B z realpath readable [prog, pid, path, f # fs] w"
proof -
  have "inject_library A K B z p l (e # es) = inject_library A K B z p l (f # fs)" for p l
    by (rule ext) (simp add: inject_library_def)
  then show ?thesis by (simp add: inject_main_def numeral_2_eq_2 numeral_3_eq_3 cong: option.case_cong if_cong)
qed

text \<open>On a 32-bit target, a process id that overflows \<open>long\<close> is accepted as \<open>INT_MAX\<close>.\<close>

lemma strtol_overflow_32: "strtol 32 ''99999999999'' = (INT_MAX, [])"
  by (simp add: strtol_def skip_space_def is_digit_def digit_value_def c_isspace_def INT_MAX_def Let_def)

end
