(* ===== verification/Injection_Run.thy ===== *)
theory Injection_Run
  imports Injection
begin

text \<open>
  A complete injection in a small system: an aarch64 process whose functions return one value at once,
  traced by an injector whose open descriptors are a list. The run succeeds, so the theorems of
  \<open>Injection\<close> have instances on the longest path of the program.
\<close>

record sim =
  s_seen :: bool
  s_ret :: u64
  s_traced :: bool
  s_fds :: "int list"
  s_regs :: aarch64_regs
  s_requests :: "trace_request list"

definition fresh_fd :: "int list \<Rightarrow> int" where "fresh_fd l = foldr max l 2 + 1"

definition sim_open :: "sim \<Rightarrow> int \<times> sim" where
  "sim_open w = (fresh_fd (s_fds w), w\<lparr>s_fds := fresh_fd (s_fds w) # s_fds w\<rparr>)"

text \<open>Continuing runs the called function: it returns to the link register.\<close>

definition sim_cont :: "sim \<Rightarrow> sim" where
  "sim_cont w = w\<lparr>s_regs := s_regs w\<lparr>xregs := (xregs (s_regs w))[0 := s_ret w], xpc := xregs (s_regs w) ! 30\<rparr>\<rparr>"

definition sim_vma :: "string \<Rightarrow> nat \<times> vma" where
  "sim_vma path = (1, \<lparr>v_start = 0x1000, v_end = 0x2000, v_r = True, v_w = False, v_x = False, v_p = True,
     v_off = 0, v_major = 0xfe, v_minor = 3, v_ino = 1234, v_path = path\<rparr>)"

definition sim_vmas :: "(nat \<times> vma) list" where
  "sim_vmas = [sim_vma ''/system/lib64/libc.so'', sim_vma ''/system/lib64/libdl.so'']"

definition sim_maps :: string where "sim_maps = render_maps sim_vmas"

definition sim_kernel :: "(u64, aarch64_regs, sim) kernel" where
  "sim_kernel =
     \<lparr>k_open = (\<lambda>_ _. sim_open), k_close = (\<lambda>fd w. w\<lparr>s_fds := removeAll fd (s_fds w)\<rparr>),
      k_write = (\<lambda>_ bs w. (int (length bs), w)), k_pwrite = (\<lambda>_ bs _ w. (int (length bs), w)),
      process_vm_writev = (\<lambda>_ _ bs w. (int (length bs), w)),
      process_vm_readv = (\<lambda>_ _ n w. (int n, replicate n 0, w)),
      ptrace_getregs = (\<lambda>_ w. (Some (s_regs w), w)),
      ptrace_setregs = (\<lambda>_ r w. (True, w\<lparr>s_regs := r\<rparr>)),
      ptrace_cont = (\<lambda>_ w. (True, sim_cont w)),
      ptrace_attach = (\<lambda>_ w. (True, w\<lparr>s_traced := True, s_seen := False, s_requests := s_requests w @ [Attach True]\<rparr>)),
      ptrace_detach = (\<lambda>_ w. (True, w\<lparr>s_traced := False, s_requests := s_requests w @ [Detach True]\<rparr>)),
      k_waitpid = (\<lambda>_ w. (WaitStatus (if s_seen w then 0x0b7f else 0x137f), w\<lparr>s_seen := True\<rparr>)),
      k_dlopen = (\<lambda>_ w. (1, w)), k_dlsym = (\<lambda>_ _ w. (0x1234, w)), k_dlclose = (\<lambda>_ w. w),
      k_setxattr = (\<lambda>_ _ _ w. (0, w)), k_gettid = (\<lambda>_. 1), k_random = (\<lambda>_ w. (0, w)),
      k_socket = sim_open, k_sendmsg = (\<lambda>_ _ c w. (int (length c), w)), k_file = (\<lambda>_ _. Some sim_maps)\<rparr>"

definition sim_abi :: "u64 sysabi" where
  "sim_abi = \<lparr>cmsg_space = 24, msghdr_bytes = (\<lambda>_ _. replicate 56 0), cmsg_encode = (\<lambda>_. replicate 24 0),
     cmsg_decode = (\<lambda>_. Some 5), dlextinfo_bytes = (\<lambda>_. replicate 48 0)\<rparr>"

definition sim_regs :: aarch64_regs where "sim_regs = \<lparr>xregs = replicate 31 0, xsp = 0x8000, xpc = 0x100\<rparr>"

definition sim_start :: "u64 \<Rightarrow> sim" where
  "sim_start v = \<lparr>s_seen = False, s_ret = v, s_traced = False, s_fds = [0, 1, 2], s_regs = sim_regs,
     s_requests = []\<rparr>"

lemma sim_start_requests [simp]: "s_requests (sim_start v) = []"
  by (simp add: sim_start_def)

lemma sim_kernel [simp]:
  "k_open sim_kernel p f = sim_open" "k_close sim_kernel fd w = w\<lparr>s_fds := removeAll fd (s_fds w)\<rparr>"
  "k_write sim_kernel fd bs w = (int (length bs), w)" "k_pwrite sim_kernel fd bs a w = (int (length bs), w)"
  "process_vm_writev sim_kernel pid a bs w = (int (length bs), w)"
  "process_vm_readv sim_kernel pid a n w = (int n, replicate n 0, w)"
  "ptrace_getregs sim_kernel pid w = (Some (s_regs w), w)"
  "ptrace_setregs sim_kernel pid r w = (True, w\<lparr>s_regs := r\<rparr>)"
  "ptrace_cont sim_kernel pid w = (True, sim_cont w)"
  "ptrace_attach sim_kernel pid w = (True, w\<lparr>s_traced := True, s_seen := False, s_requests := s_requests w @ [Attach True]\<rparr>)"
  "ptrace_detach sim_kernel pid w = (True, w\<lparr>s_traced := False, s_requests := s_requests w @ [Detach True]\<rparr>)"
  "k_waitpid sim_kernel pid w = (WaitStatus (if s_seen w then 0x0b7f else 0x137f), w\<lparr>s_seen := True\<rparr>)"
  "k_dlopen sim_kernel m w = (1, w)" "k_dlsym sim_kernel h m w = (0x1234, w)" "k_dlclose sim_kernel h w = w"
  "k_setxattr sim_kernel m s bs w = (0, w)" "k_gettid sim_kernel w = 1" "k_random sim_kernel k w = (0, w)"
  "k_socket sim_kernel = sim_open" "k_sendmsg sim_kernel fd nm c w = (int (length c), w)"
  "k_file sim_kernel w p = Some sim_maps"
  by (simp_all add: sim_kernel_def)

lemma fresh_fd: "0 \<le> fresh_fd l" "fresh_fd l \<notin> set l" "fresh_fd l \<noteq> -1"
proof -
  have "2 \<le> foldr max l 2 \<and> (\<forall>x \<in> set l. x \<le> foldr max l 2)" for l :: "int list"
    by (induction l) (auto simp: le_max_iff_disj)
  from this [of l] show "0 \<le> fresh_fd l" "fresh_fd l \<notin> set l" "fresh_fd l \<noteq> -1"
    by (auto simp: fresh_fd_def)
qed

lemma sim_calls_keep: "calls_keep sim_kernel (\<lambda>w. set (s_fds w))" "calls_keep sim_kernel s_requests"
  by (simp_all add: calls_keep_def sim_cont_def)

lemma sim_descriptors: "descriptor_system sim_kernel (\<lambda>w. set (s_fds w))"
  using sim_calls_keep(1) fresh_fd by (auto simp: descriptor_system_def sim_open_def)

lemma sim_requests: "request_record sim_kernel s_requests"
  using sim_calls_keep(2) by (simp add: request_record_def sim_open_def)

lemma sim_tracing: "tracing_rules sim_kernel s_traced"
  by (auto simp: tracing_rules_def)

section \<open>The run\<close>

abbreviation sim_arch :: "(u64, aarch64_regs, sim) arch" where "sim_arch \<equiv> aarch64"

definition in_call :: "u64 \<Rightarrow> aarch64_regs \<Rightarrow> sim \<Rightarrow> bool" where
  "in_call v r w \<longleftrightarrow> length (xregs r) = 31 \<and> s_seen w \<and> s_ret w = v"

lemma aarch64_SP: "REG_SP aarch64 = xsp" "put_SP aarch64 v r = r\<lparr>xsp := v\<rparr>"
  "REG_IP aarch64 = xpc" "REG_RET aarch64 r = xregs r ! 0"
  by (simp_all add: aarch64_def aarch64_base_def regfile.defs)

lemma sim_setup:
  assumes "length (xregs r) = 31" "length args \<le> 8"
  obtains r' where "setup_call sim_arch sim_kernel pid r f ret args w = (True, r', w)"
    "length (xregs r') = 31" "xregs r' ! 30 = ret"
  using assms by (auto simp: aarch64_def regfile.defs aarch64_setup_def push_stack_args_def setup_aarch64_args_def)

lemma sim_pre_call:
  assumes "in_call v r w" "length args \<le> 8"
  obtains r' w' where "remote_pre_call sim_arch sim_kernel pid r f ret args w = (True, r', w')" "in_call v r' w'"
    "xpc (s_regs w') = ret" "xregs (s_regs w') ! 0 = v" "length (xregs (s_regs w')) = 31"
proof -
  have "length (xregs (align_stack sim_arch r 0)) = 31" using assms(1) by (simp add: align_stack_def aarch64_SP in_call_def)
  then obtain r' where r': "setup_call sim_arch sim_kernel pid (align_stack sim_arch r 0) f ret args w = (True, r', w)"
    "length (xregs r') = 31" "xregs r' ! 30 = ret" using sim_setup assms(2) by blast
  show thesis
    by (rule that [of r' "sim_cont (w\<lparr>s_regs := r'\<rparr>)"])
      (use r' assms(1) in \<open>simp_all add: remote_pre_call_def set_regs_def sim_cont_def in_call_def\<close>)
qed

lemma sim_wait: "s_seen w \<Longrightarrow> wait_for_trace sim_kernel pid w = Some (Some 0x0b7f, w)"
  by (rule wait_stopped) (simp_all add: WIFSTOPPED_def WTERMSIG_def)

lemma sim_post_call:
  assumes "in_call v r w" "xpc (s_regs w) = ret" "xregs (s_regs w) ! 0 = v" "length (xregs (s_regs w)) = 31"
  obtains r' where "remote_post_call sim_arch sim_kernel pid r ret w = Some (v, r', w)" "in_call v r' w"
proof (rule that)
  show "remote_post_call sim_arch sim_kernel pid r ret w = Some (v, s_regs w, w)"
    using assms by (subst remote_post_call.simps)
      (simp add: sim_wait in_call_def get_regs_def WSTOPSIG_def SIGSEGV_def aarch64_SP)
  show "in_call v (s_regs w) w" using assms by (simp add: in_call_def)
qed

lemma sim_call:
  assumes "in_call v r w" "length args \<le> 8"
  obtains r' w' where "remote_call sim_arch sim_kernel pid r f ret args w = Some (v, r', w')" "in_call v r' w'"
    "xregs (s_regs w') ! 0 = v"
proof -
  obtain r1 w1 where 1: "remote_pre_call sim_arch sim_kernel pid r f ret args w = (True, r1, w1)" "in_call v r1 w1"
    "xpc (s_regs w1) = ret" "xregs (s_regs w1) ! 0 = v" "length (xregs (s_regs w1)) = 31"
    using sim_pre_call [OF assms] by metis
  obtain r' where "remote_post_call sim_arch sim_kernel pid r1 ret w1 = Some (v, r', w1)" "in_call v r' w1"
    using sim_post_call [OF 1(2-5)] by metis
  then show thesis using that 1(1,4) by (simp add: remote_call_def)
qed

lemma sim_push:
  assumes "in_call v r w"
  obtains a r' where "push_memory sim_arch sim_kernel pid r ds w = (a, r', w)" "in_call v r' w"
proof -
  have "\<exists>a r'. push_memory sim_arch sim_kernel pid r ds w = (a, r', w) \<and> in_call v r' w"
    using assms by (cases "ds = []")
      (simp_all add: push_memory_def Let_def write_proc_def align_stack_def aarch64_SP in_call_def)
  then show thesis using that by blast
qed

lemma sim_push_string:
  assumes "in_call v r w"
  obtains a r' where "push_string sim_arch sim_kernel pid r so w = (a, r', w)" "in_call v r' w"
proof -
  have "\<exists>a r'. push_string sim_arch sim_kernel pid r so w = (a, r', w) \<and> in_call v r' w"
    using assms by (cases so)
      (simp_all add: push_string_def Let_def write_proc_def align_stack_def aarch64_SP in_call_def c_bytes_def)
  then show thesis using that by blast
qed

definition sim_map :: "MapInfo list" where "sim_map = map (info_of \<circ> snd) sim_vmas"

lemma sim_scan: "Scan (k_file sim_kernel w) p = sim_map"
proof -
  have "\<forall>(pad, v) \<in> set sim_vmas. path_ok (v_path v)"
    by (simp add: sim_vmas_def sim_vma_def path_ok_def c_isspace_def)
  from scan_lines_render [OF this, of "[]"] show ?thesis
    by (simp add: Scan_def sim_maps_def sim_map_def scan_lines.simps [of "[]"])
qed

lemma sim_modules:
  "m \<in> {kLibcModule, kLibdlModule} \<Longrightarrow> find_module_base sim_map m = (0x1000 :: u64)"
  "find_module_return_addr sim_map kLibcModule = (0x1000 :: u64)"
  by (auto simp: sim_map_def sim_vmas_def sim_vma_def info_of_def ends_with_def kLibcModule_def kLibdlModule_def
      PROT_READ_def PROT_EXEC_def)

lemma sim_func: "m \<in> {kLibcModule, kLibdlModule} \<Longrightarrow> find_func_addr sim_kernel sim_map sim_map m f w = (0x1234, w)"
  by (auto simp: find_func_addr_def sim_modules)

lemma sim_functions: "resolve_functions sim_kernel sim_map sim_map w =
  (Some \<lparr>socket_addr = 0x1234, bind_addr = 0x1234, recvmsg_addr = 0x1234, close_addr = 0x1234, errno_addr = 0x1234\<rparr>, w)"
  by (simp add: resolve_functions_def sim_func)

lemma sim_open_local:
  assumes "in_call v r w"
  obtains s l w' where "open_local sim_kernel path w = (Some (s, l), w')" "in_call v r w'"
proof -
  obtain w1 where 1: "set_sockcreate_con sim_kernel (Some kSystemFileContext) w = (True, w1)" "in_call v r w1"
    using assms fresh_fd by (auto simp: set_sockcreate_con_def sim_open_def kInvalidFd_def c_bytes_def
        UniqueFd_destroy_def fd_closer_def default_closer_def in_call_def)
  have "in_call v r w2" if "s_seen w2 = s_seen w1" "s_ret w2 = s_ret w1" for w2 using 1(2) that by (simp add: in_call_def)
  then show thesis using that 1(1) fresh_fd by (simp add: open_local_def sim_open_def setfilecon_def)
qed

lemma sim_close: "in_call v r w \<Longrightarrow> in_call v r (UniqueFd_destroy (fd_closer sim_kernel) fd w)"
  by (simp add: in_call_def UniqueFd_destroy_def fd_closer_def default_closer_def)

lemma sim_magic: "magic_chars sim_kernel n w = (replicate n CHR ''0'', w)"
  by (induction n) (simp_all add: kRandomChars_def)

lemma sim_receive:
  assumes "in_call 5 r w"
  obtains r' w' where "receive_fd sim_arch sim_kernel sim_abi pid
      \<lparr>socket_addr = 0x1234, bind_addr = 0x1234, recvmsg_addr = 0x1234, close_addr = 0x1234, errno_addr = e\<rparr>
      rfd name s l r w = Some (Some 5, r', w')" "in_call 5 r' w'"
proof -
  obtain a1 r1 where 1: "push_memory sim_arch sim_kernel pid r (replicate 24 0) w = (a1, r1, w)" "in_call 5 r1 w"
    using sim_push [OF assms] by metis
  obtain a2 r2 where 2: "push_memory sim_arch sim_kernel pid r1 (replicate 56 0) w = (a2, r2, w)" "in_call 5 r2 w"
    using sim_push [OF 1(2)] by metis
  obtain r3 w3 where 3: "remote_pre_call sim_arch sim_kernel pid r2 0x1234 0 [of_int rfd, a2, of_nat MSG_WAITALL] w =
      (True, r3, w3)" "in_call 5 r3 w3" "xpc (s_regs w3) = 0" "xregs (s_regs w3) ! 0 = 5" "length (xregs (s_regs w3)) = 31"
    by (rule sim_pre_call [OF 2(2), where args = "[of_int rfd, a2, of_nat MSG_WAITALL]" and pid = pid
          and f = "0x1234" and ret = 0]) simp_all
  obtain r4 where 4: "remote_post_call sim_arch sim_kernel pid r3 0 w3 = Some (5, r4, w3)" "in_call 5 r4 w3"
    using sim_post_call [OF 3(2-5)] by metis
  obtain r5 w5 where 5: "remote_call sim_arch sim_kernel pid r4 0x1234 0 [of_int rfd] w3 = Some (5, r5, w5)" "in_call 5 r5 w5"
    by (rule sim_call [OF 4(2), where args = "[of_int rfd]" and pid = pid and f = "0x1234" and ret = 0]) simp_all
  show thesis using that 1 2 3(1) 4 5
    by (simp add: receive_fd_def Let_def sim_abi_def read_proc_def close_remote_def)
qed

lemma sim_transfer:
  assumes "in_call 5 r w"
  obtains r' w' where "transfer_fd_to_remote sim_arch sim_kernel sim_abi pid path r sim_map sim_map w =
    Some (Some 5, r', w')" "in_call 5 r' w'"
proof -
  define fs where "fs = \<lparr>socket_addr = 0x1234 :: u64, bind_addr = 0x1234, recvmsg_addr = 0x1234, close_addr = 0x1234,
    errno_addr = 0x1234\<rparr>"
  obtain s l w1 where 1: "open_local sim_kernel path w = (Some (s, l), w1)" "in_call 5 r w1"
    by (rule sim_open_local [OF assms])
  obtain r2 w2 where 2: "remote_call sim_arch sim_kernel pid r 0x1234 0
      [of_nat AF_UNIX_value, of_nat SOCK_DGRAM_CLOEXEC, 0] w1 = Some (5, r2, w2)" "in_call 5 r2 w2"
    by (rule sim_call [OF 1(2), where args = "[of_nat AF_UNIX_value, of_nat SOCK_DGRAM_CLOEXEC, 0]" and pid = pid
          and f = "0x1234" and ret = 0]) simp_all
  define magic where "magic = replicate kMagicLength CHR ''0''"
  have m: "generateMagic sim_kernel kMagicLength w2 = (magic, w2)"
    by (simp add: generateMagic_def sim_magic magic_def)
  obtain a r3 where 3: "push_memory sim_arch sim_kernel pid r2 (sockaddr_un_bytes magic) w2 = (a, r3, w2)" "in_call 5 r3 w2"
    by (rule sim_push [OF 2(2)])
  obtain r4 w4 where 4: "remote_call sim_arch sim_kernel pid r3 0x1234 0 [5, a, of_nat (2 + 1 + length magic)] w2 =
      Some (5, r4, w4)" "in_call 5 r4 w4"
    by (rule sim_call [OF 3(2), where args = "[5, a, of_nat (2 + 1 + length magic)]" and pid = pid
          and f = "0x1234" and ret = 0]) simp_all
  obtain r5 w5 where 5: "receive_fd sim_arch sim_kernel sim_abi pid fs 5
      (take (2 + 1 + length magic) (sockaddr_un_bytes magic)) s l r4 w4 = Some (Some 5, r5, w5)" "in_call 5 r5 w5"
    unfolding fs_def by (rule sim_receive [OF 4(2)])
  have "bind_and_receive sim_arch sim_kernel sim_abi pid fs s l r w1 = Some (Some 5, r5, w5)"
    using 2(1) 3(1) 4(1) 5(1) m by (simp add: bind_and_receive_def Let_def fs_def)
  then show thesis using that [of r5] 1(1) 5(2) sim_close
    by (simp add: transfer_fd_to_remote_def sim_functions fs_def)
qed

lemma sim_dlopen:
  assumes "in_call 5 r w"
  obtains r' w' where "remote_dlopen sim_arch sim_kernel sim_abi pid r sim_map sim_map fd path ret w =
    Some (Some 5, r', w')" "in_call 5 r' w'"
proof -
  obtain a1 r1 where 1: "push_memory sim_arch sim_kernel pid r (dlextinfo_bytes sim_abi fd) w = (a1, r1, w)" "in_call 5 r1 w"
    by (rule sim_push [OF assms])
  obtain a2 r2 where 2: "push_string sim_arch sim_kernel pid r1 (Some path) w = (a2, r2, w)" "in_call 5 r2 w"
    by (rule sim_push_string [OF 1(2)])
  obtain r3 w3 where 3: "remote_call sim_arch sim_kernel pid r2 0x1234 ret [a2, of_nat RTLD_NOW, a1] w =
      Some (5, r3, w3)" "in_call 5 r3 w3"
    by (rule sim_call [OF 2(2), where args = "[a2, of_nat RTLD_NOW, a1]" and pid = pid and f = "0x1234" and ret = ret])
      simp_all
  show thesis using that [of r3] 1(1) 2(1) 3 by (simp add: remote_dlopen_def sim_func)
qed

lemma sim_find_entry:
  assumes "in_call 5 r w"
  obtains r' w' where "remote_find_entry sim_arch sim_kernel pid r sim_map sim_map h ret w = Some (Some 5, r', w')"
    "in_call 5 r' w'"
proof -
  obtain a r1 where 1: "push_string sim_arch sim_kernel pid r (Some kEntrySymbol) w = (a, r1, w)" "in_call 5 r1 w"
    by (rule sim_push_string [OF assms])
  obtain r2 w2 where 2: "remote_call sim_arch sim_kernel pid r1 0x1234 ret [h, a] w = Some (5, r2, w2)" "in_call 5 r2 w2"
    by (rule sim_call [OF 1(2), where args = "[h, a]" and pid = pid and f = "0x1234" and ret = ret]) simp_all
  show thesis using that [of r2] 1(1) 2 by (simp add: remote_find_entry_def sim_func)
qed

lemma sim_stopped:
  assumes "in_call 5 r w"
  obtains w' where "inject_stopped sim_arch sim_kernel sim_abi pid path r w = Some (True, w')"
proof -
  obtain r1 w1 where 1: "transfer_fd_to_remote sim_arch sim_kernel sim_abi pid path r sim_map sim_map w =
      Some (Some 5, r1, w1)" "in_call 5 r1 w1" by (rule sim_transfer [OF assms])
  obtain r2 w2 where 2: "remote_dlopen sim_arch sim_kernel sim_abi pid r1 sim_map sim_map 5 path 0x1000 w1 =
      Some (Some 5, r2, w2)" "in_call 5 r2 w2" by (rule sim_dlopen [OF 1(2)])
  obtain r3 w3 where 3: "remote_call sim_arch sim_kernel pid r2 0x1234 0 [5] w2 = Some (5, r3, w3)" "in_call 5 r3 w3"
    by (rule sim_call [OF 2(2), where args = "[5]" and pid = pid and f = "0x1234" and ret = 0]) simp_all
  obtain r4 w4 where 4: "remote_find_entry sim_arch sim_kernel pid r3 sim_map sim_map 5 0x1000 w3 =
      Some (Some 5, r4, w4)" "in_call 5 r4 w4" by (rule sim_find_entry [OF 3(2)])
  obtain r5 w5 where 5: "remote_call sim_arch sim_kernel pid r4 5 0x1000 [5] w4 = Some (5, r5, w5)" "in_call 5 r5 w5"
    by (rule sim_call [OF 4(2), where args = "[5]" and pid = pid and f = 5 and ret = "0x1000"]) simp_all
  show thesis using that 1(1) 2(1) 3(1) 4(1) 5(1)
    by (simp add: inject_stopped_def Let_def sim_scan sim_modules sim_func remote_call_entry_def set_regs_def)
qed

lemma sim_run: "\<exists>w'. inject_library sim_arch sim_kernel sim_abi sim_regs 7 path e (sim_start 5) = Some (True, w')"
proof -
  define w1 where "w1 = (sim_start 5)\<lparr>s_traced := True, s_seen := True, s_requests := [Attach True]\<rparr>"
  have 1: "wait_for_trace sim_kernel 7 ((sim_start 5)\<lparr>s_traced := True, s_seen := False, s_requests := [Attach True]\<rparr>) =
      Some (Some 0x137f, w1)"
    by (rule wait_stopped) (simp_all add: WIFSTOPPED_def WTERMSIG_def w1_def)
  have "in_call 5 (s_regs w1) w1" by (simp add: in_call_def w1_def sim_start_def sim_regs_def)
  then obtain w2 where "inject_stopped sim_arch sim_kernel sim_abi 7 path (s_regs w1) w1 = Some (True, w2)"
    by (rule sim_stopped)
  then show ?thesis using 1
    by (simp add: inject_library_def PtraceAttachment_def PtraceAttachment_destroy_def get_regs_def
        WIFSTOPPED_def WTERMSIG_def WSTOPSIG_def SIGSTOP_def)
qed

theorem injection_closes_descriptors_witness:
  "\<exists>w'. inject_library sim_arch sim_kernel sim_abi sim_regs 7 ''lib.so'' ''entry'' (sim_start 5) = Some (True, w') \<and>
     set (s_fds w') = set (s_fds (sim_start 5))"
proof -
  obtain w' where "inject_library sim_arch sim_kernel sim_abi sim_regs 7 ''lib.so'' ''entry'' (sim_start 5) = Some (True, w')"
    using sim_run by blast
  with injection_closes_descriptors [OF sim_descriptors aarch64_keeps [OF sim_calls_keep(1)] _ _ this]
  show ?thesis by simp
qed

theorem injection_detaches_witness:
  "\<exists>w'. inject_library sim_arch sim_kernel sim_abi sim_regs 7 ''lib.so'' ''entry'' (sim_start 5) = Some (True, w') \<and>
     s_requests w' = [Attach True, Detach True] \<and> \<not> s_traced w'"
proof -
  obtain w' where "inject_library sim_arch sim_kernel sim_abi sim_regs 7 ''lib.so'' ''entry'' (sim_start 5) = Some (True, w')"
    using sim_run by blast
  with injection_detaches [OF sim_requests aarch64_keeps [OF sim_calls_keep(2)] sim_tracing this]
  show ?thesis by (auto simp: sim_start_def)
qed

theorem success_restores_registers_witness:
  "\<exists>w3 w4. ptrace_setregs sim_kernel 7 sim_regs w3 = (True, w4) \<and>
     inject_library sim_arch sim_kernel sim_abi sim_regs 7 ''lib.so'' ''entry'' (sim_start 5) =
       Some (True, snd (ptrace_detach sim_kernel 7 w4))"
proof -
  obtain w' where r: "inject_library sim_arch sim_kernel sim_abi sim_regs 7 ''lib.so'' ''entry'' (sim_start 5) = Some (True, w')"
    using sim_run by blast
  have "wait_for_trace sim_kernel 7 ((sim_start 5)\<lparr>s_traced := True, s_seen := False, s_requests := [Attach True]\<rparr>) =
      Some (Some 0x137f, (sim_start 5)\<lparr>s_traced := True, s_seen := True, s_requests := [Attach True]\<rparr>)"
    by (rule wait_stopped) (simp_all add: WIFSTOPPED_def WTERMSIG_def)
  with success_restores_registers [OF r] r show ?thesis by (auto simp: sim_start_def)
qed

section \<open>A failing injection\<close>

text \<open>
  An injection that fails after its first remote call need not give the process its registers
  back: here every remote function returns -1, so creating the remote socket fails; the
  program reports the failure and detaches, but never writes the saved registers back.
\<close>

lemma failed_injection_keeps_call_registers:
  "\<exists>w'. inject_library sim_arch sim_kernel sim_abi sim_regs 7 path e (sim_start (- 1)) = Some (False, w') \<and>
     \<not> s_traced w' \<and> s_regs (sim_start (- 1)) = sim_regs \<and> xregs (s_regs w') ! 0 \<noteq> xregs sim_regs ! 0"
proof -
  define fs where "fs = \<lparr>socket_addr = 0x1234 :: u64, bind_addr = 0x1234, recvmsg_addr = 0x1234, close_addr = 0x1234,
    errno_addr = 0x1234\<rparr>"
  define w0 where "w0 = (sim_start (- 1))\<lparr>s_traced := True, s_seen := True, s_requests := [Attach True]\<rparr>"
  have 0: "wait_for_trace sim_kernel 7 ((sim_start (- 1))\<lparr>s_traced := True, s_seen := False, s_requests := [Attach True]\<rparr>) =
      Some (Some 0x137f, w0)"
    by (rule wait_stopped) (simp_all add: WIFSTOPPED_def WTERMSIG_def w0_def)
  have "in_call (- 1) sim_regs w0" by (simp add: in_call_def w0_def sim_start_def sim_regs_def)
  then obtain s l w1 where 1: "open_local sim_kernel path w0 = (Some (s, l), w1)" "in_call (- 1) sim_regs w1"
    by (rule sim_open_local)
  obtain r2 w2 where 2: "remote_call sim_arch sim_kernel 7 sim_regs 0x1234 0
      [of_nat AF_UNIX_value, of_nat SOCK_DGRAM_CLOEXEC, 0] w1 = Some (- 1, r2, w2)" "in_call (- 1) r2 w2"
    by (rule sim_call [OF 1(2), where args = "[of_nat AF_UNIX_value, of_nat SOCK_DGRAM_CLOEXEC, 0]" and pid = 7
          and f = "0x1234" and ret = 0]) simp_all
  obtain r3 w3 where 3: "remote_call sim_arch sim_kernel 7 r2 0x1234 0 [] w2 = Some (- 1, r3, w3)"
    "xregs (s_regs w3) ! 0 = - 1"
    by (rule sim_call [OF 2(2), where args = "[]" and pid = 7 and f = "0x1234" and ret = 0]) simp_all
  have "(ucast (- 1 :: u64) :: u32) = - 1" by (rule bit_word_eqI) (simp add: bit_simps)
  then have "sint (ucast (- 1 :: u64) :: u32) = - 1" by simp
  then have "bind_and_receive sim_arch sim_kernel sim_abi 7 fs s l sim_regs w1 = Some (None, r3, w3)"
    using 2(1) 3(1) by (simp add: bind_and_receive_def fs_def get_remote_errno_def read_proc_def)
  then obtain w4 where 4: "transfer_fd_to_remote sim_arch sim_kernel sim_abi 7 path sim_regs sim_map sim_map w0 =
      Some (None, r3, w4)" "s_regs w4 = s_regs w3"
    using 1(1) by (auto simp: transfer_fd_to_remote_def sim_functions fs_def UniqueFd_destroy_def fd_closer_def
        default_closer_def)
  have "inject_stopped sim_arch sim_kernel sim_abi 7 path sim_regs w0 = Some (False, w4)"
    using 4(1) by (simp add: inject_stopped_def Let_def sim_scan sim_modules)
  then show ?thesis using 0 3(2) 4(2)
    by (simp add: inject_library_def PtraceAttachment_def PtraceAttachment_destroy_def get_regs_def
        WIFSTOPPED_def WTERMSIG_def WSTOPSIG_def SIGSTOP_def w0_def sim_start_def sim_regs_def)
qed





end
