(* ===== verification/Injection_Ends.thy ===== *)
theory Injection_Ends
  imports Injection_Run
begin

text \<open>
  Termination of the injector. Its two waiting loops are the only recursion that may go on for ever.
  They end when the traced process reports finitely many interruptions and stops between two
  returns: \<open>rank\<close> bounds how many are left, nothing is asked of it when a new call is set up. Then the
  injection and the program return on every path.
\<close>

section \<open>The waiting loops\<close>

definition finitely_many_stops :: "('a, 'r, 'w) kernel \<Rightarrow> int \<Rightarrow> ('w \<Rightarrow> nat) \<Rightarrow> bool" where
  "finitely_many_stops K pid rank \<longleftrightarrow>
     (\<forall>w w'. k_waitpid K pid w = (WaitError True, w') \<longrightarrow> rank w' < rank w) \<and>
     (\<forall>w s w'. k_waitpid K pid w = (WaitStatus s, w') \<longrightarrow> WIFSTOPPED s \<longrightarrow> WSTOPSIG s \<noteq> SIGSEGV \<longrightarrow> rank w' < rank w) \<and>
     (\<forall>w. rank (snd (ptrace_getregs K pid w)) \<le> rank w) \<and>
     (\<forall>w. rank (snd (ptrace_cont K pid w)) \<le> rank w)"

lemma wait_ends:
  assumes "finitely_many_stops K pid rank"
  shows "\<exists>st w'. wait_for_trace K pid w = Some (st, w') \<and>
    (\<forall>s. st = Some s \<longrightarrow> WSTOPSIG s \<noteq> SIGSEGV \<longrightarrow> rank w' < rank w)"
proof (induction "rank w" arbitrary: w rule: less_induct)
  case less
  obtain res w1 where k: "k_waitpid K pid w = (res, w1)" by (rule prod.exhaust)
  show ?case
  proof (cases res)
    case (WaitError eintr)
    show ?thesis
    proof (cases eintr)
      case True
      then have "rank w1 < rank w" using assms k WaitError by (simp add: finitely_many_stops_def)
      moreover have "wait_for_trace K pid w = wait_for_trace K pid w1"
        using k WaitError True by (subst wait_for_trace.simps) simp
      ultimately show ?thesis using less.hyps [of w1] by fastforce
    next
      case False
      then show ?thesis using k WaitError by (subst wait_for_trace.simps) simp
    qed
  next
    case (WaitStatus s)
    then show ?thesis using assms k by (subst wait_for_trace.simps) (auto simp: finitely_many_stops_def)
  qed
qed

lemma post_call_ends:
  fixes A :: "('a :: len word, 'r, 'w) arch"
  assumes "finitely_many_stops K pid rank"
  shows "remote_post_call A K pid regs ret w \<noteq> None"
proof (induction "rank w" arbitrary: regs w rule: less_induct)
  case less
  obtain st w1 where w: "wait_for_trace K pid w = Some (st, w1)"
    and r: "\<And>s. st = Some s \<Longrightarrow> WSTOPSIG s \<noteq> SIGSEGV \<Longrightarrow> rank w1 < rank w"
    using wait_ends [OF assms] by metis
  show ?case
  proof (cases st)
    case None
    then show ?thesis using w by (subst remote_post_call.simps) simp
  next
    case (Some s)
    obtain ok q w2 where g: "get_regs K pid regs w1 = (ok, q, w2)" by (rule prod_cases3)
    obtain c w3 where c: "ptrace_cont K pid w2 = (c, w3)" by (rule prod.exhaust)
    have "w2 = snd (ptrace_getregs K pid w1)" using g by (auto simp: get_regs_def split: prod.splits option.splits)
    then have "rank w3 \<le> rank w1"
      using assms c unfolding finitely_many_stops_def by (metis le_trans snd_conv)
    then have "WSTOPSIG s \<noteq> SIGSEGV \<Longrightarrow> remote_post_call A K pid q ret w3 \<noteq> None"
      using r [OF Some] less.hyps [of w3 q] by simp
    then show ?thesis using w Some g c by (subst remote_post_call.simps) simp
  qed
qed

section \<open>The injection\<close>

definition ends :: "'b option \<Rightarrow> bool" where "ends m \<longleftrightarrow> m \<noteq> None"

lemma ends_Some [simp]: "ends (Some x)"
  by (simp add: ends_def)

lemma ends_bind [simp]: "ends m \<Longrightarrow> (\<And>x. ends (f x)) \<Longrightarrow> ends (Option.bind m f)"
  by (cases m) (simp_all add: ends_def)

text \<open>Every function with remote calls ends when \<open>remote_post_call\<close> does.\<close>

definition calls_end :: "('a :: len word, 'r, 'w) arch \<Rightarrow> ('a word, 'r, 'w) kernel \<Rightarrow> int \<Rightarrow> bool" where
  "calls_end A K pid \<longleftrightarrow> (\<forall>regs ret w. ends (remote_post_call A K pid regs ret w))"

lemma small_ends:
  assumes "calls_end A K pid"
  shows "ends (remote_post_call A K pid r ret w)" and "ends (remote_call A K pid r f ret args w)"
    and "ends (close_remote A K pid c fd r w)" and "ends (give_up A K pid c fd r w)"
    and "ends (get_remote_errno A K pid e r w)"
proof -
  show p: "ends (remote_post_call A K pid r ret w)" for r ret w using assms by (simp add: calls_end_def)
  show c: "ends (remote_call A K pid r f ret args w)" for r f ret args w
    by (simp add: remote_call_def p split: prod.split)
  show d: "ends (close_remote A K pid c fd r w)" for c fd r w
    by (simp add: close_remote_def c split: prod.split)
  show "ends (give_up A K pid c fd r w)" by (simp add: give_up_def d split: prod.split)
  show "ends (get_remote_errno A K pid e r w)" by (simp add: get_remote_errno_def c split: prod.split)
qed

lemma transfer_ends:
  assumes "calls_end A K pid"
  shows "ends (transfer_fd_to_remote A K B pid path r lm rm w)"
proof -
  note e = small_ends [OF assms]
  have f: "ends (receive_fd A K B pid funcs fd nm sock lib r w)" for funcs fd nm sock lib r w
    by (simp add: receive_fd_def Let_def e split: prod.split option.split)
  have "ends (bind_and_receive A K B pid funcs sock lib r w)" for funcs sock lib r w
    by (simp add: bind_and_receive_def Let_def e f split: prod.split)
  then show ?thesis by (simp add: transfer_fd_to_remote_def Let_def split: prod.split option.split)
qed

lemma inject_stopped_ends:
  assumes "calls_end A K pid"
  shows "ends (inject_stopped A K B pid path r w)"
proof -
  note e = small_ends [OF assms] transfer_ends [OF assms]
  have d: "ends (get_remote_dlerror A K pid r lm rm ret w)" for r lm rm ret w
    by (simp add: get_remote_dlerror_def Let_def e split: prod.split)
  have o: "ends (remote_dlopen A K B pid r lm rm fd path ret w)" for r lm rm fd ret w
    by (simp add: remote_dlopen_def Let_def e d split: prod.split)
  have f: "ends (remote_find_entry A K pid r lm rm h ret w)" for r lm rm h ret w
    by (simp add: remote_find_entry_def Let_def e d split: prod.split)
  have "ends (remote_call_entry A K pid r en h ret w)" for r en h ret w
    by (simp add: remote_call_entry_def e split: prod.split)
  then show ?thesis by (simp add: inject_stopped_def Let_def e o f split: prod.split option.split)
qed

lemma inject_library_ends:
  assumes "finitely_many_stops K pid rank"
  shows "ends (inject_library A K B zero pid path entry w)"
proof -
  have e: "calls_end A K pid" using post_call_ends [OF assms] by (simp add: calls_end_def ends_def)
  have "ends (wait_for_trace K pid w)" for w using wait_ends [OF assms, of w] by (auto simp: ends_def)
  then show ?thesis
    by (simp add: inject_library_def Let_def inject_stopped_ends [OF e] split: prod.split option.split)
qed

text \<open>
  C22. The injector ends. If the traced process reports finitely many interruptions and stops between
  two returns from a call, the injection of a library returns on every path, and so does the program
  for all its arguments, whatever the system calls answer otherwise.
\<close>

theorem injector_terminates:
  assumes "\<And>pid. finitely_many_stops K pid (rank pid)"
  shows "(\<exists>ok w'. inject_library A K B zero pid path entry w = Some (ok, w')) \<and>
    (\<exists>status w'. inject_main A K B zero realpath readable argv w = Some (status, w') \<and> status \<in> {0, 1})"
proof -
  have e: "ends (inject_library A K B zero pid path entry w)" for pid path entry w
    by (rule inject_library_ends [OF assms])
  have "ends (inject_main A K B zero realpath readable argv w)"
    by (simp add: inject_main_def Let_def e split: prod.split option.split)
  moreover have "inject_main A K B zero realpath readable argv w = Some (status, w') \<Longrightarrow> status \<in> {0, 1}" for status w'
    by (auto simp: inject_main_def Let_def split: prod.splits option.splits if_splits Option.bind_splits)
  ultimately show ?thesis using e [of pid path entry w] by (fastforce simp: ends_def)
qed

theorem injector_terminates_witness:
  "\<exists>status w'. inject_main sim_arch sim_kernel sim_abi sim_regs (\<lambda>p w. Some p) (\<lambda>p w. True)
     [''inject'', ''7'', ''/data/lib.so'', ''entry''] (sim_start 5) = Some (status, w') \<and> status \<in> {0, 1}"
proof -
  have "finitely_many_stops sim_kernel pid (\<lambda>w. if s_seen w then 0 else 1)" for pid
    by (auto simp: finitely_many_stops_def sim_cont_def WSTOPSIG_def SIGSEGV_def split: if_splits)
  from injector_terminates [OF this] show ?thesis by blast
qed

end
