(* ===== verification/Parcel.thy ===== *)
theory Parcel
  imports Android_Errors
begin

text \<open>
  The generic marshalling of \<open>external/AOSP/include/binder/Parcel.h\<close>: the overloads and templates
  \<open>writeData\<close> and \<open>readData\<close>, which take a value apart along its C++ type, and the small inline
  members beside them. The C++ types are the datatype \<open>ptype\<close>, the values \<open>pval\<close>; a container
  value carries its element type, the template argument. The primitive members of \<open>Parcel\<close> live
  in \<open>libbinder.so\<close>: they are the fields of a record, over a parcel state \<open>'p\<close>; \<open>'k\<close> are the
  objects of classes derived from \<open>Parcelable\<close>. Reading returns an error status or the value and
  leaves what a failed read stored in the output argument out.
\<close>

section \<open>Types and values\<close>

datatype nullable = Std_optional | Std_unique_ptr | Std_shared_ptr

datatype ptype =
    TBool | TInt8 | TUint8 | TChar16 | TInt32 | TUint32 | TInt64 | TUint64 | TFloat | TDouble
  | TString16 | TString | TUniqueFd | TParcelable | TEnum ptype | TStrongBinder
  | TNullable nullable ptype | TVector ptype | TArray nat ptype

datatype 'k pval =
    Bool bool | Int8 u8 | Uint8 u8 | Char16 u16 | Int32 u32 | Uint32 u32 | Int64 u64 | Uint64 u64
  | Float u32 | Double u64 | PString16 "u16 list" | PString "byte list" | PUniqueFd int | PParcelable 'k
  | PEnum "'k pval" | PStrongBinder u64 | PNullable nullable ptype "'k pval option"
  | PVector ptype "'k pval list" | PArray ptype "'k pval list"

fun size_of :: "ptype \<Rightarrow> nat" where
  "size_of TBool = 1" | "size_of TInt8 = 1" | "size_of TUint8 = 1" | "size_of TChar16 = 2"
| "size_of TInt32 = 4" | "size_of TUint32 = 4" | "size_of TInt64 = 8" | "size_of TUint64 = 8"
| "size_of TFloat = 4" | "size_of TDouble = 8" | "size_of (TEnum t) = size_of t"
| "size_of _ = 0"

fun is_pointer_equivalent_array :: "ptype \<Rightarrow> bool" where
  "is_pointer_equivalent_array (TEnum t) \<longleftrightarrow> size_of t = 1 \<or> size_of t = 4"
| "is_pointer_equivalent_array t \<longleftrightarrow> t \<in> {TInt8, TUint8, TInt32, TUint32, TFloat, TUint64, TInt64, TDouble}"

definition kNonNullParcelableFlag :: u32 where "kNonNullParcelableFlag = 1"
definition kNullParcelableFlag :: u32 where "kNullParcelableFlag = 0"
definition kNullVectorSize :: u32 where "kNullVectorSize = -1"

fun is_vector :: "ptype \<Rightarrow> bool" where "is_vector (TVector t) = True" | "is_vector _ = False"
fun is_fixed_array :: "ptype \<Rightarrow> bool" where "is_fixed_array (TArray n t) = True" | "is_fixed_array _ = False"

text \<open>The types a nullable may hold (any other does not compile), and the integer that says null.\<close>

definition nullable_target :: "ptype \<Rightarrow> bool" where
  "nullable_target t \<longleftrightarrow> is_vector t \<or> is_fixed_array t \<or> t \<in> {TString16, TString, TParcelable}"

definition null_marker :: "ptype \<Rightarrow> u32" where
  "null_marker t = (if t = TParcelable then kNullParcelableFlag else kNullVectorSize)"

section \<open>The primitive members\<close>

type_synonym ('x, 'p) writer = "'x \<Rightarrow> 'p \<Rightarrow> status_t \<times> 'p"
type_synonym ('x, 'p) reader = "'p \<Rightarrow> (status_t + 'x) \<times> 'p"

text \<open>
  \<open>writeInplace\<close> returns the address of the reserved bytes and \<open>poke\<close> stores through it;
  \<open>readInplace\<close> returns the bytes its pointer shows. \<open>new_succeeds\<close> is the result of
  \<open>new (std::nothrow)\<close>, \<open>size_max\<close> the largest \<open>size_t\<close>.
\<close>

record ('p, 'k) parcel_ops =
  writeBool :: "(bool, 'p) writer"
  writeByte :: "(u8, 'p) writer"
  writeChar :: "(u16, 'p) writer"
  writeInt32 :: "(u32, 'p) writer"
  writeUint32 :: "(u32, 'p) writer"
  writeInt64 :: "(u64, 'p) writer"
  writeUint64 :: "(u64, 'p) writer"
  writeFloat :: "(u32, 'p) writer"
  writeDouble :: "(u64, 'p) writer"
  writeString16 :: "(u16 list, 'p) writer"
  writeUtf8AsUtf16 :: "(byte list, 'p) writer"
  writeUniqueFileDescriptor :: "(int, 'p) writer"
  writeStrongBinder :: "(u64, 'p) writer"
  writeToParcel :: "('k, 'p) writer"
  write_bytes :: "(byte list, 'p) writer"
  writeInplace :: "nat \<Rightarrow> 'p \<Rightarrow> u64 option \<times> 'p"
  poke :: "u64 \<Rightarrow> byte list \<Rightarrow> 'p \<Rightarrow> 'p"
  readBool :: "(bool, 'p) reader"
  readByte :: "(u8, 'p) reader"
  readChar :: "(u16, 'p) reader"
  readInt32 :: "(u32, 'p) reader"
  readUint32 :: "(u32, 'p) reader"
  readInt64 :: "(u64, 'p) reader"
  readUint64 :: "(u64, 'p) reader"
  readFloat :: "(u32, 'p) reader"
  readDouble :: "(u64, 'p) reader"
  readString16 :: "(u16 list, 'p) reader"
  readUtf8FromUtf16 :: "(byte list, 'p) reader"
  readUniqueFileDescriptor :: "(int, 'p) reader"
  readStrongBinder :: "(u64, 'p) reader"
  readNullableStrongBinder :: "(u64, 'p) reader"
  readFromParcel :: "('k, 'p) reader"
  readInplace :: "nat \<Rightarrow> 'p \<Rightarrow> byte list option \<times> 'p"
  dataAvail :: "'p \<Rightarrow> nat"
  dataPosition :: "'p \<Rightarrow> nat"
  setDataPosition :: "nat \<Rightarrow> 'p \<Rightarrow> 'p"
  new_succeeds :: "'p \<Rightarrow> bool"
  size_max :: nat

text \<open>A \<open>size_t\<close> product wraps.\<close>

definition size_t_of :: "('p, 'k) parcel_ops \<Rightarrow> nat \<Rightarrow> nat" where
  "size_t_of Q n = n mod (size_max Q + 1)"

definition INT32_MAX :: nat where "INT32_MAX = 2147483647"

section \<open>Elements in memory\<close>

text \<open>The bytes of a vector element, and the element made of its bytes.\<close>

fun elem_bytes :: "'k pval \<Rightarrow> byte list" where
  "elem_bytes (Bool b) = [if b then 1 else 0]"
| "elem_bytes (Int8 x) = [x]" | "elem_bytes (Uint8 x) = [x]" | "elem_bytes (Char16 x) = enc16 x"
| "elem_bytes (Int32 x) = enc32 x" | "elem_bytes (Uint32 x) = enc32 x" | "elem_bytes (Float x) = enc32 x"
| "elem_bytes (Int64 x) = enc64 x" | "elem_bytes (Uint64 x) = enc64 x" | "elem_bytes (Double x) = enc64 x"
| "elem_bytes (PEnum v) = elem_bytes v"
| "elem_bytes _ = []"

fun elem_of :: "ptype \<Rightarrow> byte list \<Rightarrow> 'k pval" where
  "elem_of TBool bs = Bool (bs \<noteq> [0])"
| "elem_of TInt8 bs = Int8 (hd bs)" | "elem_of TUint8 bs = Uint8 (hd bs)" | "elem_of TChar16 bs = Char16 (dec16 bs)"
| "elem_of TInt32 bs = Int32 (dec32 bs)" | "elem_of TUint32 bs = Uint32 (dec32 bs)" | "elem_of TFloat bs = Float (dec32 bs)"
| "elem_of TInt64 bs = Int64 (dec64 bs)" | "elem_of TUint64 bs = Uint64 (dec64 bs)" | "elem_of TDouble bs = Double (dec64 bs)"
| "elem_of (TEnum t) bs = PEnum (elem_of t bs)"
| "elem_of _ bs = Bool False"

text \<open>\<open>n\<close> elements of \<open>k\<close> bytes each; the widened elements of bool and char16_t vectors.\<close>

definition elems_of :: "ptype \<Rightarrow> nat \<Rightarrow> byte list \<Rightarrow> 'k pval list" where
  "elems_of t n bs = map (\<lambda>i. elem_of t (take (size_of t) (drop (i * size_of t) bs))) [0..<n]"

fun widened :: "'k pval \<Rightarrow> u32" where
  "widened (Bool b) = (if b then 1 else 0)" | "widened (Char16 c) = ucast c" | "widened _ = 0"

definition narrowed :: "ptype \<Rightarrow> u32 \<Rightarrow> 'k pval" where
  "narrowed t x = (if t = TBool then Bool (x \<noteq> 0) else Char16 (ucast x))"

definition narrowed_elems :: "ptype \<Rightarrow> nat \<Rightarrow> byte list \<Rightarrow> 'k pval list" where
  "narrowed_elems t n bs = map (\<lambda>i. narrowed t (dec32 (take 4 (drop (i * 4) bs)))) [0..<n]"

section \<open>writeData\<close>

text \<open>
  The size of a vector is written without a look at the status; that of an array is checked.
  \<open>writeAll\<close> is the loop over elements that stops at the first failure.
\<close>

fun writeData :: "('p, 'k) parcel_ops \<Rightarrow> 'k pval \<Rightarrow> 'p \<Rightarrow> status_t \<times> 'p"
and writeAll :: "('p, 'k) parcel_ops \<Rightarrow> 'k pval list \<Rightarrow> 'p \<Rightarrow> status_t \<times> 'p" where
  "writeData Q (Bool t) p = writeBool Q t p"
| "writeData Q (Int8 t) p = writeByte Q t p"
| "writeData Q (Uint8 t) p = writeByte Q t p"
| "writeData Q (Char16 t) p = writeChar Q t p"
| "writeData Q (Int32 t) p = writeInt32 Q t p"
| "writeData Q (Uint32 t) p = writeUint32 Q t p"
| "writeData Q (Int64 t) p = writeInt64 Q t p"
| "writeData Q (Uint64 t) p = writeUint64 Q t p"
| "writeData Q (Float t) p = writeFloat Q t p"
| "writeData Q (Double t) p = writeDouble Q t p"
| "writeData Q (PString16 t) p = writeString16 Q t p"
| "writeData Q (PString t) p = writeUtf8AsUtf16 Q t p"
| "writeData Q (PUniqueFd t) p = writeUniqueFileDescriptor Q t p"
| "writeData Q (PParcelable t) p =
     (let (status, p) = writeInt32 Q kNonNullParcelableFlag p
      in if \<not> is_ok status then (status, p) else writeToParcel Q t p)"
| "writeData Q (PEnum t) p = writeData Q t p"
| "writeData Q (PStrongBinder t) p = writeStrongBinder Q t p"
| "writeData Q (PNullable c t None) p = writeInt32 Q (null_marker t) p"
| "writeData Q (PNullable c t (Some v)) p = writeData Q v p"
| "writeData Q (PVector t c) p =
     (if length c > INT32_MAX then (status_of BAD_VALUE, p)
      else let (_, p) = writeInt32 Q (of_nat (length c)) p
      in if is_pointer_equivalent_array t then
           (let limit = size_max Q div size_of t
            in if length c > limit then (status_of BAD_VALUE, p)
               else write_bytes Q (concat (map elem_bytes c)) p)
      else if t = TBool \<or> t = TChar16 then
           (let (data, p) = writeInplace Q (size_t_of Q (length c * 4)) p
            in case data of None \<Rightarrow> (status_of BAD_VALUE, p)
               | Some data \<Rightarrow> (status_of OK, poke Q data (concat (map (\<lambda>v. enc32 (widened v)) c)) p))
      else writeAll Q c p)"
| "writeData Q (PArray t val) p =
     (let (status, p) = writeInt32 Q (of_nat (length val)) p
      in if \<not> is_ok status then (status, p)
      else if is_pointer_equivalent_array t then write_bytes Q (concat (map elem_bytes val)) p
      else writeAll Q val p)"
| "writeAll Q [] p = (status_of OK, p)"
| "writeAll Q (v # vs) p =
     (let (status, p) = writeData Q v p in if \<not> is_ok status then (status, p) else writeAll Q vs p)"

section \<open>readData\<close>

fun map_result :: "('x \<Rightarrow> 'y) \<Rightarrow> ('e + 'x) \<times> 'p \<Rightarrow> ('e + 'y) \<times> 'p" where
  "map_result f (Inl e, p) = (Inl e, p)" | "map_result f (Inr x, p) = (Inr (f x), p)"

text \<open>Read \<open>n\<close> elements, stopping at the first failure.\<close>

fun readAll :: "('x, 'p) reader \<Rightarrow> nat \<Rightarrow> ('x list, 'p) reader" where
  "readAll rd 0 p = (Inr [], p)"
| "readAll rd (Suc n) p =
     (case rd p of (Inl e, p) \<Rightarrow> (Inl e, p)
      | (Inr x, p) \<Rightarrow> map_result (\<lambda>xs. x # xs) (readAll rd n p))"

definition EOVERFLOW_status :: status_t where "EOVERFLOW_status = - 75"

text \<open>
  The overloads for nullables, vectors and arrays, over the reader of the element type. The flag
  \<open>f\<close> is \<open>READ_FLAG_SP_NULLABLE\<close>: set when the container is itself inside a nullable, passed on to
  nested arrays (\<open>rd_flag\<close>) and not to nested vectors.
\<close>

definition readNullable :: "('p, 'k) parcel_ops \<Rightarrow> nullable \<Rightarrow> ptype \<Rightarrow> ('k pval, 'p) reader \<Rightarrow> ('k pval, 'p) reader" where
  "readNullable Q c t rd p =
     (let startPos = dataPosition Q p
      in case readInt32 Q p of (Inl status, p) \<Rightarrow> (Inl status, p)
         | (Inr peek, p) \<Rightarrow>
             if peek = null_marker t then (Inr (PNullable c t None), p)
             else if c \<noteq> Std_optional \<and> \<not> new_succeeds Q p then (Inl (status_of NO_MEMORY), p)
             else let p = setDataPosition Q startPos p
                  in map_result (\<lambda>v. PNullable c t (Some v))
                       (rd p))"

definition readVector :: "('p, 'k) parcel_ops \<Rightarrow> ptype \<Rightarrow> bool \<Rightarrow> ('k pval, 'p) reader \<Rightarrow> ('k pval, 'p) reader" where
  "readVector Q t f rd p =
     (case readInt32 Q p of (Inl status, p) \<Rightarrow> (Inl status, p)
      | (Inr size', p) \<Rightarrow>
          if sint size' < 0 then (Inl (status_of UNEXPECTED_NULL), p)
          else if unat size' > dataAvail Q p then (Inl (status_of BAD_VALUE), p)
          else if is_pointer_equivalent_array t then
            (if unat size' * size_of t > size_max Q then (Inl EOVERFLOW_status, p)
             else case readInplace Q (unat size' * size_of t) p of
                 (None, p) \<Rightarrow> (Inl (status_of BAD_VALUE), p)
               | (Some data, p) \<Rightarrow> (Inr (PVector t (elems_of t (unat size') data)), p))
          else if t = TBool \<or> t = TChar16 then
            (case readInplace Q (size_t_of Q (unat size' * 4)) p of
                 (None, p) \<Rightarrow> (Inl (status_of BAD_VALUE), p)
               | (Some data, p) \<Rightarrow> (Inr (PVector t (narrowed_elems t (unat size') data)), p))
          else if t = TStrongBinder then
            map_result (\<lambda>bs. PVector t (map PStrongBinder bs))
              (readAll (if f then readNullableStrongBinder Q else readStrongBinder Q) (unat size') p)
          else map_result (PVector t) (readAll rd (unat size') p))"

definition readArray :: "('p, 'k) parcel_ops \<Rightarrow> nat \<Rightarrow> ptype \<Rightarrow> bool \<Rightarrow> ('k pval, 'p) reader \<Rightarrow> ('k pval, 'p) reader \<Rightarrow> ('k pval, 'p) reader" where
  "readArray Q n t f rd_flag rd p =
     (case readInt32 Q p of (Inl status, p) \<Rightarrow> (Inl status, p)
      | (Inr size', p) \<Rightarrow>
          if sint size' < 0 then (Inl (status_of UNEXPECTED_NULL), p)
          else if size' \<noteq> of_nat n then (Inl (status_of BAD_VALUE), p)
          else if is_pointer_equivalent_array t then
            (case readInplace Q (n * size_of t) p of
                 (None, p) \<Rightarrow> (Inl (status_of BAD_VALUE), p)
               | (Some data, p) \<Rightarrow> (Inr (PArray t (elems_of t n data)), p))
          else if t = TStrongBinder then
            map_result (\<lambda>bs. PArray t (map PStrongBinder bs))
              (readAll (if f then readNullableStrongBinder Q else readStrongBinder Q) n p)
          else if is_fixed_array t then map_result (PArray t) (readAll rd_flag n p)
          else map_result (PArray t) (readAll rd n p))"

fun readData :: "('p, 'k) parcel_ops \<Rightarrow> ptype \<Rightarrow> bool \<Rightarrow> ('k pval, 'p) reader" where
  "readData Q TBool f p = map_result Bool (readBool Q p)"
| "readData Q TInt8 f p = map_result Int8 (readByte Q p)"
| "readData Q TUint8 f p = map_result Uint8 (readByte Q p)"
| "readData Q TChar16 f p = map_result Char16 (readChar Q p)"
| "readData Q TInt32 f p = map_result Int32 (readInt32 Q p)"
| "readData Q TUint32 f p = map_result Uint32 (readUint32 Q p)"
| "readData Q TInt64 f p = map_result Int64 (readInt64 Q p)"
| "readData Q TUint64 f p = map_result Uint64 (readUint64 Q p)"
| "readData Q TFloat f p = map_result Float (readFloat Q p)"
| "readData Q TDouble f p = map_result Double (readDouble Q p)"
| "readData Q TString16 f p = map_result PString16 (readString16 Q p)"
| "readData Q TString f p = map_result PString (readUtf8FromUtf16 Q p)"
| "readData Q TUniqueFd f p = map_result PUniqueFd (readUniqueFileDescriptor Q p)"
| "readData Q TParcelable f p =
     (case readInt32 Q p of (Inl status, p) \<Rightarrow> (Inl status, p)
      | (Inr present, p) \<Rightarrow>
          if present \<noteq> kNonNullParcelableFlag then (Inl (status_of UNEXPECTED_NULL), p)
          else map_result PParcelable (readFromParcel Q p))"
| "readData Q (TEnum t) f p = map_result PEnum (readData Q t False p)"
| "readData Q TStrongBinder f p = map_result PStrongBinder (readStrongBinder Q p)"
| "readData Q (TNullable c t) f p = readNullable Q c t (readData Q t (is_vector t \<or> is_fixed_array t)) p"
| "readData Q (TVector t) f p = readVector Q t f (readData Q t False) p"
| "readData Q (TArray n t) f p = readArray Q n t f (readData Q t f) (readData Q t False) p"

end
