(* ===== verification/Parcel_Members.thy ===== *)
theory Parcel_Members
  imports Parcel
begin

text \<open>
  The other inline members of \<open>Parcel.h\<close>: the typed front ends of \<open>writeData\<close> and \<open>readData\<close>,
  light and full flattenables, the sizes of out vectors, binders converted to interfaces, the
  fields of the two transports and the blob classes.
\<close>

section \<open>Front ends\<close>

text \<open>Each front end restricts the type of its argument and hands it to \<open>writeData\<close>.\<close>

definition writeStrongBinder_interface ::
  "('p, 'k) parcel_ops \<Rightarrow> ('i \<Rightarrow> u64) \<Rightarrow> 'i \<Rightarrow> 'p \<Rightarrow> status_t \<times> 'p" where
  "writeStrongBinder_interface Q asBinder val p = writeStrongBinder Q (asBinder val) p"

definition writeStrongBinderVector :: "('p, 'k) parcel_ops \<Rightarrow> u64 list \<Rightarrow> 'p \<Rightarrow> status_t \<times> 'p" where
  "writeStrongBinderVector Q val p = writeData Q (PVector TStrongBinder (map PStrongBinder val)) p"

definition writeStrongBinderVector_optional ::
  "('p, 'k) parcel_ops \<Rightarrow> u64 list option \<Rightarrow> 'p \<Rightarrow> status_t \<times> 'p" where
  "writeStrongBinderVector_optional Q val p = writeData Q (PNullable Std_optional (TVector TStrongBinder)
     (map_option (\<lambda>v. PVector TStrongBinder (map PStrongBinder v)) val)) p"

definition writeFixedArray :: "('p, 'k) parcel_ops \<Rightarrow> ptype \<Rightarrow> 'k pval list \<Rightarrow> 'p \<Rightarrow> status_t \<times> 'p" where
  "writeFixedArray Q t val p = writeData Q (PArray t val) p"

definition writeFixedArray_optional ::
  "('p, 'k) parcel_ops \<Rightarrow> nat \<Rightarrow> ptype \<Rightarrow> 'k pval list option \<Rightarrow> 'p \<Rightarrow> status_t \<times> 'p" where
  "writeFixedArray_optional Q n t val p =
     writeData Q (PNullable Std_optional (TArray n t) (map_option (PArray t) val)) p"

definition writeEnumVector :: "('p, 'k) parcel_ops \<Rightarrow> ptype \<Rightarrow> 'k pval list \<Rightarrow> 'p \<Rightarrow> status_t \<times> 'p" where
  "writeEnumVector Q ut val p = writeData Q (PVector (TEnum ut) (map PEnum val)) p"

definition writeEnumVector_nullable ::
  "('p, 'k) parcel_ops \<Rightarrow> nullable \<Rightarrow> ptype \<Rightarrow> 'k pval list option \<Rightarrow> 'p \<Rightarrow> status_t \<times> 'p" where
  "writeEnumVector_nullable Q c ut val p = writeData Q (PNullable c (TVector (TEnum ut))
     (map_option (\<lambda>v. PVector (TEnum ut) (map PEnum v)) val)) p"

definition writeParcelableVector :: "('p, 'k) parcel_ops \<Rightarrow> 'k list \<Rightarrow> 'p \<Rightarrow> status_t \<times> 'p" where
  "writeParcelableVector Q val p = writeData Q (PVector TParcelable (map PParcelable val)) p"

definition writeParcelableVector_nullable ::
  "('p, 'k) parcel_ops \<Rightarrow> nullable \<Rightarrow> nullable \<Rightarrow> 'k option list option \<Rightarrow> 'p \<Rightarrow> status_t \<times> 'p" where
  "writeParcelableVector_nullable Q outer inner val p =
     writeData Q (PNullable outer (TVector (TNullable inner TParcelable))
       (map_option (\<lambda>v. PVector (TNullable inner TParcelable)
          (map (\<lambda>x. PNullable inner TParcelable (map_option PParcelable x)) v)) val)) p"

definition writeNullableParcelable ::
  "('p, 'k) parcel_ops \<Rightarrow> nullable \<Rightarrow> 'k option \<Rightarrow> 'p \<Rightarrow> status_t \<times> 'p" where
  "writeNullableParcelable Q c parcelable p =
     writeData Q (PNullable c TParcelable (map_option PParcelable parcelable)) p"

definition readEnumVector :: "('p, 'k) parcel_ops \<Rightarrow> ptype \<Rightarrow> ('k pval, 'p) reader" where
  "readEnumVector Q ut p = readData Q (TVector (TEnum ut)) False p"

definition readEnumVector_nullable :: "('p, 'k) parcel_ops \<Rightarrow> nullable \<Rightarrow> ptype \<Rightarrow> ('k pval, 'p) reader" where
  "readEnumVector_nullable Q c ut p = readData Q (TNullable c (TVector (TEnum ut))) False p"

definition readParcelableVector :: "('p, 'k) parcel_ops \<Rightarrow> ('k pval, 'p) reader" where
  "readParcelableVector Q p = readData Q (TVector TParcelable) False p"

definition readParcelableVector_nullable ::
  "('p, 'k) parcel_ops \<Rightarrow> nullable \<Rightarrow> nullable \<Rightarrow> ('k pval, 'p) reader" where
  "readParcelableVector_nullable Q outer inner p =
     readData Q (TNullable outer (TVector (TNullable inner TParcelable))) False p"

definition readParcelable :: "('p, 'k) parcel_ops \<Rightarrow> nullable \<Rightarrow> ('k pval, 'p) reader" where
  "readParcelable Q c p = readData Q (TNullable c TParcelable) False p"

definition readStrongBinderVector :: "('p, 'k) parcel_ops \<Rightarrow> ('k pval, 'p) reader" where
  "readStrongBinderVector Q p = readData Q (TVector TStrongBinder) False p"

definition readStrongBinderVector_optional :: "('p, 'k) parcel_ops \<Rightarrow> ('k pval, 'p) reader" where
  "readStrongBinderVector_optional Q p = readData Q (TNullable Std_optional (TVector TStrongBinder)) False p"

definition readFixedArray :: "('p, 'k) parcel_ops \<Rightarrow> nat \<Rightarrow> ptype \<Rightarrow> ('k pval, 'p) reader" where
  "readFixedArray Q n t p = readData Q (TArray n t) False p"

definition readFixedArray_optional :: "('p, 'k) parcel_ops \<Rightarrow> nat \<Rightarrow> ptype \<Rightarrow> ('k pval, 'p) reader" where
  "readFixedArray_optional Q n t p = readData Q (TNullable Std_optional (TArray n t)) False p"

section \<open>Interfaces\<close>

text \<open>\<open>interface_cast\<close> gives 0 for a binder of another interface.\<close>

definition readStrongBinder_interface ::
  "('p, 'k) parcel_ops \<Rightarrow> (u64 \<Rightarrow> u64) \<Rightarrow> (u64, 'p) reader" where
  "readStrongBinder_interface Q interface_cast p =
     (case readStrongBinder Q p of
        (Inl ret, p) \<Rightarrow> (Inl ret, p)
      | (Inr tmp, p) \<Rightarrow>
          let val = interface_cast tmp
          in if val = 0 then (Inl (status_of UNKNOWN_ERROR), p) else (Inr val, p))"

definition readNullableStrongBinder_interface ::
  "('p, 'k) parcel_ops \<Rightarrow> (u64 \<Rightarrow> u64) \<Rightarrow> (u64, 'p) reader" where
  "readNullableStrongBinder_interface Q interface_cast p =
     (case readNullableStrongBinder Q p of
        (Inl ret, p) \<Rightarrow> (Inl ret, p)
      | (Inr tmp, p) \<Rightarrow>
          let val = interface_cast tmp
          in if val = 0 \<and> tmp \<noteq> 0 then (Inl (status_of UNKNOWN_ERROR), p) else (Inr val, p))"

section \<open>Light flattenables\<close>

text \<open>
  The protocol of a class \<open>LightFlattenable<T>\<close>. \<open>flatten\<close> gives its status and the bytes it
  stores into the buffer of \<open>size\<close> bytes.
\<close>

record 't light_flattenable =
  isFixedSize :: "'t \<Rightarrow> bool"
  getFlattenedSize :: "'t \<Rightarrow> nat"
  flatten :: "'t \<Rightarrow> nat \<Rightarrow> status_t \<times> byte list"
  unflatten :: "'t \<Rightarrow> byte list \<Rightarrow> status_t \<times> 't"

definition write_light ::
  "('p, 'k) parcel_ops \<Rightarrow> 't light_flattenable \<Rightarrow> 't \<Rightarrow> 'p \<Rightarrow> status_t \<times> 'p" where
  "write_light Q L val p =
     (let size' = getFlattenedSize L val;
          buffer_and_data = (\<lambda>p.
            if size' \<noteq> 0 then
              (let (buffer, p) = writeInplace Q size' p
               in case buffer of None \<Rightarrow> (status_of NO_MEMORY, p)
                  | Some buffer \<Rightarrow> let (status, bytes) = flatten L val size' in (status, poke Q buffer bytes p))
            else (status_of OK, p))
      in if \<not> isFixedSize L val then
           (if size' > INT32_MAX then (status_of BAD_VALUE, p)
            else let (err, p) = writeInt32 Q (of_nat size') p
                 in if \<not> is_ok err then (err, p) else buffer_and_data p)
         else buffer_and_data p)"

text \<open>The size read is converted to \<open>size_t\<close>: a negative one becomes a huge one.\<close>

definition int32_to_size_t :: "('p, 'k) parcel_ops \<Rightarrow> u32 \<Rightarrow> nat" where
  "int32_to_size_t Q s = nat (sint s mod (int (size_max Q) + 1))"

definition read_light ::
  "('p, 'k) parcel_ops \<Rightarrow> 't light_flattenable \<Rightarrow> 't \<Rightarrow> 'p \<Rightarrow> (status_t \<times> 't) \<times> 'p" where
  "read_light Q L val p =
     (let buffer_and_data = (\<lambda>size' p.
            if size' \<noteq> 0 then
              (case readInplace Q size' p of
                 (None, p) \<Rightarrow> ((status_of NO_MEMORY, val), p)
               | (Some buffer, p) \<Rightarrow> (unflatten L val buffer, p))
            else ((status_of OK, val), p))
      in if isFixedSize L val then buffer_and_data (getFlattenedSize L val) p
         else (case readInt32 Q p of
             (Inl err, p) \<Rightarrow> ((err, val), p)
           | (Inr s, p) \<Rightarrow> buffer_and_data (int32_to_size_t Q s) p))"

section \<open>Sizes of out vectors\<close>

definition writeVectorSize :: "('p, 'k) parcel_ops \<Rightarrow> 'x list \<Rightarrow> 'p \<Rightarrow> status_t \<times> 'p" where
  "writeVectorSize Q val p =
     (if length val > INT32_MAX then (status_of BAD_VALUE, p)
      else writeInt32 Q (of_nat (length val)) p)"

definition writeVectorSize_nullable :: "('p, 'k) parcel_ops \<Rightarrow> 'x list option \<Rightarrow> 'p \<Rightarrow> status_t \<times> 'p" where
  "writeVectorSize_nullable Q val p =
     (case val of None \<Rightarrow> writeInt32 Q (- 1) p | Some val \<Rightarrow> writeVectorSize Q val p)"

text \<open>
  \<open>readOutVectorSizeWithCheck\<close> is a member in the library. Resizing keeps the front of a vector
  and fills it up with \<open>T()\<close>.
\<close>

definition vector_resize :: "'x \<Rightarrow> nat \<Rightarrow> 'x list \<Rightarrow> 'x list" where
  "vector_resize dflt n xs = take n xs @ replicate (n - length xs) dflt"

definition resizeOutVector ::
  "(nat \<Rightarrow> (u32, 'p) reader) \<Rightarrow> nat \<Rightarrow> 'x \<Rightarrow> 'x list \<Rightarrow> 'p \<Rightarrow> (status_t \<times> 'x list) \<times> 'p" where
  "resizeOutVector readOutVectorSizeWithCheck elem dflt val p =
     (case readOutVectorSizeWithCheck elem p of
        (Inl err, p) \<Rightarrow> ((err, val), p)
      | (Inr size', p) \<Rightarrow>
          if sint size' < 0 then ((status_of UNEXPECTED_NULL, val), p)
          else ((status_of OK, vector_resize dflt (unat size') val), p))"

definition resizeOutVector_nullable ::
  "(nat \<Rightarrow> (u32, 'p) reader) \<Rightarrow> nat \<Rightarrow> 'x \<Rightarrow> 'x list option \<Rightarrow> 'p \<Rightarrow> (status_t \<times> 'x list option) \<times> 'p" where
  "resizeOutVector_nullable readOutVectorSizeWithCheck elem dflt val p =
     (case readOutVectorSizeWithCheck elem p of
        (Inl err, p) \<Rightarrow> ((err, val), p)
      | (Inr size', p) \<Rightarrow>
          ((status_of OK, if sint size' \<ge> 0 then Some (replicate (unat size') dflt) else None), p))"

section \<open>Flattenables\<close>

text \<open>
  The protocol of a class \<open>Flattenable<T>\<close>: \<open>flatten\<close> fills a buffer of bytes and one of
  descriptors. \<open>FlattenableHelper\<close> holds a reference to such an object, here its value, and
  gives the protocol as virtual functions, which forward. The members \<open>write\<close> and
  \<open>read\<close> of \<open>Parcel\<close> for the helper live in the library: \<open>write_helper\<close> and \<open>read_helper\<close>.
\<close>

record 't flattenable =
  fl_getFlattenedSize :: "'t \<Rightarrow> nat"
  fl_getFdCount :: "'t \<Rightarrow> nat"
  fl_flatten :: "'t \<Rightarrow> nat \<Rightarrow> nat \<Rightarrow> status_t \<times> byte list \<times> int list"
  fl_unflatten :: "'t \<Rightarrow> byte list \<Rightarrow> int list \<Rightarrow> status_t \<times> 't"

record 't FlattenableHelper =
  helper_val :: 't

definition helper_getFlattenedSize :: "'t flattenable \<Rightarrow> 't FlattenableHelper \<Rightarrow> nat" where
  "helper_getFlattenedSize F h = fl_getFlattenedSize F (helper_val h)"

definition helper_getFdCount :: "'t flattenable \<Rightarrow> 't FlattenableHelper \<Rightarrow> nat" where
  "helper_getFdCount F h = fl_getFdCount F (helper_val h)"

definition helper_flatten ::
  "'t flattenable \<Rightarrow> 't FlattenableHelper \<Rightarrow> nat \<Rightarrow> nat \<Rightarrow> status_t \<times> byte list \<times> int list" where
  "helper_flatten F h size' count = fl_flatten F (helper_val h) size' count"

definition helper_unflatten ::
  "'t flattenable \<Rightarrow> 't FlattenableHelper \<Rightarrow> byte list \<Rightarrow> int list \<Rightarrow> status_t \<times> 't FlattenableHelper" where
  "helper_unflatten F h buffer fds =
     (let (status, v) = fl_unflatten F (helper_val h) buffer fds in (status, h\<lparr>helper_val := v\<rparr>))"

definition FlattenableHelper :: "'t flattenable \<Rightarrow> 't FlattenableHelper flattenable" where
  "FlattenableHelper F = \<lparr>fl_getFlattenedSize = helper_getFlattenedSize F, fl_getFdCount = helper_getFdCount F,
     fl_flatten = helper_flatten F, fl_unflatten = helper_unflatten F\<rparr>"

definition write_flattenable ::
  "('t FlattenableHelper flattenable \<Rightarrow> 't FlattenableHelper \<Rightarrow> 'p \<Rightarrow> status_t \<times> 'p) \<Rightarrow>
   't flattenable \<Rightarrow> 't \<Rightarrow> 'p \<Rightarrow> status_t \<times> 'p" where
  "write_flattenable write_helper F val p =
     (let helper = \<lparr>helper_val = val\<rparr> in write_helper (FlattenableHelper F) helper p)"

definition read_flattenable ::
  "('t FlattenableHelper flattenable \<Rightarrow> 't FlattenableHelper \<Rightarrow> 'p \<Rightarrow> (status_t \<times> 't FlattenableHelper) \<times> 'p) \<Rightarrow>
   't flattenable \<Rightarrow> 't \<Rightarrow> 'p \<Rightarrow> (status_t \<times> 't) \<times> 'p" where
  "read_flattenable read_helper F val p =
     (let helper = \<lparr>helper_val = val\<rparr>; ((status, helper), p) = read_helper (FlattenableHelper F) helper p
      in ((status, helper_val helper), p))"

section \<open>Fields for the two transports\<close>

record kernel_fields =
  mObjects :: u64
  mObjectsSize :: nat
  mObjectsCapacity :: nat
  mNextObjectHint :: nat
  mWorkSourceRequestHeaderPosition :: nat
  mRequestHeaderPresent :: bool
  mObjectsSorted :: bool
  mFdsKnown :: bool
  mHasFds :: bool

definition new_KernelFields :: kernel_fields where
  "new_KernelFields = \<lparr>mObjects = 0, mObjectsSize = 0, mObjectsCapacity = 0, mNextObjectHint = 0,
     mWorkSourceRequestHeaderPosition = 0, mRequestHeaderPresent = False, mObjectsSorted = False,
     mFdsKnown = True, mHasFds = False\<rparr>"

datatype variant_fields = Kernel_fields kernel_fields | Rpc_fields

definition new_variant_fields :: variant_fields where "new_variant_fields = Kernel_fields new_KernelFields"

fun maybeKernelFields :: "variant_fields \<Rightarrow> kernel_fields option" where
  "maybeKernelFields (Kernel_fields k) = Some k" | "maybeKernelFields Rpc_fields = None"

fun maybeRpcFields :: "variant_fields \<Rightarrow> unit option" where
  "maybeRpcFields (Kernel_fields k) = None" | "maybeRpcFields Rpc_fields = Some ()"

section \<open>Blobs\<close>

record blob =
  mFd :: int
  mData :: u64
  mSize :: nat
  mMutable :: bool

definition blob_size :: "blob \<Rightarrow> nat" where "blob_size b = mSize b"
definition blob_fd :: "blob \<Rightarrow> int" where "blob_fd b = mFd b"
definition blob_isMutable :: "blob \<Rightarrow> bool" where "blob_isMutable b = mMutable b"
definition readable_blob_data :: "blob \<Rightarrow> u64" where "readable_blob_data b = mData b"
definition writable_blob_data :: "blob \<Rightarrow> u64" where "writable_blob_data b = mData b"

definition blob_mutableData :: "blob \<Rightarrow> u64" where
  "blob_mutableData b = (if blob_isMutable b then mData b else 0)"

end
