(* ===== verification/Parcel_Layout.thy ===== *)
theory Parcel_Layout
  imports Parcel_Members
begin

text \<open>
  The layout that \<open>Parcel.h\<close> documents for every type, and the proofs that \<open>writeData\<close> produces
  it and \<open>readData\<close> reads it back. A \<open>view\<close> shows the bytes of a parcel and its position; the
  documented behaviour of the primitive members is stated over it, with \<open>E\<close> the encoding of
  strings, descriptors, binders and parcelable objects.
\<close>

section \<open>Typing\<close>

definition enum_type :: "ptype \<Rightarrow> bool" where
  "enum_type t \<longleftrightarrow> t \<in> {TBool, TInt8, TUint8, TChar16, TInt32, TUint32, TInt64, TUint64}"

text \<open>
  \<open>wt ok v t f\<close>: the value has the type, as the compiler checks, its sizes fit, and binders that
  are read where null is an error (\<open>f\<close> is false) are not null.
\<close>

fun wt :: "('k pval \<Rightarrow> bool) \<Rightarrow> 'k pval \<Rightarrow> ptype \<Rightarrow> bool \<Rightarrow> bool" where
  "wt ok (Bool _) t f \<longleftrightarrow> t = TBool" | "wt ok (Int8 _) t f \<longleftrightarrow> t = TInt8" | "wt ok (Uint8 _) t f \<longleftrightarrow> t = TUint8"
| "wt ok (Char16 _) t f \<longleftrightarrow> t = TChar16" | "wt ok (Int32 _) t f \<longleftrightarrow> t = TInt32" | "wt ok (Uint32 _) t f \<longleftrightarrow> t = TUint32"
| "wt ok (Int64 _) t f \<longleftrightarrow> t = TInt64" | "wt ok (Uint64 _) t f \<longleftrightarrow> t = TUint64" | "wt ok (Float _) t f \<longleftrightarrow> t = TFloat"
| "wt ok (Double _) t f \<longleftrightarrow> t = TDouble" | "wt ok (PString16 x) t f \<longleftrightarrow> t = TString16 \<and> ok (PString16 x)" | "wt ok (PString x) t f \<longleftrightarrow> t = TString \<and> ok (PString x)"
| "wt ok (PUniqueFd x) t f \<longleftrightarrow> t = TUniqueFd \<and> ok (PUniqueFd x)" | "wt ok (PParcelable x) t f \<longleftrightarrow> t = TParcelable \<and> ok (PParcelable x)"
| "wt ok (PEnum v) t f \<longleftrightarrow> (case t of TEnum u \<Rightarrow> enum_type u \<and> wt ok v u False | _ \<Rightarrow> False)"
| "wt ok (PStrongBinder b) t f \<longleftrightarrow> t = TStrongBinder \<and> (f \<or> b \<noteq> 0) \<and> ok (PStrongBinder b)"
| "wt ok (PNullable c e v) t f \<longleftrightarrow> t = TNullable c e \<and> nullable_target e \<and>
     (case v of None \<Rightarrow> True | Some v \<Rightarrow> wt ok v e (is_vector e \<or> is_fixed_array e))"
| "wt ok (PVector e c) t f \<longleftrightarrow> t = TVector e \<and> length c \<le> INT32_MAX \<and> (\<forall>v\<in>set c. wt ok v e (f \<and> e = TStrongBinder))"
| "wt ok (PArray e c) t f \<longleftrightarrow> t = TArray (length c) e \<and> length c \<le> INT32_MAX \<and>
     (\<forall>v\<in>set c. wt ok v e (f \<and> (e = TStrongBinder \<or> is_fixed_array e)))"

section \<open>Layout\<close>

definition pad4 :: "byte list \<Rightarrow> byte list" where
  "pad4 bs = bs @ replicate ((4 - length bs mod 4) mod 4) 0"

definition padded :: "nat \<Rightarrow> nat" where
  "padded n = n + (4 - n mod 4) mod 4"

text \<open>
  Every single value is widened to at least 32 bits; a container is its size followed by its
  elements, which are packed and padded when they are of one byte, and laid out like single
  values otherwise; a parcelable is preceded by 1, null is -1, or 0 for a parcelable.
\<close>

fun layout :: "('k pval \<Rightarrow> byte list) \<Rightarrow> 'k pval \<Rightarrow> byte list" where
  "layout E (Bool b) = enc32 (if b then 1 else 0)"
| "layout E (Int8 x) = enc32 (scast x)" | "layout E (Uint8 x) = enc32 (scast x)"
| "layout E (Char16 c) = enc32 (ucast c)"
| "layout E (Int32 x) = enc32 x" | "layout E (Uint32 x) = enc32 x" | "layout E (Float x) = enc32 x"
| "layout E (Int64 x) = enc64 x" | "layout E (Uint64 x) = enc64 x" | "layout E (Double x) = enc64 x"
| "layout E (PEnum v) = layout E v"
| "layout E (PParcelable k) = enc32 1 @ E (PParcelable k)"
| "layout E (PNullable c t v) = (case v of None \<Rightarrow> enc32 (null_marker t) | Some v \<Rightarrow> layout E v)"
| "layout E (PVector t c) = enc32 (of_nat (length c)) @
     (if is_pointer_equivalent_array t \<and> size_of t = 1 then pad4 (concat (map elem_bytes c))
      else concat (map (layout E) c))"
| "layout E (PArray t c) = enc32 (of_nat (length c)) @
     (if is_pointer_equivalent_array t \<and> size_of t = 1 then pad4 (concat (map elem_bytes c))
      else concat (map (layout E) c))"
| "layout E v = E v"

section \<open>The primitive members\<close>

record 'p view =
  pdata :: "'p \<Rightarrow> byte list"
  ppos :: "'p \<Rightarrow> nat"

definition avail :: "'p view \<Rightarrow> 'p \<Rightarrow> byte list" where
  "avail V p = drop (ppos V p) (pdata V p)"

definition at_end :: "'p view \<Rightarrow> 'p \<Rightarrow> bool" where
  "at_end V p \<longleftrightarrow> ppos V p = length (pdata V p)"

definition appended :: "'p view \<Rightarrow> 'p \<Rightarrow> 'p \<Rightarrow> byte list \<Rightarrow> bool" where
  "appended V p p' bs \<longleftrightarrow> pdata V p' = pdata V p @ bs \<and> at_end V p'"

definition appends :: "'p view \<Rightarrow> ('x, 'p) writer \<Rightarrow> 'x \<Rightarrow> byte list \<Rightarrow> bool" where
  "appends V wr x bs \<longleftrightarrow> (\<forall>p p'. at_end V p \<longrightarrow> wr x p = (status_of OK, p') \<longrightarrow> appended V p p' bs)"

definition writes :: "'p view \<Rightarrow> ('x, 'p) writer \<Rightarrow> ('x \<Rightarrow> byte list) \<Rightarrow> bool" where
  "writes V wr enc \<longleftrightarrow> (\<forall>x. appends V wr x (enc x))"

text \<open>\<open>rd\<close> reads \<open>x\<close> wherever the bytes \<open>bs\<close> lie ahead, and moves past them.\<close>

definition consumes :: "'p view \<Rightarrow> ('x, 'p) reader \<Rightarrow> 'x \<Rightarrow> byte list \<Rightarrow> bool" where
  "consumes V rd x bs \<longleftrightarrow> (\<forall>p rest. avail V p = bs @ rest \<longrightarrow>
     (\<exists>p'. rd p = (Inr x, p') \<and> pdata V p' = pdata V p \<and> ppos V p' = ppos V p + length bs))"

definition reads :: "'p view \<Rightarrow> ('x, 'p) reader \<Rightarrow> ('x \<Rightarrow> byte list) \<Rightarrow> bool" where
  "reads V rd enc \<longleftrightarrow> (\<forall>x. consumes V rd x (enc x))"

text \<open>
  What a successful write of a value appends; the bytes \<open>E\<close> of strings, binders and objects are those
  of the values \<open>ok\<close> only. A descriptor is written as a new one, so its bytes need not follow from its
  number: \<open>ok\<close> may leave descriptors out. \<open>size_t\<close> has 64 bits, or more than enough.
\<close>

definition write_laws :: "('k pval \<Rightarrow> bool) \<Rightarrow> ('p, 'k) parcel_ops \<Rightarrow> 'p view \<Rightarrow> ('k pval \<Rightarrow> byte list) \<Rightarrow> bool" where
  "write_laws ok Q V E \<longleftrightarrow>
     writes V (writeBool Q) (\<lambda>b. enc32 (if b then 1 else 0)) \<and> writes V (writeByte Q) (\<lambda>x. enc32 (scast x)) \<and>
     writes V (writeChar Q) (\<lambda>c. enc32 (ucast c)) \<and>
     writes V (writeInt32 Q) enc32 \<and> writes V (writeUint32 Q) enc32 \<and> writes V (writeFloat Q) enc32 \<and>
     writes V (writeInt64 Q) enc64 \<and> writes V (writeUint64 Q) enc64 \<and> writes V (writeDouble Q) enc64 \<and>
     writes V (write_bytes Q) pad4 \<and>
     (\<forall>s. ok (PString16 s) \<longrightarrow> appends V (writeString16 Q) s (E (PString16 s))) \<and>
     (\<forall>s. ok (PString s) \<longrightarrow> appends V (writeUtf8AsUtf16 Q) s (E (PString s))) \<and>
     (\<forall>d. ok (PUniqueFd d) \<longrightarrow> appends V (writeUniqueFileDescriptor Q) d (E (PUniqueFd d))) \<and>
     (\<forall>b. ok (PStrongBinder b) \<longrightarrow> appends V (writeStrongBinder Q) b (E (PStrongBinder b))) \<and>
     (\<forall>k. ok (PParcelable k) \<longrightarrow> appends V (writeToParcel Q) k (E (PParcelable k))) \<and>
     (\<forall>n p a p' bs. at_end V p \<longrightarrow> writeInplace Q n p = (Some a, p') \<longrightarrow> length bs = n \<longrightarrow> 4 dvd n \<longrightarrow>
        appended V p (poke Q a bs p') bs) \<and>
     2 ^ 34 \<le> size_max Q"

text \<open>Strings start with a length, which is not -1; no encoding is empty.\<close>

definition read_laws :: "('k pval \<Rightarrow> bool) \<Rightarrow> ('p, 'k) parcel_ops \<Rightarrow> 'p view \<Rightarrow> ('k pval \<Rightarrow> byte list) \<Rightarrow> bool" where
  "read_laws ok Q V E \<longleftrightarrow>
     reads V (readBool Q) (\<lambda>b. enc32 (if b then 1 else 0)) \<and> reads V (readByte Q) (\<lambda>x. enc32 (scast x)) \<and>
     reads V (readChar Q) (\<lambda>c. enc32 (ucast c)) \<and>
     reads V (readInt32 Q) enc32 \<and> reads V (readUint32 Q) enc32 \<and> reads V (readFloat Q) enc32 \<and>
     reads V (readInt64 Q) enc64 \<and> reads V (readUint64 Q) enc64 \<and> reads V (readDouble Q) enc64 \<and>
     (\<forall>s. ok (PString16 s) \<longrightarrow> consumes V (readString16 Q) s (E (PString16 s))) \<and>
     (\<forall>s. ok (PString s) \<longrightarrow> consumes V (readUtf8FromUtf16 Q) s (E (PString s))) \<and>
     (\<forall>d. ok (PUniqueFd d) \<longrightarrow> consumes V (readUniqueFileDescriptor Q) d (E (PUniqueFd d))) \<and>
     (\<forall>b. ok (PStrongBinder b) \<longrightarrow> b \<noteq> 0 \<longrightarrow> consumes V (readStrongBinder Q) b (E (PStrongBinder b))) \<and>
     (\<forall>b. ok (PStrongBinder b) \<longrightarrow> consumes V (readNullableStrongBinder Q) b (E (PStrongBinder b))) \<and>
     (\<forall>k. ok (PParcelable k) \<longrightarrow> consumes V (readFromParcel Q) k (E (PParcelable k))) \<and>
     (\<forall>n p. padded n \<le> length (avail V p) \<longrightarrow> (\<exists>p'. readInplace Q n p = (Some (take n (avail V p)), p') \<and>
        pdata V p' = pdata V p \<and> ppos V p' = ppos V p + padded n)) \<and>
     (\<forall>p. dataAvail Q p = length (avail V p)) \<and> (\<forall>p. dataPosition Q p = ppos V p) \<and>
     (\<forall>p n. pdata V (setDataPosition Q n p) = pdata V p \<and> ppos V (setDataPosition Q n p) = n) \<and>
     2 ^ 34 \<le> size_max Q \<and>
     (\<forall>s. ok (PString16 s) \<longrightarrow> (\<exists>m r. E (PString16 s) = enc32 m @ r \<and> m \<noteq> -1)) \<and>
     (\<forall>s. ok (PString s) \<longrightarrow> (\<exists>m r. E (PString s) = enc32 m @ r \<and> m \<noteq> -1)) \<and>
     (\<forall>s. E (PString16 s) \<noteq> []) \<and> (\<forall>s. E (PString s) \<noteq> []) \<and> (\<forall>d. E (PUniqueFd d) \<noteq> []) \<and>
     (\<forall>b. E (PStrongBinder b) \<noteq> [])"

text \<open>
  Two hypotheses on the run, not laws of the members: \<open>new (std::nothrow)\<close> finds memory, and no
  vector's size is lost. \<open>size_lost\<close> follows \<open>writeData\<close> and says whether, on the way, writing the size of
  a vector failed, which \<open>writeData\<close> does not look at.
\<close>

definition allocates :: "('p, 'k) parcel_ops \<Rightarrow> bool" where
  "allocates Q \<longleftrightarrow> (\<forall>p. new_succeeds Q p)"

fun size_lost :: "('p, 'k) parcel_ops \<Rightarrow> 'k pval \<Rightarrow> 'p \<Rightarrow> bool"
and sizes_lost :: "('p, 'k) parcel_ops \<Rightarrow> 'k pval list \<Rightarrow> 'p \<Rightarrow> bool" where
  "size_lost Q (PEnum v) p \<longleftrightarrow> size_lost Q v p"
| "size_lost Q (PNullable c t (Some v)) p \<longleftrightarrow> size_lost Q v p"
| "size_lost Q (PVector t c) p \<longleftrightarrow> length c \<le> INT32_MAX \<and>
     (let (status, p) = writeInt32 Q (of_nat (length c)) p
      in \<not> is_ok status \<or>
         \<not> is_pointer_equivalent_array t \<and> t \<noteq> TBool \<and> t \<noteq> TChar16 \<and> sizes_lost Q c p)"
| "size_lost Q (PArray t val) p \<longleftrightarrow>
     (let (status, p) = writeInt32 Q (of_nat (length val)) p
      in is_ok status \<and> \<not> is_pointer_equivalent_array t \<and> sizes_lost Q val p)"
| "size_lost Q v p \<longleftrightarrow> False"
| "sizes_lost Q [] p \<longleftrightarrow> False"
| "sizes_lost Q (v # vs) p \<longleftrightarrow> size_lost Q v p \<or>
     (let (status, p) = writeData Q v p in is_ok status \<and> sizes_lost Q vs p)"

text \<open>Where integers can always be written, no size is lost.\<close>

lemma size_kept:
  shows "\<forall>x p. fst (writeInt32 Q x p) = status_of OK \<Longrightarrow> \<not> size_lost Q v p"
    and "\<forall>x p. fst (writeInt32 Q x p) = status_of OK \<Longrightarrow> \<not> sizes_lost Q vs p"
proof (induction Q v p and Q vs p rule: size_lost_sizes_lost.induct)
  case (3 Q t c p)
  obtain st p1 where w: "writeInt32 Q (of_nat (length c)) p = (st, p1)" by (rule prod.exhaust)
  have "st = status_of OK" using 3(2) w by (metis fst_conv)
  moreover have "\<not> sizes_lost Q c p1" using 3(1) [OF w [symmetric] refl 3(2)] by simp
  ultimately show ?case using w by simp
qed (auto split: prod.splits)

section \<open>Elements\<close>

lemma enum_elem:
  "wt ok v t False \<Longrightarrow> enum_type t \<Longrightarrow> length (elem_bytes v) = size_of t \<and> elem_of t (elem_bytes v) = v"
  by (cases v) (auto simp: enum_type_def)

lemma elem_roundtrip:
  assumes "wt ok v t False" "is_pointer_equivalent_array t"
  shows "length (elem_bytes v) = size_of t" and "elem_of t (elem_bytes v) = v"
  using assms enum_elem by (cases v; force split: ptype.splits)+

lemma enum_layout:
  "wt ok v t False \<Longrightarrow> enum_type t \<Longrightarrow> size_of t = 4 \<or> size_of t = 8 \<Longrightarrow> elem_bytes v = layout E v"
  by (cases v) (auto simp: enum_type_def)

lemma elem_layout:
  assumes "wt ok v t False" "is_pointer_equivalent_array t" "size_of t \<noteq> 1"
  shows "elem_bytes v = layout E v"
  using assms enum_layout [where E = E] by (cases v) (force split: ptype.splits)+

lemma chunk:
  assumes "\<forall>x\<in>set xs. length (g x) = k" "i < length xs"
  shows "take k (drop (i * k) (concat (map g xs))) = g (xs ! i)"
  using assms by (induction xs arbitrary: i) (auto simp: nth_Cons' less_Suc_eq_0_disj algebra_simps)

lemma length_concat_fixed:
  "\<forall>x\<in>set xs. length (g x) = k \<Longrightarrow> length (concat (map g xs)) = length xs * k"
  by (induction xs) auto

end
