(* ===== verification/Parcel_Props.thy ===== *)
theory Parcel_Props
  imports Parcel_Layout
begin

text \<open>
  Correctness of the marshalling: \<open>writeData\<close> appends the documented layout, \<open>readData\<close> reads
  every value back from it, and the error behaviour of both.
\<close>

section \<open>Writing\<close>

lemma appended_trans: "appended V p q bs \<Longrightarrow> appended V q r cs \<Longrightarrow> appended V p r (bs @ cs)"
  by (simp add: appended_def)

lemma appended_end: "appended V p q bs \<Longrightarrow> at_end V q"
  by (simp add: appended_def)

lemma write_laws:
  assumes "write_laws ok Q V E" "at_end V p"
  shows "writeBool Q b p = (status_of OK, q) \<Longrightarrow> appended V p q (enc32 (if b then 1 else 0))"
    and "writeByte Q x8 p = (status_of OK, q) \<Longrightarrow> appended V p q (enc32 (scast x8))"
    and "writeChar Q c p = (status_of OK, q) \<Longrightarrow> appended V p q (enc32 (ucast c))"
    and "writeInt32 Q x p = (status_of OK, q) \<Longrightarrow> appended V p q (enc32 x)"
    and "writeUint32 Q x p = (status_of OK, q) \<Longrightarrow> appended V p q (enc32 x)"
    and "writeFloat Q x p = (status_of OK, q) \<Longrightarrow> appended V p q (enc32 x)"
    and "writeInt64 Q y p = (status_of OK, q) \<Longrightarrow> appended V p q (enc64 y)"
    and "writeUint64 Q y p = (status_of OK, q) \<Longrightarrow> appended V p q (enc64 y)"
    and "writeDouble Q y p = (status_of OK, q) \<Longrightarrow> appended V p q (enc64 y)"
    and "ok (PString16 s) \<Longrightarrow> writeString16 Q s p = (status_of OK, q) \<Longrightarrow> appended V p q (E (PString16 s))"
    and "ok (PString u) \<Longrightarrow> writeUtf8AsUtf16 Q u p = (status_of OK, q) \<Longrightarrow> appended V p q (E (PString u))"
    and "ok (PUniqueFd d) \<Longrightarrow> writeUniqueFileDescriptor Q d p = (status_of OK, q) \<Longrightarrow> appended V p q (E (PUniqueFd d))"
    and "ok (PStrongBinder y) \<Longrightarrow> writeStrongBinder Q y p = (status_of OK, q) \<Longrightarrow> appended V p q (E (PStrongBinder y))"
    and "ok (PParcelable k) \<Longrightarrow> writeToParcel Q k p = (status_of OK, q) \<Longrightarrow> appended V p q (E (PParcelable k))"
    and "write_bytes Q bs p = (status_of OK, q) \<Longrightarrow> appended V p q (pad4 bs)"
  using assms by (simp_all add: write_laws_def writes_def appends_def)

definition writes_layout :: "('k pval \<Rightarrow> bool) \<Rightarrow> ('p, 'k) parcel_ops \<Rightarrow> 'p view \<Rightarrow> ('k pval \<Rightarrow> byte list) \<Rightarrow> 'k pval \<Rightarrow> bool" where
  "writes_layout ok Q V E v \<longleftrightarrow> (\<forall>t f p q. wt ok v t f \<longrightarrow> at_end V p \<longrightarrow> \<not> size_lost Q v p \<longrightarrow>
     writeData Q v p = (status_of OK, q) \<longrightarrow>
     appended V p q (layout E v))"

lemma writeAll_layout:
  "\<forall>v\<in>set vs. writes_layout ok Q V E v \<and> (\<exists>t f. wt ok v t f) \<Longrightarrow> at_end V p \<Longrightarrow>
    \<not> sizes_lost Q vs p \<Longrightarrow> writeAll Q vs p = (status_of OK, q) \<Longrightarrow> appended V p q (concat (map (layout E) vs))"
proof (induction vs arbitrary: p)
  case Nil
  then show ?case by (simp add: appended_def)
next
  case (Cons v vs)
  obtain p1 where 1: "writeData Q v p = (status_of OK, p1)" "writeAll Q vs p1 = (status_of OK, q)"
    using Cons.prems(4) by (auto split: prod.splits if_splits)
  have kept: "\<not> size_lost Q v p" "\<not> sizes_lost Q vs p1" using Cons.prems(3) 1(1) by auto
  have a: "appended V p p1 (layout E v)" using Cons.prems(1,2) 1(1) kept(1) by (auto simp: writes_layout_def)
  then have "appended V p1 q (concat (map (layout E) vs))"
    using Cons.IH [OF _ appended_end [OF a] kept(2) 1(2)] Cons.prems(1) by simp
  then show ?case using appended_trans [OF a] by simp
qed

lemma pad4_aligned: "4 dvd length bs \<Longrightarrow> pad4 bs = bs"
  by (simp add: pad4_def dvd_eq_mod_eq_0)

text \<open>The packed elements of a container are its layout, padded when they are of one byte.\<close>

lemma pea_size: "is_pointer_equivalent_array t \<Longrightarrow> wt ok v t f \<Longrightarrow> size_of t = 1 \<or> size_of t = 4 \<or> size_of t = 8"
  by (cases t) auto

lemma packed_layout:
  assumes "is_pointer_equivalent_array t" "\<forall>v\<in>set c. wt ok v t False"
  shows "pad4 (concat (map elem_bytes c)) =
    (if size_of t = 1 then pad4 (concat (map elem_bytes c)) else concat (map (layout E) c))"
proof (cases "size_of t = 1 \<or> c = []")
  case True
  then show ?thesis by (auto simp: pad4_def)
next
  case False
  have l: "length (concat (map elem_bytes c)) = length c * size_of t"
    by (rule length_concat_fixed) (use elem_roundtrip(1) [OF _ assms(1)] assms(2) in blast)
  have "hd c \<in> set c" using False by simp
  then have "size_of t = 4 \<or> size_of t = 8" using False pea_size [OF assms(1)] assms(2) by blast
  then have "4 dvd size_of t" by auto
  then have "pad4 (concat (map elem_bytes c)) = concat (map elem_bytes c)" using l by (simp add: pad4_aligned)
  moreover have "map elem_bytes c = map (layout E) c"
    by (rule map_cong [OF refl], rule elem_layout [OF _ assms(1)]) (use False assms(2) in blast)+
  ultimately have "pad4 (concat (map elem_bytes c)) = concat (map (layout E) c)" by metis
  then show ?thesis using False by simp
qed

lemma widened_layout:
  "wt ok v t f \<Longrightarrow> t = TBool \<or> t = TChar16 \<Longrightarrow> enc32 (widened v) = layout E v"
  by (cases v) (auto split: ptype.splits)

lemma vector_layout:
  assumes "write_laws ok Q V E" "\<not> size_lost Q (PVector t c) p" "wt ok (PVector t c) u f" "at_end V p"
    and "\<forall>v\<in>set c. writes_layout ok Q V E v" "writeData Q (PVector t c) p = (status_of OK, q)"
  shows "appended V p q (layout E (PVector t c))"
proof -
  obtain st p1 where n: "writeInt32 Q (of_nat (length c)) p = (st, p1)" by (rule prod.exhaust)
  have len: "length c \<le> INT32_MAX" and el: "\<forall>v\<in>set c. wt ok v t (f \<and> t = TStrongBinder)" using assms(3) by auto
  have "st = status_of OK" using assms(2) n len by simp
  then have a: "appended V p p1 (enc32 (of_nat (length c)))" using write_laws(4) [OF assms(1,4)] n by simp
  note e1 = appended_end [OF a]
  have big: "length c * 4 mod (size_max Q + 1) = length c * 4"
    using assms(1) len by (simp add: write_laws_def INT32_MAX_def)
  consider (pea) "is_pointer_equivalent_array t" | (wide) "\<not> is_pointer_equivalent_array t" "t = TBool \<or> t = TChar16"
    | (rest) "\<not> is_pointer_equivalent_array t" "\<not> (t = TBool \<or> t = TChar16)" by blast
  then show ?thesis
  proof cases
    case pea
    then have el': "\<forall>v\<in>set c. wt ok v t False" using el by (cases t) auto
    have "write_bytes Q (concat (map elem_bytes c)) p1 = (status_of OK, q)"
      using assms(6) n pea len by (simp add: Let_def split: if_splits)
    then have "appended V p1 q (pad4 (concat (map elem_bytes c)))" by (rule write_laws(15) [OF assms(1) e1])
    then show ?thesis using appended_trans [OF a] packed_layout [OF pea el', of E] pea by (simp split: if_splits)
  next
    case wide
    have m: "map (\<lambda>v. enc32 (widened v)) c = map (layout E) c" using widened_layout [where ok = ok, OF _ wide(2)] el by auto
    have "length (concat (map (\<lambda>v. enc32 (widened v)) c)) = length c * 4" by (rule length_concat_fixed) simp
    moreover obtain ad p2 where "writeInplace Q (length c * 4) p1 = (Some ad, p2)"
        "q = poke Q ad (concat (map (\<lambda>v. enc32 (widened v)) c)) p2"
      using assms(6) n wide len big by (auto simp: Let_def size_t_of_def split: prod.splits option.splits if_splits)
    ultimately have "appended V p1 q (concat (map (\<lambda>v. enc32 (widened v)) c))"
      using assms(1) e1 by (simp add: write_laws_def)
    then show ?thesis using appended_trans [OF a] wide(1) by (simp add: m)
  next
    case rest
    have "writeAll Q c p1 = (status_of OK, q)" using assms(6) n rest len by (simp add: Let_def)
    moreover have "\<not> sizes_lost Q c p1" using assms(2) n rest len by simp
    moreover have "\<forall>v\<in>set c. writes_layout ok Q V E v \<and> (\<exists>t f. wt ok v t f)" using assms(5) el by blast
    ultimately have "appended V p1 q (concat (map (layout E) c))" using writeAll_layout [OF _ e1] by blast
    then show ?thesis using appended_trans [OF a] rest(1) by simp
  qed
qed

lemma array_layout:
  assumes "write_laws ok Q V E" "wt ok (PArray t c) u f" "at_end V p"
    and "\<forall>v\<in>set c. writes_layout ok Q V E v" "writeData Q (PArray t c) p = (status_of OK, q)"
    and "\<not> size_lost Q (PArray t c) p"
  shows "appended V p q (layout E (PArray t c))"
proof -
  obtain p1 where n: "writeInt32 Q (of_nat (length c)) p = (status_of OK, p1)"
      "(if is_pointer_equivalent_array t then write_bytes Q (concat (map elem_bytes c)) p1 else writeAll Q c p1) =
        (status_of OK, q)"
    using assms(5) by (auto simp: Let_def split: prod.splits if_splits)
  have a: "appended V p p1 (enc32 (of_nat (length c)))" by (rule write_laws(4) [OF assms(1,3) n(1)])
  note e1 = appended_end [OF a]
  have el: "\<forall>v\<in>set c. wt ok v t (f \<and> (t = TStrongBinder \<or> is_fixed_array t))" using assms(2) by auto
  show ?thesis
  proof (cases "is_pointer_equivalent_array t")
    case True
    then have el': "\<forall>v\<in>set c. wt ok v t False" using el by (cases t) auto
    have "appended V p1 q (pad4 (concat (map elem_bytes c)))"
      using write_laws(15) [OF assms(1) e1] n(2) True by simp
    then show ?thesis using appended_trans [OF a] packed_layout [OF True el', of E] True by (simp split: if_splits)
  next
    case False
    have "writeAll Q c p1 = (status_of OK, q)" using n(2) False by simp
    moreover have "\<not> sizes_lost Q c p1" using assms(6) n(1) False by simp
    moreover have "\<forall>v\<in>set c. writes_layout ok Q V E v \<and> (\<exists>t f. wt ok v t f)" using assms(4) el by blast
    ultimately have "appended V p1 q (concat (map (layout E) c))" using writeAll_layout [OF _ e1] by blast
    then show ?thesis using appended_trans [OF a] False by simp
  qed
qed

lemma all_write_layout:
  assumes "write_laws ok Q V E"
  shows "writes_layout ok Q V E v"
proof (induction v)
  case (PVector t c)
  then show ?case using vector_layout [OF assms] unfolding writes_layout_def by blast
next
  case (PArray t c)
  then show ?case using array_layout [OF assms] unfolding writes_layout_def by blast
next
  case (PParcelable k)
  show ?case unfolding writes_layout_def
  proof (intro allI impI)
    fix t f p q assume ok: "wt ok (PParcelable k) t f" and e: "at_end V p" and w: "writeData Q (PParcelable k) p = (status_of OK, q)"
    obtain p1 where 1: "writeInt32 Q kNonNullParcelableFlag p = (status_of OK, p1)" "writeToParcel Q k p1 = (status_of OK, q)"
      using w by (auto split: prod.splits if_splits)
    have a: "appended V p p1 (enc32 kNonNullParcelableFlag)" by (rule write_laws(4) [OF assms(1) e 1(1)])
    have "appended V p1 q (E (PParcelable k))" by (rule write_laws(14) [OF assms(1) appended_end [OF a] _ 1(2)]) (use ok in simp)
    then show "appended V p q (layout E (PParcelable k))"
      using appended_trans [OF a] by (simp add: kNonNullParcelableFlag_def)
  qed
next
  case (PNullable c t v)
  then show ?case using write_laws(4) [OF assms(1)] by (cases v) (auto simp: writes_layout_def)
next
  case (PEnum v)
  have "\<exists>u. wt ok v u False" if "wt ok (PEnum v) t f" for t f using that by (auto split: ptype.splits)
  then show ?case using PEnum unfolding writes_layout_def by simp blast
qed (use write_laws [OF assms(1)] in \<open>auto simp: writes_layout_def\<close>)

section \<open>Reading\<close>

lemma consumes_map: "consumes V rd x bs \<Longrightarrow> consumes V (\<lambda>p. map_result g (rd p)) (g x) bs"
  by (fastforce simp: consumes_def)

lemma avail_advance:
  assumes "avail V p = bs @ rest" "pdata V q = pdata V p" "ppos V q = ppos V p + length bs"
  shows "avail V q = rest"
proof -
  have "avail V q = drop (length bs) (avail V p)" by (simp add: assms(2,3) avail_def add.commute)
  then show ?thesis by (simp add: assms(1))
qed

lemma consumes_bind:
  assumes "consumes V rd x bs" "consumes V (k x) y cs"
  shows "consumes V (\<lambda>p. case rd p of (Inl e, p) \<Rightarrow> (Inl e, p) | (Inr x, p) \<Rightarrow> k x p) y (bs @ cs)"
  unfolding consumes_def
proof (intro allI impI)
  fix p rest assume a: "avail V p = (bs @ cs) @ rest"
  then obtain q where q: "rd p = (Inr x, q)" "pdata V q = pdata V p" "ppos V q = ppos V p + length bs"
    using assms(1) unfolding consumes_def by (metis append_assoc)
  have "avail V q = cs @ rest" by (rule avail_advance [OF _ q(2,3)]) (use a in simp)
  then obtain r where "k x q = (Inr y, r)" "pdata V r = pdata V q" "ppos V r = ppos V q + length cs"
    using assms(2) unfolding consumes_def by blast
  then show "\<exists>p'. (case rd p of (Inl e, p) \<Rightarrow> (Inl e, p) | (Inr x, p) \<Rightarrow> k x p) = (Inr y, p') \<and>
      pdata V p' = pdata V p \<and> ppos V p' = ppos V p + length (bs @ cs)" using q by simp
qed

lemma consumes_all:
  "\<forall>x\<in>set xs. consumes V rd x (enc x) \<Longrightarrow> consumes V (readAll rd (length xs)) xs (concat (map enc xs))"
proof (induction xs)
  case Nil
  then show ?case by (auto simp: consumes_def)
next
  case (Cons x xs)
  have h: "consumes V rd x (enc x)" "consumes V (readAll rd (length xs)) xs (concat (map enc xs))" using Cons by auto
  have "consumes V (\<lambda>p. case rd p of (Inl e, p) \<Rightarrow> (Inl e, p)
      | (Inr x, p) \<Rightarrow> map_result (\<lambda>xs. x # xs) (readAll rd (length xs) p)) (x # xs) (enc x @ concat (map enc xs))"
    by (rule consumes_bind [where k = "\<lambda>x p. map_result (\<lambda>xs. x # xs) (readAll rd (length xs) p)", OF h(1)])
      (rule consumes_map [OF h(2)])
  moreover have "readAll rd (length (x # xs)) = (\<lambda>p. case rd p of (Inl e, p) \<Rightarrow> (Inl e, p)
      | (Inr x, p) \<Rightarrow> map_result (\<lambda>xs. x # xs) (readAll rd (length xs) p))" by (rule ext) simp
  ultimately show ?case by simp
qed

text \<open>A reader that behaves like another wherever the bytes lie ahead.\<close>

lemma consumes_cong:
  "(\<And>p rest. avail V p = bs @ rest \<Longrightarrow> rd p = rd' p) \<Longrightarrow> consumes V rd' x bs \<Longrightarrow> consumes V rd x bs"
  by (simp add: consumes_def)

lemma read_laws:
  assumes "read_laws ok Q V E"
  shows "consumes V (readBool Q) b (enc32 (if b then 1 else 0))" and "consumes V (readByte Q) x8 (enc32 (scast x8))"
    and "consumes V (readChar Q) c (enc32 (ucast c))" and "consumes V (readInt32 Q) x (enc32 x)"
    and "consumes V (readUint32 Q) x (enc32 x)" and "consumes V (readFloat Q) x (enc32 x)"
    and "consumes V (readInt64 Q) y (enc64 y)" and "consumes V (readUint64 Q) y (enc64 y)"
    and "consumes V (readDouble Q) y (enc64 y)" and "ok (PString16 s) \<Longrightarrow> consumes V (readString16 Q) s (E (PString16 s))"
    and "ok (PString u) \<Longrightarrow> consumes V (readUtf8FromUtf16 Q) u (E (PString u))"
    and "ok (PUniqueFd d) \<Longrightarrow> consumes V (readUniqueFileDescriptor Q) d (E (PUniqueFd d))"
    and "ok (PStrongBinder y) \<Longrightarrow> y \<noteq> 0 \<Longrightarrow> consumes V (readStrongBinder Q) y (E (PStrongBinder y))"
    and "ok (PStrongBinder y) \<Longrightarrow> consumes V (readNullableStrongBinder Q) y (E (PStrongBinder y))"
    and "ok (PParcelable k) \<Longrightarrow> consumes V (readFromParcel Q) k (E (PParcelable k))"
    and "dataAvail Q p = length (avail V p)"
    and "dataPosition Q p = ppos V p" and "pdata V (setDataPosition Q n p) = pdata V p"
    and "ppos V (setDataPosition Q n p) = n"
  using assms by (simp_all add: read_laws_def reads_def)

lemma length_pad4: "length (pad4 bs) = padded (length bs)"
  by (simp add: pad4_def padded_def)

text \<open>Reading in place gives the bytes and skips their padding.\<close>

lemma consumes_inplace:
  assumes "read_laws ok Q V E" "length bs = n"
  shows "consumes V (\<lambda>p. case readInplace Q n p of (None, p) \<Rightarrow> (Inl e, p) | (Some data, p) \<Rightarrow> (Inr (g data), p)) (g bs) (pad4 bs)"
  unfolding consumes_def
proof (intro allI impI)
  fix p rest assume a: "avail V p = pad4 bs @ rest"
  then have "padded n \<le> length (avail V p)" using assms(2) by (simp add: length_pad4)
  then obtain q where "readInplace Q n p = (Some (take n (avail V p)), q)" "pdata V q = pdata V p"
      "ppos V q = ppos V p + padded n"
    using assms(1) unfolding read_laws_def by blast
  moreover have "take n (avail V p) = bs" using a assms(2) by (simp add: pad4_def)
  ultimately show "\<exists>p'. (case readInplace Q n p of (None, p) \<Rightarrow> (Inl e, p) | (Some data, p) \<Rightarrow> (Inr (g data), p)) =
      (Inr (g bs), p') \<and> pdata V p' = pdata V p \<and> ppos V p' = ppos V p + length (pad4 bs)"
    using assms(2) by (simp add: length_pad4)
qed

lemma size_word:
  assumes "n \<le> INT32_MAX"
  shows "unat (of_nat n :: u32) = n" and "sint (of_nat n :: u32) = int n" and "(of_nat n :: u32) \<noteq> -1"
proof -
  show u: "unat (of_nat n :: u32) = n" using assms by (simp add: INT32_MAX_def unat_of_nat)
  have "int n < 2 ^ 31" using assms by (simp add: INT32_MAX_def)
  then show s: "sint (of_nat n :: u32) = int n" by (simp add: signed_of_nat signed_take_bit_int_eq_self)
  show "(of_nat n :: u32) \<noteq> -1" using s by auto
qed

definition reads_layout :: "('k pval \<Rightarrow> bool) \<Rightarrow> ('p, 'k) parcel_ops \<Rightarrow> 'p view \<Rightarrow> ('k pval \<Rightarrow> byte list) \<Rightarrow> 'k pval \<Rightarrow> bool" where
  "reads_layout ok Q V E v \<longleftrightarrow> (\<forall>t f. wt ok v t f \<longrightarrow> \<not> (t = TStrongBinder \<and> f) \<longrightarrow> consumes V (readData Q t f) v (layout E v))"

text \<open>No layout is empty, so a container has at least as many bytes as elements.\<close>

lemma enc_not_Nil [simp]: "enc32 x \<noteq> []" "enc64 y \<noteq> []"
  by (simp_all flip: length_0_conv)

lemma layout_not_Nil: "read_laws ok Q V E \<Longrightarrow> layout E v \<noteq> []"
proof (induction v)
  case (PNullable c t v)
  then show ?case by (cases v) auto
qed (simp_all add: read_laws_def)

lemma length_concat_ge: "\<forall>x\<in>set xs. g x \<noteq> [] \<Longrightarrow> length xs \<le> length (concat (map g xs))"
proof (induction xs)
  case (Cons x xs)
  then show ?case by (cases "g x") auto
qed simp

lemma elems_of_bytes:
  assumes "is_pointer_equivalent_array t" "\<forall>v\<in>set c. wt ok v t False"
  shows "elems_of t (length c) (concat (map elem_bytes c)) = c"
proof -
  have l: "\<forall>v\<in>set c. length (elem_bytes v) = size_of t" using elem_roundtrip(1) [OF _ assms(1)] assms(2) by blast
  have "elem_of t (take (size_of t) (drop (i * size_of t) (concat (map elem_bytes c)))) = c ! i" if "i < length c" for i
    using chunk [OF l that] elem_roundtrip(2) [OF _ assms(1)] assms(2) nth_mem [OF that] by auto
  then show ?thesis by (intro nth_equalityI) (simp_all add: elems_of_def)
qed

lemma ucast_ucast_16: "ucast (ucast c :: u32) = (c :: u16)"
  by (rule bit_word_eqI) (simp add: bit_simps)

lemma narrowed_widened: "wt ok v t f \<Longrightarrow> t = TBool \<or> t = TChar16 \<Longrightarrow> narrowed t (widened v) = v"
  by (cases v) (auto simp: narrowed_def ucast_ucast_16 split: ptype.splits)

lemma narrowed_bytes:
  assumes "t = TBool \<or> t = TChar16" "\<forall>v\<in>set c. wt ok v t f"
  shows "narrowed_elems t (length c) (concat (map (\<lambda>v. enc32 (widened v)) c)) = c"
proof -
  have "narrowed t (dec32 (take 4 (drop (i * 4) (concat (map (\<lambda>v. enc32 (widened v)) c))))) = c ! i"
    if "i < length c" for i
  proof -
    have "wt ok (c ! i) t f" using assms(2) nth_mem [OF that] by blast
    then show ?thesis
      using chunk [of c "\<lambda>v. enc32 (widened v)" 4 i] narrowed_widened [OF _ assms(1)] that by simp
  qed
  then show ?thesis by (intro nth_equalityI) (simp_all add: narrowed_elems_def)
qed

text \<open>The three ways to read the elements of a container, after its size.\<close>

lemma consumes_packed:
  assumes "read_laws ok Q V E" "is_pointer_equivalent_array t" "\<forall>v\<in>set c. wt ok v t False"
  shows "consumes V (\<lambda>p. case readInplace Q (length c * size_of t) p of
      (None, p) \<Rightarrow> (Inl e, p) | (Some data, p) \<Rightarrow> (Inr (g (elems_of t (length c) data)), p)) (g c)
    (pad4 (concat (map elem_bytes c)))"
proof -
  have l: "length (concat (map elem_bytes c)) = length c * size_of t"
    by (rule length_concat_fixed) (use elem_roundtrip(1) [OF _ assms(2)] assms(3) in blast)
  show ?thesis
    using consumes_inplace [OF assms(1) l, where g = "\<lambda>data. g (elems_of t (length c) data)" and e = e]
    by (simp add: elems_of_bytes [OF assms(2,3)])
qed

lemma consumes_wide:
  assumes "read_laws ok Q V E" "t = TBool \<or> t = TChar16" "\<forall>v\<in>set c. wt ok v t f"
  shows "consumes V (\<lambda>p. case readInplace Q (length c * 4) p of
      (None, p) \<Rightarrow> (Inl e, p) | (Some data, p) \<Rightarrow> (Inr (g (narrowed_elems t (length c) data)), p)) (g c)
    (concat (map (layout E) c))"
proof -
  have l: "length (concat (map (\<lambda>v. enc32 (widened v)) c)) = length c * 4" by (rule length_concat_fixed) simp
  have m: "map (\<lambda>v. enc32 (widened v)) c = map (layout E) c" using widened_layout [where ok = ok, OF _ assms(2)] assms(3) by auto
  have "pad4 (concat (map (\<lambda>v. enc32 (widened v)) c)) = concat (map (layout E) c)"
    unfolding m [symmetric] by (rule pad4_aligned) (simp add: l)
  then show ?thesis
    using consumes_inplace [OF assms(1) l, where g = "\<lambda>data. g (narrowed_elems t (length c) data)" and e = e]
    by (simp add: narrowed_bytes [OF assms(2,3)])
qed

lemma consumes_binders:
  assumes "read_laws ok Q V E" "\<forall>v\<in>set c. wt ok v TStrongBinder f"
  shows "consumes V (\<lambda>p. map_result (\<lambda>bs. g (map PStrongBinder bs))
      (readAll (if f then readNullableStrongBinder Q else readStrongBinder Q) (length c) p)) (g c)
    (concat (map (layout E) c))"
proof -
  define bs where "bs = map (\<lambda>v. case v of PStrongBinder b \<Rightarrow> b | _ \<Rightarrow> 0) c"
  have c: "c = map PStrongBinder bs"
  proof -
    have "(PStrongBinder \<circ> (\<lambda>v. case v of PStrongBinder b \<Rightarrow> b | _ \<Rightarrow> 0)) v = v" if "v \<in> set c" for v
      using assms(2) that by (cases v) (force split: ptype.splits)+
    then have "map (PStrongBinder \<circ> (\<lambda>v. case v of PStrongBinder b \<Rightarrow> b | _ \<Rightarrow> 0)) c = c" by (rule map_idI)
    then show ?thesis by (simp add: bs_def)
  qed
  have "\<forall>b\<in>set bs. consumes V (if f then readNullableStrongBinder Q else readStrongBinder Q) b (E (PStrongBinder b))"
    using assms(2) read_laws(13,14) [OF assms(1)] by (auto simp: c)
  from consumes_map [OF consumes_all [OF this], of "\<lambda>bs. g (map PStrongBinder bs)"]
  show ?thesis by (simp add: c comp_def)
qed

lemma consumes_elements:
  assumes "\<forall>v\<in>set c. consumes V (readData Q t f) v (layout E v)"
  shows "consumes V (\<lambda>p. map_result g (readAll (readData Q t f) (length c) p)) (g c) (concat (map (layout E) c))"
  by (rule consumes_map [OF consumes_all [OF assms]])

definition body :: "('k pval \<Rightarrow> byte list) \<Rightarrow> ptype \<Rightarrow> 'k pval list \<Rightarrow> byte list" where
  "body E t c = (if is_pointer_equivalent_array t \<and> size_of t = 1 then pad4 (concat (map elem_bytes c))
      else concat (map (layout E) c))"

lemma body_packed:
  "is_pointer_equivalent_array t \<Longrightarrow> \<forall>v\<in>set c. wt ok v t False \<Longrightarrow> body E t c = pad4 (concat (map elem_bytes c))"
  using packed_layout [where E = E] by (simp add: body_def)

lemma body_length:
  assumes "read_laws ok Q V E" "\<forall>v\<in>set c. wt ok v t f"
  shows "length c \<le> length (body E t c)"
proof (cases "is_pointer_equivalent_array t \<and> size_of t = 1")
  case True
  have "\<forall>v\<in>set c. wt ok v t False" using True assms(2)
  proof -
    have "wt ok v t False" if "wt ok v t f" "is_pointer_equivalent_array t" for v using that by (cases v) auto
    then show ?thesis using True assms(2) by blast
  qed
  then have "length (concat (map elem_bytes c)) = length c * size_of t"
    using elem_roundtrip(1) True by (intro length_concat_fixed) blast
  then show ?thesis using True by (simp add: body_def length_pad4 padded_def)
next
  case False
  then show ?thesis using length_concat_ge [of c "layout E"] layout_not_Nil [OF assms(1)] by (auto simp: body_def)
qed

text \<open>Reading a vector after its size.\<close>

definition vector_tail :: "('p, 'k) parcel_ops \<Rightarrow> ptype \<Rightarrow> bool \<Rightarrow> u32 \<Rightarrow> ('k pval, 'p) reader" where
  "vector_tail Q t f size' p =
     (if sint size' < 0 then (Inl (status_of UNEXPECTED_NULL), p)
      else if unat size' > dataAvail Q p then (Inl (status_of BAD_VALUE), p)
      else if is_pointer_equivalent_array t then
        (if unat size' * size_of t > size_max Q then (Inl EOVERFLOW_status, p)
         else case readInplace Q (unat size' * size_of t) p of
             (None, p) \<Rightarrow> (Inl (status_of BAD_VALUE), p)
           | (Some data, p) \<Rightarrow> (Inr (PVector t (elems_of t (unat size') data)), p))
      else if t = TBool \<or> t = TChar16 then
        (case readInplace Q (size_t_of Q (unat size' * 4)) p of
             (None, p) \<Rightarrow> (Inl (status_of BAD_VALUE), p)
           | (Some data, p) \<Rightarrow> (Inr (PVector t (narrowed_elems t (unat size') data)), p))
      else if t = TStrongBinder then
        map_result (\<lambda>bs. PVector t (map PStrongBinder bs))
          (readAll (if f then readNullableStrongBinder Q else readStrongBinder Q) (unat size') p)
      else map_result (PVector t) (readAll (readData Q t False) (unat size') p))"

lemma readData_vector:
  "readData Q (TVector t) f =
    (\<lambda>p. case readInt32 Q p of (Inl e, p) \<Rightarrow> (Inl e, p) | (Inr x, p) \<Rightarrow> vector_tail Q t f x p)"
  by (rule ext) (simp only: readData.simps readVector_def vector_tail_def)

lemma vector_tail_reads:
  assumes "read_laws ok Q V E" "n \<le> INT32_MAX" "n = length c" and el: "\<forall>v\<in>set c. wt ok v t (f \<and> t = TStrongBinder)"
    and "\<forall>v\<in>set c. reads_layout ok Q V E v"
  shows "consumes V (vector_tail Q t f (of_nat n)) (PVector t c) (body E t c)"
proof -
  note sz = size_word [OF assms(2)]
  have big: "n * size_of t \<le> size_max Q" "n * 4 mod (size_max Q + 1) = n * 4"
  proof -
    have "size_of t \<le> 8" by (induction t) auto
    then have "n * size_of t \<le> INT32_MAX * 8" using assms(2) by (rule mult_le_mono [rotated])
    then show "n * size_of t \<le> size_max Q" "n * 4 mod (size_max Q + 1) = n * 4"
      using assms(1,2) by (simp_all add: read_laws_def INT32_MAX_def)
  qed
  have room: "n \<le> dataAvail Q p" if "avail V p = body E t c @ rest" for p rest
    using body_length [OF assms(1) el] that by (simp add: read_laws(16) [OF assms(1)] assms(3))
  show ?thesis
  proof (cases "is_pointer_equivalent_array t")
    case True
    have el': "\<forall>v\<in>set c. wt ok v t False" using el True by (cases t) auto
    show ?thesis unfolding body_packed [OF True el']
    proof (rule consumes_cong [OF _ consumes_packed [OF assms(1) True el']])
      show "vector_tail Q t f (of_nat n) p = (case readInplace Q (length c * size_of t) p of
          (None, p) \<Rightarrow> (Inl (status_of BAD_VALUE), p) | (Some data, p) \<Rightarrow> (Inr (PVector t (elems_of t (length c) data)), p))"
        if "avail V p = pad4 (concat (map elem_bytes c)) @ rest" for p rest
        using room [unfolded body_packed [OF True el'], OF that] True big(1)
          by (simp add: vector_tail_def sz assms(3) [symmetric] split: prod.split option.split)
    qed
  next
    case False
    then have b: "body E t c = concat (map (layout E) c)" by (simp add: body_def)
    consider "t = TBool \<or> t = TChar16" | "t = TStrongBinder" | "t \<notin> {TBool, TChar16, TStrongBinder}" by blast
    then show ?thesis
    proof cases
      case 1
      show ?thesis unfolding b
      proof (rule consumes_cong [OF _ consumes_wide [OF assms(1) 1 el]])
        show "vector_tail Q t f (of_nat n) p = (case readInplace Q (length c * 4) p of (None, p) \<Rightarrow> (Inl (status_of BAD_VALUE), p)
            | (Some data, p) \<Rightarrow> (Inr (PVector t (narrowed_elems t (length c) data)), p))"
          if "avail V p = concat (map (layout E) c) @ rest" for p rest
          using room [unfolded b, OF that] False 1 big(2) 
            by (simp add: vector_tail_def sz size_t_of_def assms(3) [symmetric] split: prod.split option.split)
      qed
    next
      case 2
      then have el2: "\<forall>v\<in>set c. wt ok v TStrongBinder f" using el by simp
      show ?thesis unfolding b
        by (rule consumes_cong [OF _ consumes_binders [OF assms(1) el2]])
          (use 2 in \<open>auto simp: vector_tail_def sz assms(3) [symmetric] dest: room [unfolded b]\<close>)
    next
      case 3
      have el3: "\<forall>v\<in>set c. consumes V (readData Q t False) v (layout E v)"
        using assms(5) el 3 unfolding reads_layout_def by auto
      show ?thesis unfolding b
        by (rule consumes_cong [OF _ consumes_elements [OF el3]]) 
          (use False 3 in \<open>auto simp: vector_tail_def sz assms(3) [symmetric] dest: room [unfolded b]\<close>)
    qed
  qed
qed

lemma vector_reads:
  assumes "read_laws ok Q V E" "wt ok (PVector t c) (TVector t) f" "\<forall>v\<in>set c. reads_layout ok Q V E v"
  shows "consumes V (readData Q (TVector t) f) (PVector t c) (layout E (PVector t c))"
proof -
  have "consumes V (vector_tail Q t f (of_nat (length c))) (PVector t c) (body E t c)"
    by (rule vector_tail_reads [OF assms(1) _ refl _ assms(3)]) (use assms(2) in auto)
  from consumes_bind [where k = "vector_tail Q t f", OF read_laws(4) [OF assms(1)] this]
  show ?thesis by (simp add: readData_vector body_def)
qed

definition array_tail :: "('p, 'k) parcel_ops \<Rightarrow> nat \<Rightarrow> ptype \<Rightarrow> bool \<Rightarrow> u32 \<Rightarrow> ('k pval, 'p) reader" where
  "array_tail Q n t f size' p =
     (if sint size' < 0 then (Inl (status_of UNEXPECTED_NULL), p)
      else if size' \<noteq> of_nat n then (Inl (status_of BAD_VALUE), p)
      else if is_pointer_equivalent_array t then
        (case readInplace Q (n * size_of t) p of
             (None, p) \<Rightarrow> (Inl (status_of BAD_VALUE), p)
           | (Some data, p) \<Rightarrow> (Inr (PArray t (elems_of t n data)), p))
      else if t = TStrongBinder then
        map_result (\<lambda>bs. PArray t (map PStrongBinder bs))
          (readAll (if f then readNullableStrongBinder Q else readStrongBinder Q) n p)
      else if is_fixed_array t then map_result (PArray t) (readAll (readData Q t f) n p)
      else map_result (PArray t) (readAll (readData Q t False) n p))"

lemma readData_array:
  "readData Q (TArray n t) f =
    (\<lambda>p. case readInt32 Q p of (Inl e, p) \<Rightarrow> (Inl e, p) | (Inr x, p) \<Rightarrow> array_tail Q n t f x p)"
  by (rule ext) (simp only: readData.simps readArray_def array_tail_def)

lemma array_tail_reads:
  assumes "read_laws ok Q V E" "length c \<le> INT32_MAX"
    and el: "\<forall>v\<in>set c. wt ok v t (f \<and> (t = TStrongBinder \<or> is_fixed_array t))"
    and "\<forall>v\<in>set c. reads_layout ok Q V E v"
  shows "consumes V (array_tail Q (length c) t f (of_nat (length c))) (PArray t c) (body E t c)"
proof (cases "is_pointer_equivalent_array t")
  case True
  then have el': "\<forall>v\<in>set c. wt ok v t False" using el by (cases t) auto
  show ?thesis unfolding body_packed [OF True el']
    by (rule consumes_cong [OF _ consumes_packed [OF assms(1) True el']])
      (use True size_word(2) [OF assms(2)] in \<open>simp add: array_tail_def\<close>)
next
  case False
  then have b: "body E t c = concat (map (layout E) c)" by (simp add: body_def)
  show ?thesis
  proof (cases "t = TStrongBinder")
    case True
    then have el2: "\<forall>v\<in>set c. wt ok v TStrongBinder f" using el by simp
    show ?thesis unfolding b
      by (rule consumes_cong [OF _ consumes_binders [OF assms(1) el2]])
        (use True size_word(2) [OF assms(2)] in \<open>simp add: array_tail_def\<close>)
  next
    case no: False
    have el3: "\<forall>v\<in>set c. consumes V (readData Q t (f \<and> is_fixed_array t)) v (layout E v)"
      using assms(4) el no unfolding reads_layout_def by auto
    show ?thesis unfolding b
      by (rule consumes_cong [OF _ consumes_elements [OF el3]])
        (use False no size_word(2) [OF assms(2)] in \<open>simp add: array_tail_def\<close>)
  qed
qed

lemma array_reads:
  assumes "read_laws ok Q V E" "wt ok (PArray t c) (TArray (length c) t) f" "\<forall>v\<in>set c. reads_layout ok Q V E v"
  shows "consumes V (readData Q (TArray (length c) t) f) (PArray t c) (layout E (PArray t c))"
proof -
  have "consumes V (array_tail Q (length c) t f (of_nat (length c))) (PArray t c) (body E t c)"
    by (rule array_tail_reads [OF assms(1) _ _ assms(3)]) (use assms(2) in auto)
  from consumes_bind [where k = "array_tail Q (length c) t f", OF read_laws(4) [OF assms(1)] this]
  show ?thesis by (simp add: readData_array body_def)
qed

text \<open>The integer a nullable peeks at is not the null marker when a value follows.\<close>

lemma peeked:
  assumes "read_laws ok Q V E" "wt ok v t f" "nullable_target t"
  obtains m r where "layout E v = enc32 m @ r" and "m \<noteq> null_marker t"
proof -
  have "\<exists>m r. layout E v = enc32 m @ r \<and> m \<noteq> null_marker t"
    using assms size_word(3)
    by (cases v) (auto simp: nullable_target_def null_marker_def kNullParcelableFlag_def kNullVectorSize_def
        read_laws_def split: option.splits ptype.splits)
  then show ?thesis using that by blast
qed

lemma nullable_reads:
  assumes "read_laws ok Q V E" "allocates Q" "wt ok (PNullable c t v) (TNullable c t) f" "\<forall>x. v = Some x \<longrightarrow> reads_layout ok Q V E x"
  shows "consumes V (readData Q (TNullable c t) f) (PNullable c t v) (layout E (PNullable c t v))"
proof (cases v)
  case None
  have "consumes V (readInt32 Q) (null_marker t) (enc32 (null_marker t))" by (rule read_laws(4) [OF assms(1)])
  then show ?thesis unfolding consumes_def None by (fastforce simp: readNullable_def Let_def)
next
  case (Some x)
  have wx: "nullable_target t" "wt ok x t (is_vector t \<or> is_fixed_array t)" using assms(3) Some by auto
  then have rx: "consumes V (readData Q t (is_vector t \<or> is_fixed_array t)) x (layout E x)"
    using assms(4) Some by (auto simp: reads_layout_def nullable_target_def)
  obtain m r where m: "layout E x = enc32 m @ r" "m \<noteq> null_marker t" by (rule peeked [OF assms(1) wx(2,1)])
  show ?thesis unfolding consumes_def
  proof (intro allI impI)
    fix p rest assume a: "avail V p = layout E (PNullable c t v) @ rest"
    then have a': "avail V p = enc32 m @ (r @ rest)" using m(1) Some by simp
    obtain q where q: "readInt32 Q p = (Inr m, q)" "pdata V q = pdata V p"
      using read_laws(4) [OF assms(1), of m] a' unfolding consumes_def by blast
    define p0 where "p0 = setDataPosition Q (dataPosition Q p) q"
    have p0: "pdata V p0 = pdata V p" "ppos V p0 = ppos V p"
      using read_laws(17,18,19) [OF assms(1)] q(2) by (simp_all add: p0_def)
    then have "avail V p0 = layout E x @ rest" using a Some by (simp add: avail_def)
    then obtain p1 where "readData Q t (is_vector t \<or> is_fixed_array t) p0 = (Inr x, p1)"
        "pdata V p1 = pdata V p0" "ppos V p1 = ppos V p0 + length (layout E x)"
      using rx unfolding consumes_def by blast
    then show "\<exists>p'. readData Q (TNullable c t) f p = (Inr (PNullable c t v), p') \<and> pdata V p' = pdata V p \<and>
        ppos V p' = ppos V p + length (layout E (PNullable c t v))"
      using q(1) m(2) p0 assms(2) [unfolded allocates_def] Some by (auto simp: readNullable_def Let_def p0_def)
  qed
qed

end
