(* ===== verification/Parcel_Roundtrip.thy ===== *)
theory Parcel_Roundtrip
  imports Parcel_Props
begin

text \<open>
  The properties of the marshalling, and a parcel made of bytes with primitive members that
  behave as documented, on which they are evaluated.
\<close>

definition parcelable_tail :: "('p, 'k) parcel_ops \<Rightarrow> u32 \<Rightarrow> ('k pval, 'p) reader" where
  "parcelable_tail Q present p =
     (if present \<noteq> kNonNullParcelableFlag then (Inl (status_of UNEXPECTED_NULL), p)
      else map_result PParcelable (readFromParcel Q p))"

lemma readData_parcelable:
  "readData Q TParcelable f =
    (\<lambda>p. case readInt32 Q p of (Inl e, p) \<Rightarrow> (Inl e, p) | (Inr x, p) \<Rightarrow> parcelable_tail Q x p)"
  by (rule ext) (simp only: readData.simps parcelable_tail_def)

lemma readData_leaf:
  "readData Q TBool f = (\<lambda>p. map_result Bool (readBool Q p))"
  "readData Q TInt8 f = (\<lambda>p. map_result Int8 (readByte Q p))"
  "readData Q TUint8 f = (\<lambda>p. map_result Uint8 (readByte Q p))"
  "readData Q TChar16 f = (\<lambda>p. map_result Char16 (readChar Q p))"
  "readData Q TInt32 f = (\<lambda>p. map_result Int32 (readInt32 Q p))"
  "readData Q TUint32 f = (\<lambda>p. map_result Uint32 (readUint32 Q p))"
  "readData Q TFloat f = (\<lambda>p. map_result Float (readFloat Q p))"
  "readData Q TInt64 f = (\<lambda>p. map_result Int64 (readInt64 Q p))"
  "readData Q TUint64 f = (\<lambda>p. map_result Uint64 (readUint64 Q p))"
  "readData Q TDouble f = (\<lambda>p. map_result Double (readDouble Q p))"
  "readData Q TString16 f = (\<lambda>p. map_result PString16 (readString16 Q p))"
  "readData Q TString f = (\<lambda>p. map_result PString (readUtf8FromUtf16 Q p))"
  "readData Q TUniqueFd f = (\<lambda>p. map_result PUniqueFd (readUniqueFileDescriptor Q p))"
  "readData Q TStrongBinder f = (\<lambda>p. map_result PStrongBinder (readStrongBinder Q p))"
  by (rule ext, simp)+

lemma leaf_reads:
  assumes "read_laws ok Q V E"
  shows "consumes V (readData Q TBool f) (Bool x) (enc32 (if x then 1 else 0))"
    and "consumes V (readData Q TInt8 f) (Int8 x8) (enc32 (scast x8))"
    and "consumes V (readData Q TUint8 f) (Uint8 x8) (enc32 (scast x8))"
    and "consumes V (readData Q TChar16 f) (Char16 c) (enc32 (ucast c))"
    and "consumes V (readData Q TInt32 f) (Int32 y) (enc32 y)"
    and "consumes V (readData Q TUint32 f) (Uint32 y) (enc32 y)"
    and "consumes V (readData Q TFloat f) (Float y) (enc32 y)"
    and "consumes V (readData Q TInt64 f) (Int64 z) (enc64 z)"
    and "consumes V (readData Q TUint64 f) (Uint64 z) (enc64 z)"
    and "consumes V (readData Q TDouble f) (Double z) (enc64 z)"
    and "ok (PString16 s) \<Longrightarrow> consumes V (readData Q TString16 f) (PString16 s) (E (PString16 s))"
    and "ok (PString u) \<Longrightarrow> consumes V (readData Q TString f) (PString u) (E (PString u))"
    and "ok (PUniqueFd d) \<Longrightarrow> consumes V (readData Q TUniqueFd f) (PUniqueFd d) (E (PUniqueFd d))"
    and "ok (PStrongBinder b) \<Longrightarrow> b \<noteq> 0 \<Longrightarrow> consumes V (readData Q TStrongBinder f) (PStrongBinder b) (E (PStrongBinder b))"
  unfolding readData_leaf by (blast intro: consumes_map read_laws [OF assms])+

lemma all_reads_layout:
  assumes laws: "read_laws ok Q V E" and mem: "allocates Q"
  shows "reads_layout ok Q V E v"
proof (induction v)
  case (PVector t c)
  then show ?case using vector_reads [OF laws] by (auto simp: reads_layout_def)
next
  case (PArray t c)
  then show ?case using array_reads [OF laws] by (auto simp: reads_layout_def)
next
  case (PNullable c t v)
  then have "\<forall>x. v = Some x \<longrightarrow> reads_layout ok Q V E x" by auto
  then show ?case using nullable_reads [OF laws mem] by (auto simp: reads_layout_def)
next
  case (PEnum v)
  show ?case unfolding reads_layout_def
  proof (intro allI impI)
    fix t f assume w: "wt ok (PEnum v) t f"
    then obtain u where u: "t = TEnum u" "wt ok v u False" by (auto split: ptype.splits)
    then have "consumes V (readData Q u False) v (layout E v)" using PEnum by (simp add: reads_layout_def)
    from consumes_map [OF this, of PEnum] show "consumes V (readData Q t f) (PEnum v) (layout E (PEnum v))"
      unfolding layout.simps by (rule consumes_cong [rotated]) (simp add: u)
  qed
next
  case (PParcelable k)
  show ?case unfolding reads_layout_def
  proof (intro allI impI)
    fix t f assume w: "wt ok (PParcelable k) t f"
    have "consumes V (\<lambda>p. map_result PParcelable (readFromParcel Q p)) (PParcelable k) (E (PParcelable k))"
      by (rule consumes_map) (use w read_laws(15) [OF laws] in simp)
    then have "consumes V (parcelable_tail Q 1) (PParcelable k) (E (PParcelable k))"
      by (rule consumes_cong [rotated]) (simp add: parcelable_tail_def kNonNullParcelableFlag_def)
    from consumes_bind [where k = "parcelable_tail Q", OF read_laws(4) [OF laws] this]
    show "consumes V (readData Q t f) (PParcelable k) (layout E (PParcelable k))"
      using w by (simp add: readData_parcelable)
  qed
qed (simp only: reads_layout_def layout.simps wt.simps, blast intro: leaf_reads [OF laws])+

text \<open>
  C35. Marshalling produces the documented layout: a \<open>writeData\<close> of a well-typed value of any type
  that succeeds, and on whose way no vector's size was refused (a status the code does not look
  at), appends exactly the layout of the value, whichever of the packed, widened or element-wise
  ways of writing a container it takes, and leaves the parcel at its end.
\<close>

theorem write_produces_layout:
  assumes "write_laws ok Q V E" and "wt ok v t f" and "at_end V p"
    and "writeData Q v p = (status_of OK, q)" and "\<not> size_lost Q v p"
  shows "pdata V q = pdata V p @ layout E v \<and> at_end V q"
  using all_write_layout [OF assms(1), of v] assms(2-5) unfolding writes_layout_def appended_def by blast

lemma write_then_read:
  assumes "write_laws ok Q V E" and "read_laws ok Q V E" and "allocates Q"
    and "wt ok v t False" and "at_end V p" and "writeData Q v p = (status_of OK, q)" and "\<not> size_lost Q v p"
    and "pdata V r = pdata V q @ rest" and "ppos V r = ppos V p"
  shows "\<exists>r'. readData Q t False r = (Inr v, r') \<and> pdata V r' = pdata V r \<and> ppos V r' = ppos V q"
proof -
  have w: "pdata V q = pdata V p @ layout E v" "at_end V q"
    using all_write_layout [OF assms(1), of v] assms(4-7) unfolding writes_layout_def appended_def by blast+
  have "avail V r = layout E v @ rest" using assms(5,8,9) w(1) by (simp add: avail_def at_end_def)
  then obtain r' where "readData Q t False r = (Inr v, r')" "pdata V r' = pdata V r"
      "ppos V r' = ppos V r + length (layout E v)"
    using all_reads_layout [OF assms(2,3), of v] assms(4) unfolding reads_layout_def consumes_def by blast
  then show ?thesis using assms(5,9) w by (simp add: at_end_def)
qed

text \<open>
  C33. Round trip: what a successful \<open>writeData\<close> that lost no vector's size wrote of a well-typed value
  of any type, nested containers, nullables and enums included, \<open>readData\<close> of its type reads back as
  the same value, when it finds memory for new objects, and ends where the written bytes end,
  whatever follows them.
\<close>

theorem parcel_roundtrip:
  assumes "write_laws ok Q V E" and "read_laws ok Q V E" and "allocates Q"
    and "wt ok v t False" and "at_end V p" and "writeData Q v p = (status_of OK, q)" and "\<not> size_lost Q v p"
    and "pdata V r = pdata V q @ rest" and "ppos V r = ppos V p"
  shows "\<exists>r'. readData Q t False r = (Inr v, r') \<and> pdata V r' = pdata V r \<and> ppos V r' = ppos V q"
  by (rule write_then_read [OF assms])

text \<open>
  The optimised ways to write a vector agree with the reference way of writing its elements
  one after another, as the header documents, for every element type but those of one byte.
\<close>

lemma vector_write_elementwise:
  assumes "write_laws ok Q V E" and "\<not> size_lost Q (PVector t c) p" and "wt ok (PVector t c) (TVector t) f" and "at_end V p"
    and "\<not> (is_pointer_equivalent_array t \<and> size_of t = 1)"
    and "writeData Q (PVector t c) p = (status_of OK, q)"
    and "\<not> sizes_lost Q c (snd (writeInt32 Q (of_nat (length c)) p))"
    and "writeAll Q c (snd (writeInt32 Q (of_nat (length c)) p)) = (status_of OK, q')"
  shows "pdata V q = pdata V q'"
proof -
  have "pdata V q = pdata V p @ layout E (PVector t c)"
    using all_write_layout [OF assms(1), of "PVector t c"] assms(2-4,6)
    unfolding writes_layout_def appended_def by blast
  then have l: "pdata V q = pdata V p @ enc32 (of_nat (length c)) @ concat (map (layout E) c)" using assms(5) by auto
  obtain p1 where n: "writeInt32 Q (of_nat (length c)) p = (status_of OK, p1)"
    using assms(2,3) by (cases "writeInt32 Q (of_nat (length c)) p") simp
  have a: "appended V p p1 (enc32 (of_nat (length c)))" by (rule write_laws(4) [OF assms(1,4) n])
  have "\<forall>v\<in>set c. wt ok v t (f \<and> t = TStrongBinder)" using assms(3) by simp
  then have "\<forall>v\<in>set c. writes_layout ok Q V E v \<and> (\<exists>t f. wt ok v t f)"
    using all_write_layout [OF assms(1)] by blast
  then have "appended V p1 q' (concat (map (layout E) c))"
    by (rule writeAll_layout) (use appended_end [OF a] assms(7,8) n in simp_all)
  then show ?thesis using l a by (simp add: appended_def)
qed

text \<open>
  C36. Ill-formed input is rejected: a null (size -1) where a vector or
  array is required, and a parcelable not preceded by 1, are \<open>UNEXPECTED_NULL\<close>; a vector that claims
  more elements than bytes are left, and an array of another size, are \<open>BAD_VALUE\<close>.
\<close>

theorem read_rejects:
  assumes "read_laws ok Q V E" and "avail V p = enc32 n @ rest"
  shows "(sint n < 0 \<longrightarrow> fst (readData Q (TVector t) f p) = Inl (status_of UNEXPECTED_NULL) \<and>
      fst (readData Q (TArray k t) f p) = Inl (status_of UNEXPECTED_NULL)) \<and>
    (n \<noteq> 1 \<longrightarrow> fst (readData Q TParcelable f p) = Inl (status_of UNEXPECTED_NULL)) \<and>
    (0 \<le> sint n \<longrightarrow> length rest < unat n \<longrightarrow> fst (readData Q (TVector t) f p) = Inl (status_of BAD_VALUE)) \<and>
    (0 \<le> sint n \<longrightarrow> n \<noteq> of_nat k \<longrightarrow> fst (readData Q (TArray k t) f p) = Inl (status_of BAD_VALUE))"
proof -
  obtain q where q: "readInt32 Q p = (Inr n, q)" "pdata V q = pdata V p" "ppos V q = ppos V p + length (enc32 n)"
    using read_laws(4) [OF assms(1), of n] assms(2) unfolding consumes_def by blast
  then have "dataAvail Q q = length rest"
    using avail_advance [OF assms(2)] by (simp add: read_laws(16) [OF assms(1)])
  then show ?thesis using q(1)
    by (auto simp: readData_vector readData_array vector_tail_def array_tail_def kNonNullParcelableFlag_def)
qed

lemma padded_dvd: "4 dvd padded n"
proof -
  consider "n mod 4 = 0" | "n mod 4 = 1" | "n mod 4 = 2" | "n mod 4 = 3" by linarith
  then show ?thesis
    by cases (simp_all add: padded_def, presburger+)
qed

text \<open>
  Every layout ends at a multiple of four bytes, so that the next value starts aligned, when
  the encodings of strings, descriptors, binders and objects do.
\<close>

lemma layout_aligned:
  assumes "\<And>x. 4 dvd length (E x)"
  shows "4 dvd length (layout E v)"
proof (induction v)
  case (PNullable c t v)
  then show ?case by (cases v) auto
next
  case (PVector t c)
  have "4 dvd length (concat (map (layout E) c))" using PVector by (induction c) auto
  then show ?case using padded_dvd by (simp add: length_pad4)
next
  case (PArray t c)
  have "4 dvd length (concat (map (layout E) c))" using PArray by (induction c) auto
  then show ?case using padded_dvd by (simp add: length_pad4)
qed (use assms in auto)

text \<open>
  The status of writing the size of a vector is lost: when the parcel refuses the size with
  some status, writing an array returns that status, while writing a vector of the same elements
  goes on and returns what writing the elements returns, so that a vector without its size can be
  reported as written.
\<close>

lemma vector_size_status_lost:
  assumes "is_pointer_equivalent_array t" and "length c \<le> INT32_MAX" and "length c \<le> size_max Q div size_of t"
    and "writeInt32 Q (of_nat (length c)) p = (st, p)" and "st \<noteq> status_of OK"
  shows "writeData Q (PVector t c) p = write_bytes Q (concat (map elem_bytes c)) p \<and>
    writeData Q (PArray t c) p = (st, p)"
  using assms by simp

section \<open>A parcel of bytes\<close>

type_synonym bparcel = "byte list \<times> nat"

definition bwrite :: "('x \<Rightarrow> byte list) \<Rightarrow> ('x, bparcel) writer" where
  "bwrite enc x p = (status_of OK, (fst p @ enc x, length (fst p @ enc x)))"

definition bread :: "nat \<Rightarrow> (byte list \<Rightarrow> 'x) \<Rightarrow> ('x, bparcel) reader" where
  "bread n dec p =
     (if n \<le> length (fst p) - snd p then (Inr (dec (take n (drop (snd p) (fst p)))), (fst p, snd p + n))
      else (Inl (status_of NOT_ENOUGH_DATA), p))"

text \<open>A length-prefixed run of items of \<open>k\<close> bytes.\<close>

definition brun :: "('x \<Rightarrow> byte list) \<Rightarrow> 'x list \<Rightarrow> byte list" where
  "brun enc xs = enc32 (of_nat (length xs)) @ concat (map enc xs)"

definition bread_run :: "nat \<Rightarrow> (byte list \<Rightarrow> 'x) \<Rightarrow> ('x list, bparcel) reader" where
  "bread_run k dec p = (case bread 4 dec32 p of (Inl e, p) \<Rightarrow> (Inl e, p) | (Inr n, p) \<Rightarrow> readAll (bread k dec) (unat n) p)"

fun benc :: "u32 pval \<Rightarrow> byte list" where
  "benc (PString16 s) = brun enc16 s" | "benc (PString s) = brun (\<lambda>b. [b]) s"
| "benc (PStrongBinder b) = enc64 b" | "benc (PParcelable k) = enc32 k" | "benc _ = enc32 0"

fun bok :: "u32 pval \<Rightarrow> bool" where
  "bok (PString16 s) \<longleftrightarrow> length s \<le> INT32_MAX" | "bok (PString s) \<longleftrightarrow> length s \<le> INT32_MAX"
| "bok (PUniqueFd d) \<longleftrightarrow> False" | "bok _ \<longleftrightarrow> True"

definition byte_parcel :: "(bparcel, u32) parcel_ops" where
  "byte_parcel =
     \<lparr>writeBool = bwrite (\<lambda>b. enc32 (if b then 1 else 0)), writeByte = bwrite (\<lambda>x. enc32 (scast x)),
      writeChar = bwrite (\<lambda>c. enc32 (ucast c)), writeInt32 = bwrite enc32, writeUint32 = bwrite enc32,
      writeInt64 = bwrite enc64, writeUint64 = bwrite enc64, writeFloat = bwrite enc32,
      writeDouble = bwrite enc64, writeString16 = bwrite (brun enc16), writeUtf8AsUtf16 = bwrite (brun (\<lambda>b. [b])),
      writeUniqueFileDescriptor = bwrite (\<lambda>d. enc32 0), writeStrongBinder = bwrite enc64,
      writeToParcel = bwrite enc32, write_bytes = bwrite pad4,
      writeInplace = (\<lambda>n p. (Some 0, (fst p @ replicate n 0, length (fst p) + n))),
      poke = (\<lambda>a bs p. (take (length (fst p) - length bs) (fst p) @ bs, snd p)),
      readBool = bread 4 (\<lambda>bs. dec32 bs \<noteq> 0), readByte = bread 4 (\<lambda>bs. ucast (dec32 bs)),
      readChar = bread 4 (\<lambda>bs. ucast (dec32 bs)), readInt32 = bread 4 dec32, readUint32 = bread 4 dec32,
      readInt64 = bread 8 dec64, readUint64 = bread 8 dec64, readFloat = bread 4 dec32,
      readDouble = bread 8 dec64, readString16 = bread_run 2 dec16, readUtf8FromUtf16 = bread_run 1 hd,
      readUniqueFileDescriptor = bread 4 (\<lambda>_. 0),
      readStrongBinder = (\<lambda>p. case bread 8 dec64 p of (Inl e, p) \<Rightarrow> (Inl e, p)
        | (Inr b, p) \<Rightarrow> if b = 0 then (Inl (status_of UNEXPECTED_NULL), p) else (Inr b, p)),
      readNullableStrongBinder = bread 8 dec64, readFromParcel = bread 4 dec32,
      readInplace = (\<lambda>n p. if padded n \<le> length (fst p) - snd p
        then (Some (take n (drop (snd p) (fst p))), (fst p, snd p + padded n)) else (None, p)),
      dataAvail = (\<lambda>p. length (fst p) - snd p), dataPosition = snd, setDataPosition = (\<lambda>n p. (fst p, n)),
      new_succeeds = (\<lambda>_. True), size_max = 2 ^ 64 - 1\<rparr>"

definition byte_view :: "bparcel view" where
  "byte_view = \<lparr>pdata = fst, ppos = snd\<rparr>"

lemma byte_view_simps [simp]: "pdata byte_view = fst" "ppos byte_view = snd"
  by (simp_all add: byte_view_def)

lemma bwrite_writes: "writes byte_view (bwrite enc) enc"
  by (auto simp: writes_def appends_def bwrite_def appended_def at_end_def)

lemma bread_consumes:
  assumes "length bs = n" "dec bs = x"
  shows "consumes byte_view (bread n dec) x bs"
  unfolding consumes_def avail_def
proof (intro allI impI)
  fix p rest assume a: "drop (ppos byte_view p) (pdata byte_view p) = bs @ rest"
  have l: "length (fst p) - snd p = n + length rest" using arg_cong [OF a, of length] assms(1) by simp
  then show "\<exists>p'. bread n dec p = (Inr x, p') \<and> pdata byte_view p' = pdata byte_view p \<and>
      ppos byte_view p' = ppos byte_view p + length bs"
    using a assms by (simp add: bread_def)
qed

lemma ucast_scast_8: "ucast (scast x :: u32) = (x :: u8)"
  by (rule bit_word_eqI) (auto simp: bit_simps)

lemma brun_consumes:
  assumes "length xs \<le> INT32_MAX" "\<And>x. length (enc x) = k \<and> dec (enc x) = x"
  shows "consumes byte_view (bread_run k dec) xs (brun enc xs)"
proof -
  have "consumes byte_view (readAll (bread k dec) (length xs)) xs (concat (map enc xs))"
    by (rule consumes_all) (use assms(2) in \<open>simp add: bread_consumes\<close>)
  then have "consumes byte_view (readAll (bread k dec) (unat (of_nat (length xs) :: u32))) xs (concat (map enc xs))"
    using size_word(1) [OF assms(1)] by simp
  moreover have "consumes byte_view (bread 4 dec32) (of_nat (length xs)) (enc32 (of_nat (length xs)))"
    by (rule bread_consumes) simp_all
  ultimately have "consumes byte_view (\<lambda>p. case bread 4 dec32 p of (Inl e, p) \<Rightarrow> (Inl e, p)
      | (Inr n, p) \<Rightarrow> readAll (bread k dec) (unat n) p) xs (enc32 (of_nat (length xs)) @ concat (map enc xs))"
    using consumes_bind [where k = "\<lambda>n. readAll (bread k dec) (unat n)"] by blast
  then show ?thesis unfolding brun_def by (rule consumes_cong [rotated]) (simp add: bread_run_def)
qed

lemma byte_parcel_writes: "write_laws ok byte_parcel byte_view benc"
  unfolding write_laws_def byte_parcel_def
  by (simp add: bwrite_writes bwrite_writes [unfolded writes_def, rule_format])
    (auto simp: appended_def at_end_def writes_def appends_def bwrite_def)

lemma byte_parcel_keeps: "\<not> size_lost byte_parcel v p" "\<not> sizes_lost byte_parcel vs p" "allocates byte_parcel"
  by (rule size_kept, simp add: byte_parcel_def bwrite_def)+ (simp add: allocates_def byte_parcel_def)

text \<open>The primitive readers of the parcel of bytes.\<close>

lemma byte_parcel_ints:
  "consumes byte_view (bread 4 (\<lambda>bs. dec32 bs \<noteq> 0)) b (enc32 (if b then 1 else 0))"
  "consumes byte_view (bread 4 (\<lambda>bs. ucast (dec32 bs))) x8 (enc32 (scast (x8 :: u8)))"
  "consumes byte_view (bread 4 (\<lambda>bs. ucast (dec32 bs))) c (enc32 (ucast (c :: u16)))"
  "consumes byte_view (bread 4 dec32) x (enc32 x)" "consumes byte_view (bread 8 dec64) y (enc64 y)"
  by (rule bread_consumes; simp add: ucast_scast_8 ucast_ucast_16)+

lemma byte_parcel_binder:
  "y \<noteq> 0 \<Longrightarrow> consumes byte_view (\<lambda>p. case bread 8 dec64 p of (Inl e, p) \<Rightarrow> (Inl e, p)
     | (Inr b, p) \<Rightarrow> if b = 0 then (Inl s, p) else (Inr b, p)) y (enc64 y)"
  using byte_parcel_ints(5) [of y] by (fastforce simp: consumes_def)

lemma byte_parcel_inplace:
  "padded n \<le> length (avail byte_view p) \<Longrightarrow> \<exists>p'. readInplace byte_parcel n p = (Some (take n (avail byte_view p)), p') \<and>
     pdata byte_view p' = pdata byte_view p \<and> ppos byte_view p' = ppos byte_view p + padded n"
  by (simp add: byte_parcel_def avail_def)

lemma brun_prefix: "length xs \<le> INT32_MAX \<Longrightarrow> \<exists>m r. brun enc xs = enc32 m @ r \<and> m \<noteq> -1"
  unfolding brun_def using size_word(3) by blast

lemma byte_parcel_reads: "read_laws bok byte_parcel byte_view benc"
proof -
  have s: "bok (PString16 s) \<Longrightarrow> consumes byte_view (bread_run 2 dec16) s (brun enc16 s)" for s
    by (rule brun_consumes) simp_all
  have u: "bok (PString u) \<Longrightarrow> consumes byte_view (bread_run 1 hd) u (brun (\<lambda>b. [b]) u)" for u
    by (rule brun_consumes) simp_all
  have ne1: "brun enc16 xs \<noteq> []" "brun (\<lambda>b. [b]) ys \<noteq> []" for xs ys by (simp_all add: brun_def)
  have p: "bok (PString16 s) \<Longrightarrow> \<exists>m r. brun enc16 s = enc32 m @ r \<and> m \<noteq> -1"
      "bok (PString u) \<Longrightarrow> \<exists>m r. brun (\<lambda>b. [b]) u = enc32 m @ r \<and> m \<noteq> -1" for s u
    using brun_prefix by auto
  show ?thesis
    unfolding read_laws_def reads_def
    using byte_parcel_inplace s u p ne1 byte_parcel_ints byte_parcel_binder
    by (auto simp: byte_parcel_def avail_def simp del: length_0_conv)
qed

definition sample_value :: "u32 pval" where
  "sample_value = PVector (TNullable Std_optional (TVector TInt64))
     [PNullable Std_optional (TVector TInt64) None,
      PNullable Std_optional (TVector TInt64) (Some (PVector TInt64 [Int64 7, Int64 (- 1)]))]"

lemma sample_value_wt: "wt bok sample_value (TVector (TNullable Std_optional (TVector TInt64))) False"
  by (simp add: sample_value_def nullable_target_def INT32_MAX_def)

lemma sample_value_written:
  "writeData byte_parcel sample_value ([], 0) =
     (status_of OK, (enc32 2 @ enc32 (- 1) @ enc32 2 @ enc64 7 @ enc64 (- 1), 28))"
  by (simp add: sample_value_def byte_parcel_def bwrite_def INT32_MAX_def null_marker_def kNullVectorSize_def
      pad4_def Let_def)

lemma write_produces_layout_witness:
  "\<exists>q. writeData byte_parcel sample_value ([], 0) = (status_of OK, q) \<and> fst q = layout benc sample_value"
  using write_produces_layout [OF byte_parcel_writes sample_value_wt _ sample_value_written byte_parcel_keeps(1)]
    sample_value_written by (simp add: at_end_def)

lemma parcel_roundtrip_witness:
  "\<exists>r'. readData byte_parcel (TVector (TNullable Std_optional (TVector TInt64))) False
     (enc32 2 @ enc32 (- 1) @ enc32 2 @ enc64 7 @ enc64 (- 1), 0) = (Inr sample_value, r')"
  using parcel_roundtrip [OF byte_parcel_writes byte_parcel_reads byte_parcel_keeps(3) sample_value_wt _ sample_value_written
        byte_parcel_keeps(1),
      of "(enc32 2 @ enc32 (- 1) @ enc32 2 @ enc64 7 @ enc64 (- 1), 0)" "[]"]
  by (auto simp: at_end_def)

lemma vector_write_elementwise_witness:
  "fst (snd (writeData byte_parcel (PVector TChar16 [Char16 65, Char16 66]) ([], 0))) =
   fst (snd (writeAll byte_parcel [Char16 65, Char16 66] (snd (writeInt32 byte_parcel 2 ([], 0)))))"
proof -
  have w: "writeData byte_parcel (PVector TChar16 [Char16 65, Char16 66]) ([], 0) =
      (status_of OK, (enc32 2 @ enc32 65 @ enc32 66, 12))"
    by (simp add: byte_parcel_def bwrite_def INT32_MAX_def Let_def size_t_of_def)
  have a: "writeAll byte_parcel [Char16 65, Char16 66] (snd (writeInt32 byte_parcel (of_nat (length [Char16 65, Char16 66 :: u32 pval])) ([], 0))) =
      (status_of OK, (enc32 2 @ enc32 65 @ enc32 66, 12))"
    by (simp add: byte_parcel_def bwrite_def)
  show ?thesis
    using vector_write_elementwise [OF byte_parcel_writes byte_parcel_keeps(1) _ _ _ w byte_parcel_keeps(2) a, of bok False] w a
    by (simp add: at_end_def INT32_MAX_def)
qed

lemma read_rejects_witness:
  "fst (readData byte_parcel (TVector TInt32) False (enc32 5 @ [1, 2, 3, 4], 0)) = Inl (status_of BAD_VALUE)"
  using read_rejects [OF byte_parcel_reads, of "(enc32 5 @ [1, 2, 3, 4], 0)" 5 "[1, 2, 3, 4]" TInt32 False 0]
  by (simp add: avail_def)

text \<open>A parcel that cannot grow for the size: the three bytes are reported as written.\<close>

lemma vector_size_status_lost_example:
  "writeData (byte_parcel\<lparr>writeInt32 := \<lambda>_ p. (status_of NO_MEMORY, p)\<rparr>) (PVector TInt8 [Int8 1, Int8 2, Int8 3]) ([], 0) =
     (status_of OK, ([1, 2, 3, 0], 4)) \<and>
   writeData (byte_parcel\<lparr>writeInt32 := \<lambda>_ p. (status_of NO_MEMORY, p)\<rparr>) (PArray TInt8 [Int8 1, Int8 2, Int8 3]) ([], 0) =
     (status_of NO_MEMORY, ([], 0))"
  using vector_size_status_lost [of TInt8 "[Int8 1, Int8 2, Int8 3]"
      "byte_parcel\<lparr>writeInt32 := \<lambda>_ p. (status_of NO_MEMORY, p)\<rparr>" "([], 0)" "status_of NO_MEMORY"]
  by (simp add: byte_parcel_def bwrite_def INT32_MAX_def pad4_def)

end
