(* ===== verification/Parcel_Typing.thy ===== *)
theory Parcel_Typing
  imports Parcel_Roundtrip
begin

text \<open>
  Type soundness of reading: whatever bytes a parcel holds, a value that \<open>readData\<close> accepts has the
  type it was asked for, so its sizes are in range, its arrays have their length, and a binder is
  null only inside a nullable.
\<close>

section \<open>Types that compile\<close>

fun type_ok :: "ptype \<Rightarrow> bool" where
  "type_ok (TEnum t) \<longleftrightarrow> enum_type t"
| "type_ok (TNullable c t) \<longleftrightarrow> nullable_target t \<and> type_ok t"
| "type_ok (TVector t) \<longleftrightarrow> type_ok t"
| "type_ok (TArray n t) \<longleftrightarrow> n \<le> INT32_MAX \<and> type_ok t"
| "type_ok t \<longleftrightarrow> True"

text \<open>The documented difference between the two ways to read a binder.\<close>

definition binders_not_null :: "('p, 'k) parcel_ops \<Rightarrow> bool" where
  "binders_not_null Q \<longleftrightarrow> (\<forall>p b p'. readStrongBinder Q p = (Inr b, p') \<longrightarrow> b \<noteq> 0)"

definition yields :: "('x, 'p) reader \<Rightarrow> ('x \<Rightarrow> bool) \<Rightarrow> bool" where
  "yields rd P \<longleftrightarrow> (\<forall>p v p'. rd p = (Inr v, p') \<longrightarrow> P v)"

lemma map_result_Inr: "map_result g r = (Inr v, p') \<longleftrightarrow> (\<exists>x. r = (Inr x, p') \<and> v = g x)"
  by (cases "(g, r)" rule: map_result.cases) auto

lemma readAll_yields:
  assumes "yields rd P"
  shows "yields (readAll rd n) (\<lambda>xs. length xs = n \<and> (\<forall>x \<in> set xs. P x))"
proof (induction n)
  case 0
  show ?case by (simp add: yields_def)
next
  case (Suc n)
  have "length v = Suc n \<and> (\<forall>x \<in> set v. P x)" if r: "readAll rd (Suc n) p = (Inr v, p')" for p v p'
  proof -
    obtain x q xs where 1: "rd p = (Inr x, q)" and 2: "readAll rd n q = (Inr xs, p')" and v: "v = x # xs"
      using r by (auto simp: map_result_Inr split: prod.splits sum.splits)
    have "P x" using assms 1 by (auto simp: yields_def)
    moreover have "length xs = n \<and> (\<forall>x \<in> set xs. P x)" using Suc [unfolded yields_def, rule_format, OF 2] by blast
    ultimately show ?thesis using v by simp
  qed
  then show ?case by (auto simp: yields_def)
qed

lemma elem_of_wt: "type_ok t \<Longrightarrow> is_pointer_equivalent_array t \<Longrightarrow> wt (\<lambda>_. True) (elem_of t bs) t f"
  by (cases t) (auto simp: enum_type_def)

lemma size_in_range:
  assumes "\<not> sint (s :: u32) < 0"
  shows "unat s \<le> INT32_MAX"
proof -
  have lt: "sint s < 2 ^ 31" using sint_lt [of s] by simp
  then have "uint s = sint s" using assms uint_sint [of s] by (simp add: take_bit_int_eq_self)
  then have "uint s \<le> 2147483647" using lt by simp
  then show ?thesis unfolding INT32_MAX_def nat_uint_eq [symmetric] by (simp only: nat_le_iff of_nat_numeral)
qed

section \<open>Containers\<close>

lemma binder_elements:
  assumes "binders_not_null Q"
  shows "yields (readAll (if f then readNullableStrongBinder Q else readStrongBinder Q) n)
    (\<lambda>bs. length bs = n \<and> (\<forall>b \<in> set bs. f \<or> b \<noteq> 0))"
  by (rule readAll_yields) (use assms in \<open>auto simp: yields_def binders_not_null_def\<close>)

lemma vector_wt:
  assumes "binders_not_null Q" "type_ok t" "yields rd (\<lambda>v. wt (\<lambda>_. True) v t False)"
  shows "yields (readVector Q t f rd) (\<lambda>v. wt (\<lambda>_. True) v (TVector t) f)"
  unfolding yields_def
proof (intro allI impI)
  fix p v p' assume r: "readVector Q t f rd p = (Inr v, p')"
  note b = binder_elements [OF assms(1), of f, unfolded yields_def, rule_format]
  note a = readAll_yields [OF assms(3), unfolded yields_def, rule_format]
  show "wt (\<lambda>_. True) v (TVector t) f"
    using r elem_of_wt [OF assms(2)] size_in_range b a
    by (auto simp: readVector_def map_result_Inr elems_of_def narrowed_elems_def narrowed_def
        split: prod.splits sum.splits option.splits if_splits)
qed

lemma array_wt:
  assumes "binders_not_null Q" "type_ok t" "n \<le> INT32_MAX"
    and "yields rd (\<lambda>v. wt (\<lambda>_. True) v t False)" "yields rdf (\<lambda>v. wt (\<lambda>_. True) v t f)"
  shows "yields (readArray Q n t f rdf rd) (\<lambda>v. wt (\<lambda>_. True) v (TArray n t) f)"
  unfolding yields_def
proof (intro allI impI)
  fix p v p' assume r: "readArray Q n t f rdf rd p = (Inr v, p')"
  note b = binder_elements [OF assms(1), of f, unfolded yields_def, rule_format]
  note a = readAll_yields [OF assms(4), unfolded yields_def, rule_format]
  note c = readAll_yields [OF assms(5), unfolded yields_def, rule_format]
  show "wt (\<lambda>_. True) v (TArray n t) f"
    using r elem_of_wt [OF assms(2)] assms(3) b a c
    by (auto simp: readArray_def map_result_Inr elems_of_def split: prod.splits sum.splits option.splits if_splits)
qed

lemma nullable_wt:
  assumes "nullable_target t" "yields rd (\<lambda>v. wt (\<lambda>_. True) v t (is_vector t \<or> is_fixed_array t))"
  shows "yields (readNullable Q c t rd) (\<lambda>v. wt (\<lambda>_. True) v (TNullable c t) f)"
  unfolding yields_def
proof (intro allI impI)
  fix p v p' assume r: "readNullable Q c t rd p = (Inr v, p')"
  note a = assms(2) [unfolded yields_def, rule_format]
  show "wt (\<lambda>_. True) v (TNullable c t) f"
    using r assms(1) a by (auto simp: readNullable_def map_result_Inr Let_def split: prod.splits sum.splits if_splits)
qed

section \<open>Reading\<close>

lemma readData_yields:
  assumes "binders_not_null Q"
  shows "type_ok t \<Longrightarrow> yields (readData Q t f) (\<lambda>v. wt (\<lambda>_. True) v t f)"
proof (induction t arbitrary: f)
  case (TEnum t)
  then show ?case by (cases t) (auto simp: yields_def map_result_Inr enum_type_def)
next
  case TStrongBinder
  show ?case using assms [unfolded binders_not_null_def, rule_format]
    by (auto simp: yields_def map_result_Inr)
next
  case TParcelable
  then show ?case by (auto simp: yields_def map_result_Inr split: prod.splits sum.splits if_splits)
next
  case (TNullable c t)
  then have "yields (readNullable Q c t (readData Q t (is_vector t \<or> is_fixed_array t)))
      (\<lambda>v. wt (\<lambda>_. True) v (TNullable c t) f)" by (intro nullable_wt) simp_all
  then show ?case by (simp add: yields_def)
next
  case (TVector t)
  then have "yields (readVector Q t f (readData Q t False)) (\<lambda>v. wt (\<lambda>_. True) v (TVector t) f)"
    by (intro vector_wt assms) simp_all
  then show ?case by (simp add: yields_def)
next
  case (TArray n t)
  then have "yields (readArray Q n t f (readData Q t f) (readData Q t False)) (\<lambda>v. wt (\<lambda>_. True) v (TArray n t) f)"
    by (intro array_wt assms) simp_all
  then show ?case by (simp add: yields_def)
qed (auto simp: yields_def map_result_Inr)

text \<open>
  C34. Reading is type-safe on untrusted parcels. Whatever the parcel holds, a value \<open>readData\<close>
  accepts for a type that compiles is well typed: vectors are no longer than \<open>INT32_MAX\<close>, arrays
  have exactly their length, enums hold their underlying type, and no binder is null outside a
  nullable. Nothing is assumed of the primitive readers but that \<open>readStrongBinder\<close> rejects null.
\<close>

theorem read_well_typed:
  assumes "binders_not_null Q" and "type_ok t" and "readData Q t False p = (Inr v, p')"
  shows "wt (\<lambda>_. True) v t False"
  using readData_yields [OF assms(1,2), of False] assms(3) by (auto simp: yields_def)

text \<open>An array of two binders and a nullable vector, read from bytes.\<close>

lemma byte_parcel_not_null: "binders_not_null byte_parcel"
  by (auto simp: binders_not_null_def byte_parcel_def split: prod.splits sum.splits if_splits)

lemma readAll_numeral:
  "readAll rd (numeral k) p =
     (case rd p of (Inl e, p) \<Rightarrow> (Inl e, p)
      | (Inr x, p) \<Rightarrow> map_result (\<lambda>xs. x # xs) (readAll rd (pred_numeral k) p))"
  by (simp add: numeral_eq_Suc)

theorem read_well_typed_witness:
  "wt (\<lambda>_. True) (PArray TStrongBinder [PStrongBinder 7, PStrongBinder 9] :: u32 pval) (TArray 2 TStrongBinder) False \<and>
   fst (readData byte_parcel (TArray 2 TStrongBinder) False (enc32 2 @ enc64 7 @ enc64 9, 0)) =
     Inr (PArray TStrongBinder [PStrongBinder 7, PStrongBinder 9])"
proof -
  have r: "readData byte_parcel (TArray 2 TStrongBinder) False (enc32 2 @ enc64 7 @ enc64 9, 0) =
      (Inr (PArray TStrongBinder [PStrongBinder 7, PStrongBinder 9]), (enc32 2 @ enc64 7 @ enc64 9, 20))"
    by (simp add: readArray_def byte_parcel_def bread_def readAll_numeral)
  from read_well_typed [OF byte_parcel_not_null _ this] show ?thesis
    using r by (simp add: INT32_MAX_def)
qed

end
