(* ===== verification/Parcel_Flatten.thy ===== *)
theory Parcel_Flatten
  imports Parcel_Roundtrip
begin

text \<open>
  What the members of \<open>Parcel_Members\<close> do, over the documented behaviour of the primitive ones: light
  flattenables are read back as they were written and a negative size does no harm, the front ends
  invert each other, interface casts never let a wrong binder through, and the small accessors.
\<close>

section \<open>Light flattenables\<close>

text \<open>Bytes written in place are padded like those \<open>write\<close> copies.\<close>

definition inplace_pads :: "('p, 'k) parcel_ops \<Rightarrow> 'p view \<Rightarrow> bool" where
  "inplace_pads Q V \<longleftrightarrow> (\<forall>n p a p' bs. at_end V p \<longrightarrow> writeInplace Q n p = (Some a, p') \<longrightarrow> length bs = n \<longrightarrow>
     appended V p (poke Q a bs p') (pad4 bs))"

text \<open>
  The protocol: \<open>flatten\<close> fills the buffer, \<open>unflatten\<close> inverts it, whatever the target held, and whether the
  size is fixed, and to what, depends on the class only.
\<close>

definition light_laws :: "'t light_flattenable \<Rightarrow> bool" where
  "light_laws L \<longleftrightarrow>
     (\<forall>v bs u. flatten L v (getFlattenedSize L v) = (status_of OK, bs) \<longrightarrow>
        length bs = getFlattenedSize L v \<and> unflatten L u bs = (status_of OK, v)) \<and>
     (\<forall>u v. isFixedSize L u = isFixedSize L v) \<and>
     (\<forall>u v. isFixedSize L v \<longrightarrow> getFlattenedSize L u = getFlattenedSize L v)"

definition light_layout :: "'t light_flattenable \<Rightarrow> 't \<Rightarrow> byte list \<Rightarrow> byte list" where
  "light_layout L v bs = (if isFixedSize L v then pad4 bs else enc32 (of_nat (length bs)) @ pad4 bs)"

lemma light_buffer_written:
  assumes "inplace_pads Q V" "light_laws L" "n = getFlattenedSize L v" "at_end V p"
    and "(let (buffer, p) = writeInplace Q n p
          in case buffer of None \<Rightarrow> (status_of NO_MEMORY, p)
             | Some buffer \<Rightarrow> let (status, bytes) = flatten L v n in (status, poke Q buffer bytes p)) = (status_of OK, q)"
  shows "\<exists>bs. flatten L v n = (status_of OK, bs) \<and> length bs = n \<and> appended V p q (pad4 bs)"
  using assms by (auto simp: inplace_pads_def light_laws_def status_of_def split: prod.splits option.splits)

lemma light_written:
  assumes "write_laws ok Q V E" "inplace_pads Q V" "light_laws L"
    and "getFlattenedSize L v \<noteq> 0" "at_end V p" "write_light Q L v p = (status_of OK, q)"
  obtains bs where "flatten L v (getFlattenedSize L v) = (status_of OK, bs)" "length bs = getFlattenedSize L v"
    and "appended V p q (light_layout L v bs)" "isFixedSize L v \<or> length bs \<le> INT32_MAX"
proof (cases "isFixedSize L v")
  case True
  then have "\<exists>bs. flatten L v (getFlattenedSize L v) = (status_of OK, bs) \<and>
      length bs = getFlattenedSize L v \<and> appended V p q (pad4 bs)"
    using light_buffer_written [OF assms(2,3) refl assms(5), where q = q] assms(4,6)
    by (simp add: write_light_def Let_def)
  then show ?thesis using that True by (auto simp: light_layout_def)
next
  case False
  define n where "n = getFlattenedSize L v"
  obtain err p1 where w: "writeInt32 Q (of_nat n) p = (err, p1)" by (rule prod.exhaust)
  have small: "n \<le> INT32_MAX" and e: "err = status_of OK"
    using assms(6) False w by (auto simp: write_light_def n_def Let_def status_of_def split: if_splits)
  then have a: "appended V p p1 (enc32 (of_nat n))" using write_laws(4) [OF assms(1,5)] w by simp
  have "\<exists>bs. flatten L v n = (status_of OK, bs) \<and> length bs = n \<and> appended V p1 q (pad4 bs)"
    using light_buffer_written [OF assms(2,3) n_def appended_end [OF a], where q = q] assms(4,6) False w small e
    by (simp add: write_light_def Let_def flip: n_def)
  then show ?thesis using that False small appended_trans [OF a] by (auto simp: light_layout_def n_def)
qed

lemma int32_to_size_t:
  assumes "n \<le> INT32_MAX" "2 ^ 34 \<le> size_max Q"
  shows "int32_to_size_t Q (of_nat n) = n"
  using assms size_word(2) [OF assms(1)] by (simp add: int32_to_size_t_def INT32_MAX_def)

text \<open>Reading in place for objects, whose status and value are a pair.\<close>

lemma light_buffer_read:
  assumes "read_laws ok Q V E" "avail V p = pad4 bs @ rest"
  obtains q where "readInplace Q (length bs) p = (Some bs, q)" "pdata V q = pdata V p"
    "ppos V q = ppos V p + length (pad4 bs)"
proof -
  have "padded (length bs) \<le> length (avail V p)" using assms(2) by (simp add: length_pad4)
  then obtain q where "readInplace Q (length bs) p = (Some (take (length bs) (avail V p)), q)"
      "pdata V q = pdata V p" "ppos V q = ppos V p + padded (length bs)"
    using assms(1) unfolding read_laws_def by blast
  then show ?thesis using that assms(2) by (simp add: pad4_def padded_def)
qed

text \<open>
  Round trip of light flattenables, of fixed and of variable size: an object that was written with
  success is read into any object of its class.
\<close>

lemma light_roundtrip:
  assumes "write_laws ok Q V E" "read_laws ok Q V E" "inplace_pads Q V" "light_laws L"
    and "getFlattenedSize L v \<noteq> 0" "at_end V p" "write_light Q L v p = (status_of OK, q)"
    and "pdata V r = pdata V q @ rest" "ppos V r = ppos V p"
  shows "\<exists>r'. read_light Q L u r = ((status_of OK, v), r') \<and> pdata V r' = pdata V r \<and> ppos V r' = ppos V q"
proof -
  obtain bs where bs: "flatten L v (getFlattenedSize L v) = (status_of OK, bs)" "length bs = getFlattenedSize L v"
      "appended V p q (light_layout L v bs)" "isFixedSize L v \<or> length bs \<le> INT32_MAX"
    by (rule light_written [OF assms(1,3-7)])
  have un: "unflatten L u bs = (status_of OK, v)" and fixed: "isFixedSize L u = isFixedSize L v"
    and same: "isFixedSize L v \<Longrightarrow> getFlattenedSize L u = length bs"
    using assms(4) bs(1,2) unfolding light_laws_def by metis+
  have ahead: "avail V r = light_layout L v bs @ rest" "ppos V q = ppos V r + length (light_layout L v bs)"
    using bs(3) assms(6,8,9) by (simp_all add: appended_def avail_def at_end_def)
  show ?thesis
  proof (cases "isFixedSize L v")
    case True
    then have a: "avail V r = pad4 bs @ rest" using ahead(1) by (simp add: light_layout_def)
    show ?thesis
      by (rule light_buffer_read [OF assms(2) a])
        (use True ahead(2) un fixed same bs(2) assms(5) in \<open>simp add: read_light_def light_layout_def Let_def\<close>)
  next
    case False
    then have a: "avail V r = enc32 (of_nat (length bs)) @ (pad4 bs @ rest)" using ahead(1) by (simp add: light_layout_def)
    have len: "length bs \<le> INT32_MAX" "2 ^ 34 \<le> size_max Q" using False bs(4) assms(1) by (simp_all add: write_laws_def)
    obtain r1 where r1: "readInt32 Q r = (Inr (of_nat (length bs)), r1)" "pdata V r1 = pdata V r" "ppos V r1 = ppos V r + 4"
      using read_laws(4) [OF assms(2), of "of_nat (length bs)"] a unfolding consumes_def by fastforce
    have a1: "avail V r1 = pad4 bs @ rest" by (rule avail_advance [OF a r1(2)]) (simp add: r1(3))
    show ?thesis
      by (rule light_buffer_read [OF assms(2) a1])
        (use False ahead(2) un fixed bs(2) assms(5) r1 int32_to_size_t [OF len] in
          \<open>simp add: read_light_def light_layout_def Let_def\<close>)
  qed
qed

lemma int_mod_neg_huge: "a < 0 \<Longrightarrow> - b \<le> a \<Longrightarrow> a mod b = a + b" for a b :: int
  using mod_pos_pos_trivial [of "a + b" b] by simp

text \<open>
  A negative size is not rejected as such but becomes a huge one, which no parcel can hold: where
  reading in place fails beyond the end, the object is left alone.
\<close>

lemma light_negative_size:
  assumes "readInt32 Q p = (Inr s, q)" "\<not> isFixedSize L u" "sint s < 0" "2 ^ 32 \<le> size_max Q"
    and "\<And>n p. dataAvail Q p < n \<Longrightarrow> \<exists>q. readInplace Q n p = (None, q)" "dataAvail Q q \<le> INT32_MAX"
  shows "\<exists>q. read_light Q L u p = ((status_of NO_MEMORY, u), q)"
proof -
  have "- (2 ^ 31) \<le> sint s" using sint_ge [of s] by simp
  then have "sint s mod (int (size_max Q) + 1) = sint s + (int (size_max Q) + 1)"
    using assms(3,4) by (intro int_mod_neg_huge) auto
  then have "int32_to_size_t Q s > INT32_MAX"
    using \<open>- (2 ^ 31) \<le> sint s\<close> assms(4) by (simp add: int32_to_size_t_def INT32_MAX_def)
  then have "dataAvail Q q < int32_to_size_t Q s" using assms(6) by simp
  then obtain r where "readInplace Q (int32_to_size_t Q s) q = (None, r)" using assms(5) by blast
  then show ?thesis using assms(1,2) \<open>int32_to_size_t Q s > INT32_MAX\<close> by (simp add: read_light_def Let_def)
qed

text \<open>A parcel of bytes that pads, and objects of variable size: strings of bytes.\<close>

definition padding_parcel :: "(bparcel, u32) parcel_ops" where
  "padding_parcel = byte_parcel
     \<lparr>writeInplace := (\<lambda>n p. (Some 0, (fst p @ replicate (padded n) 0, length (fst p) + padded n))),
      poke := (\<lambda>a bs p. (take (length (fst p) - padded (length bs)) (fst p) @ pad4 bs, snd p))\<rparr>"

definition byte_string :: "byte list light_flattenable" where
  "byte_string = \<lparr>isFixedSize = (\<lambda>_. False), getFlattenedSize = length, flatten = (\<lambda>v n. (status_of OK, v)),
     unflatten = (\<lambda>_ bs. (status_of OK, bs))\<rparr>"

lemma padded_aligned: "4 dvd n \<Longrightarrow> padded n = n"
  by (auto simp: padded_def)

lemma padding_parcel_laws:
  "write_laws bok padding_parcel byte_view benc" "read_laws bok padding_parcel byte_view benc"
  "inplace_pads padding_parcel byte_view" "light_laws byte_string"
proof -
  show "write_laws bok padding_parcel byte_view benc"
    using byte_parcel_writes
    by (simp add: write_laws_def padding_parcel_def)
       (auto simp: byte_parcel_def appended_def at_end_def length_pad4 pad4_aligned padded_aligned)
  show "read_laws bok padding_parcel byte_view benc"
    using byte_parcel_reads by (simp add: read_laws_def padding_parcel_def)
  show "inplace_pads padding_parcel byte_view"
    by (auto simp: inplace_pads_def padding_parcel_def appended_def at_end_def length_pad4)
  show "light_laws byte_string" by (simp add: light_laws_def byte_string_def)
qed

lemma light_roundtrip_example:
  "fst (read_light padding_parcel byte_string [9]
     (fst (snd (write_light padding_parcel byte_string [1, 2, 3] ([], 0))), 0)) = (status_of OK, [1, 2, 3])"
proof -
  have "write_light padding_parcel byte_string [1, 2, 3] ([], 0) = (status_of OK, enc32 3 @ [1, 2, 3, 0], 8)"
    by (simp add: write_light_def padding_parcel_def byte_string_def byte_parcel_def bwrite_def INT32_MAX_def padded_def pad4_def)
  from light_roundtrip [OF padding_parcel_laws _ _ this, of "(enc32 3 @ [1, 2, 3, 0], 0)" "[]" "[9]"]
  show ?thesis using \<open>write_light _ _ _ _ = _\<close> by (auto simp: byte_string_def at_end_def)
qed

section \<open>Flattenables\<close>

text \<open>The helper adds nothing: the object behind it is asked for everything.\<close>

lemma helper_forwards:
  "fl_getFlattenedSize (FlattenableHelper F) \<lparr>helper_val = v\<rparr> = fl_getFlattenedSize F v"
  "fl_getFdCount (FlattenableHelper F) \<lparr>helper_val = v\<rparr> = fl_getFdCount F v"
  "fl_flatten (FlattenableHelper F) \<lparr>helper_val = v\<rparr> n c = fl_flatten F v n c"
  "fl_unflatten (FlattenableHelper F) \<lparr>helper_val = v\<rparr> bs fds =
     map_prod id (\<lambda>v. \<lparr>helper_val = v\<rparr>) (fl_unflatten F v bs fds)"
  by (simp_all add: FlattenableHelper_def helper_getFlattenedSize_def helper_getFdCount_def helper_flatten_def
      helper_unflatten_def split: prod.splits)

section \<open>Front ends\<close>

text \<open>
  A front end for reading gives back what the front end for writing wrote; here those of enum and
  parcelable vectors, of nullable parcelables and of fixed arrays.
\<close>

lemma front_ends_roundtrip:
  assumes "write_laws ok Q V E" "read_laws ok Q V E" "allocates Q" "at_end V p"
    and "pdata V r = pdata V q @ rest" "ppos V r = ppos V p"
  shows "\<lbrakk>wt ok (PVector (TEnum u) (map PEnum vs)) (TVector (TEnum u)) False; writeEnumVector Q u vs p = (status_of OK, q);
      \<not> size_lost Q (PVector (TEnum u) (map PEnum vs)) p\<rbrakk>
      \<Longrightarrow> fst (readEnumVector Q u r) = Inr (PVector (TEnum u) (map PEnum vs))"
    and "\<lbrakk>wt ok (PVector TParcelable (map PParcelable ks)) (TVector TParcelable) False; writeParcelableVector Q ks p = (status_of OK, q);
      \<not> size_lost Q (PVector TParcelable (map PParcelable ks)) p\<rbrakk>
      \<Longrightarrow> fst (readParcelableVector Q r) = Inr (PVector TParcelable (map PParcelable ks))"
    and "\<lbrakk>\<forall>k. ko = Some k \<longrightarrow> ok (PParcelable k); writeNullableParcelable Q c ko p = (status_of OK, q);
      \<not> size_lost Q (PNullable c TParcelable (map_option PParcelable ko)) p\<rbrakk>
      \<Longrightarrow> fst (readParcelable Q c r) = Inr (PNullable c TParcelable (map_option PParcelable ko))"
    and "\<lbrakk>wt ok (PArray t xs) (TArray n t) False; writeFixedArray Q t xs p = (status_of OK, q);
      \<not> size_lost Q (PArray t xs) p\<rbrakk>
      \<Longrightarrow> fst (readFixedArray Q n t r) = Inr (PArray t xs)"
proof -
  note rt = write_then_read [OF assms(1-3) _ assms(4) _ _ assms(5,6)]
  show "\<lbrakk>wt ok (PVector (TEnum u) (map PEnum vs)) (TVector (TEnum u)) False; writeEnumVector Q u vs p = (status_of OK, q);
      \<not> size_lost Q (PVector (TEnum u) (map PEnum vs)) p\<rbrakk>
      \<Longrightarrow> fst (readEnumVector Q u r) = Inr (PVector (TEnum u) (map PEnum vs))"
    using rt by (fastforce simp: writeEnumVector_def readEnumVector_def)
  show "\<lbrakk>wt ok (PVector TParcelable (map PParcelable ks)) (TVector TParcelable) False; writeParcelableVector Q ks p = (status_of OK, q);
      \<not> size_lost Q (PVector TParcelable (map PParcelable ks)) p\<rbrakk>
      \<Longrightarrow> fst (readParcelableVector Q r) = Inr (PVector TParcelable (map PParcelable ks))"
    using rt by (fastforce simp: writeParcelableVector_def readParcelableVector_def)
  show "\<lbrakk>\<forall>k. ko = Some k \<longrightarrow> ok (PParcelable k); writeNullableParcelable Q c ko p = (status_of OK, q);
      \<not> size_lost Q (PNullable c TParcelable (map_option PParcelable ko)) p\<rbrakk>
      \<Longrightarrow> fst (readParcelable Q c r) = Inr (PNullable c TParcelable (map_option PParcelable ko))"
    using rt [of "PNullable c TParcelable (map_option PParcelable ko)" "TNullable c TParcelable"]
    by (fastforce simp: writeNullableParcelable_def readParcelable_def nullable_target_def split: option.splits)
  show "\<lbrakk>wt ok (PArray t xs) (TArray n t) False; writeFixedArray Q t xs p = (status_of OK, q);
      \<not> size_lost Q (PArray t xs) p\<rbrakk>
      \<Longrightarrow> fst (readFixedArray Q n t r) = Inr (PArray t xs)"
    using rt by (fastforce simp: writeFixedArray_def readFixedArray_def)
qed

section \<open>Interfaces and accessors\<close>

text \<open>
  A binder of another interface is an error for both readers; null is one for the reader of
  interfaces that may not be null only, if the cast keeps null.
\<close>

lemma interface_readers:
  assumes "readStrongBinder Q p = (Inr b, q)"
  shows "fst (readStrongBinder_interface Q cast p) = (if cast b = 0 then Inl (status_of UNKNOWN_ERROR) else Inr (cast b))"
  using assms by (simp add: readStrongBinder_interface_def Let_def)

lemma nullable_interface_readers:
  assumes "readNullableStrongBinder Q p = (Inr b, q)" "cast 0 = 0"
  shows "fst (readNullableStrongBinder_interface Q cast p) =
    (if b = 0 then Inr 0 else if cast b = 0 then Inl (status_of UNKNOWN_ERROR) else Inr (cast b))"
  using assms by (auto simp: readNullableStrongBinder_interface_def Let_def)

text \<open>A parcel has the fields of exactly one transport, a new one those of the kernel's.\<close>

lemma one_transport:
  "maybeKernelFields v = None \<longleftrightarrow> maybeRpcFields v \<noteq> None" "maybeKernelFields new_variant_fields = Some new_KernelFields"
  by (cases v) (simp_all add: new_variant_fields_def)

end
