(* ===== verification/Type_Helpers.thy ===== *)
theory Type_Helpers
  imports Prelude
begin

text \<open>
  The generic helpers of \<open>external/AOSP/include/utils/TypeHelpers.h\<close>: the type traits, comparison,
  creating, destroying, copying and moving runs of objects, key-value pairs and hash codes.
  Storage is a map from positions to objects; a position without an object is raw. An operation
  returns \<open>None\<close> when it uses storage as C++ forbids: it reads or destroys an object that is not
  there, or creates one over an object whose destructor has not run.
\<close>

unbundle bit_operations_syntax

section \<open>Traits\<close>

record type_traits =
  is_pointer :: bool
  has_trivial_ctor :: bool
  has_trivial_dtor :: bool
  has_trivial_copy :: bool
  has_trivial_move :: bool

datatype basic_type = Void | Boolean | Char | Unsigned_char | Short | Unsigned_short | Int | Unsigned_int
  | Long | Unsigned_long | Long_long | Unsigned_long_long | Float_type | Double_type

text \<open>A class has the traits that specialisations give it, by default none.\<close>

datatype cxx_type = Basic basic_type | Pointer cxx_type | Key_value_pair cxx_type cxx_type | Class_type string

definition aggregate_traits :: "type_traits \<Rightarrow> type_traits \<Rightarrow> type_traits" where
  "aggregate_traits t u = \<lparr>is_pointer = False,
     has_trivial_ctor = has_trivial_ctor t \<and> has_trivial_ctor u,
     has_trivial_dtor = has_trivial_dtor t \<and> has_trivial_dtor u,
     has_trivial_copy = has_trivial_copy t \<and> has_trivial_copy u,
     has_trivial_move = has_trivial_move t \<and> has_trivial_move u\<rparr>"

text \<open>The traits of a pair, those of its parts taken together.\<close>

definition pair_traits :: "type_traits \<Rightarrow> type_traits \<Rightarrow> type_traits" where
  [simp]: "pair_traits k v = aggregate_traits k v"

fun traits :: "(string \<Rightarrow> type_traits) \<Rightarrow> cxx_type \<Rightarrow> type_traits" where
  "traits S (Basic b) = \<lparr>is_pointer = False, has_trivial_ctor = True, has_trivial_dtor = True,
     has_trivial_copy = True, has_trivial_move = True\<rparr>"
| "traits S (Pointer t) = \<lparr>is_pointer = True, has_trivial_ctor = True, has_trivial_dtor = True,
     has_trivial_copy = True, has_trivial_move = True\<rparr>"
| "traits S (Key_value_pair k v) = pair_traits (traits S k) (traits S v)"
| "traits S (Class_type c) = S c"

definition use_trivial_move :: "type_traits \<Rightarrow> bool" where
  "use_trivial_move t \<longleftrightarrow> (has_trivial_dtor t \<and> has_trivial_copy t) \<or> has_trivial_move t"

section \<open>Comparison\<close>

definition strictly_order_type :: "('a \<Rightarrow> 'a \<Rightarrow> bool) \<Rightarrow> 'a \<Rightarrow> 'a \<Rightarrow> int" where
  "strictly_order_type lt lhs rhs = (if lt lhs rhs then 1 else 0)"

definition compare_type :: "('a \<Rightarrow> 'a \<Rightarrow> bool) \<Rightarrow> 'a \<Rightarrow> 'a \<Rightarrow> int" where
  "compare_type lt lhs rhs = strictly_order_type lt rhs lhs - strictly_order_type lt lhs rhs"

lemma compare_type_linorder:
  "compare_type (<) (x :: 'a :: linorder) y = (if x < y then -1 else if x = y then 0 else 1)"
  by (auto simp: compare_type_def strictly_order_type_def)

section \<open>Storage\<close>

type_synonym 'a cells = "nat \<Rightarrow> 'a option"

definition create :: "type_traits \<Rightarrow> nat \<Rightarrow> 'a \<Rightarrow> 'a cells \<Rightarrow> 'a cells option" where
  "create t p v m = (if m p = None \<or> has_trivial_dtor t then Some (m(p \<mapsto> v)) else None)"

definition destroy :: "nat \<Rightarrow> 'a cells \<Rightarrow> 'a cells option" where
  "destroy p m = (if m p = None then None else Some (m(p := None)))"

text \<open>\<open>new(d) TYPE(*s)\<close>, and \<open>*d = *s\<close> for a type that is copied bit by bit.\<close>

definition copy_create :: "type_traits \<Rightarrow> nat \<Rightarrow> nat \<Rightarrow> 'a cells \<Rightarrow> 'a cells option" where
  "copy_create t d s m = Option.bind (m s) (\<lambda>v. create t d v m)"

definition copy_assign :: "nat \<Rightarrow> nat \<Rightarrow> 'a cells \<Rightarrow> 'a cells option" where
  "copy_assign d s m = Option.bind (m s) (\<lambda>v. Some (m(d \<mapsto> v)))"

text \<open>\<open>memcpy\<close> and \<open>memmove\<close> of \<open>n\<close> objects; the bits of the source stay.\<close>

definition mem_copy :: "nat \<Rightarrow> nat \<Rightarrow> nat \<Rightarrow> 'a cells \<Rightarrow> 'a cells" where
  "mem_copy d s n m = (\<lambda>x. if d \<le> x \<and> x < d + n then m (s + (x - d)) else m x)"

fun construct_loop :: "type_traits \<Rightarrow> 'a \<Rightarrow> nat \<Rightarrow> nat \<Rightarrow> 'a cells \<Rightarrow> 'a cells option" where
  "construct_loop t v p 0 m = Some m"
| "construct_loop t v p (Suc n) m = Option.bind (create t p v m) (construct_loop t v (Suc p) n)"

text \<open>\<open>v\<close> is what the default constructor makes.\<close>

definition construct_type :: "type_traits \<Rightarrow> 'a \<Rightarrow> nat \<Rightarrow> nat \<Rightarrow> 'a cells \<Rightarrow> 'a cells option" where
  "construct_type t v p n m = (if \<not> has_trivial_ctor t then construct_loop t v p n m else Some m)"

fun destroy_loop :: "nat \<Rightarrow> nat \<Rightarrow> 'a cells \<Rightarrow> 'a cells option" where
  "destroy_loop p 0 m = Some m"
| "destroy_loop p (Suc n) m = Option.bind (destroy p m) (destroy_loop (Suc p) n)"

definition destroy_type :: "type_traits \<Rightarrow> nat \<Rightarrow> nat \<Rightarrow> 'a cells \<Rightarrow> 'a cells option" where
  "destroy_type t p n m = (if \<not> has_trivial_dtor t then destroy_loop p n m else Some m)"

fun copy_loop :: "type_traits \<Rightarrow> nat \<Rightarrow> nat \<Rightarrow> nat \<Rightarrow> 'a cells \<Rightarrow> 'a cells option" where
  "copy_loop t d s 0 m = Some m"
| "copy_loop t d s (Suc n) m = Option.bind (copy_create t d s m) (copy_loop t (Suc d) (Suc s) n)"

definition copy_type :: "type_traits \<Rightarrow> nat \<Rightarrow> nat \<Rightarrow> nat \<Rightarrow> 'a cells \<Rightarrow> 'a cells option" where
  "copy_type t d s n m = (if has_trivial_copy t then Some (mem_copy d s n m) else copy_loop t d s n m)"

fun splat_loop :: "(nat \<Rightarrow> 'a cells \<Rightarrow> 'a cells option) \<Rightarrow> nat \<Rightarrow> nat \<Rightarrow> 'a cells \<Rightarrow> 'a cells option" where
  "splat_loop put w 0 m = Some m"
| "splat_loop put w (Suc n) m = Option.bind (put w m) (splat_loop put (Suc w) n)"

definition splat_type :: "type_traits \<Rightarrow> nat \<Rightarrow> nat \<Rightarrow> nat \<Rightarrow> 'a cells \<Rightarrow> 'a cells option" where
  "splat_type t w what n m =
     (if \<not> has_trivial_copy t then splat_loop (\<lambda>w. copy_create t w what) w n m
      else splat_loop (\<lambda>w. copy_assign w what) w n m)"

section \<open>Moving\<close>

text \<open>The body of both loops: copy the object, then destroy the source.\<close>

definition move_one :: "type_traits \<Rightarrow> nat \<Rightarrow> nat \<Rightarrow> 'a cells \<Rightarrow> 'a cells option" where
  "move_one t d s m =
     Option.bind (if \<not> has_trivial_copy t then copy_create t d s m else copy_assign d s m)
       (\<lambda>m. if \<not> has_trivial_dtor t then destroy s m else Some m)"

text \<open>From the last object down.\<close>

fun move_forward_loop :: "type_traits \<Rightarrow> nat \<Rightarrow> nat \<Rightarrow> nat \<Rightarrow> 'a cells \<Rightarrow> 'a cells option" where
  "move_forward_loop t d s 0 m = Some m"
| "move_forward_loop t d s (Suc n) m = Option.bind (move_one t (d + n) (s + n) m) (move_forward_loop t d s n)"

definition move_forward_type :: "type_traits \<Rightarrow> nat \<Rightarrow> nat \<Rightarrow> nat \<Rightarrow> 'a cells \<Rightarrow> 'a cells option" where
  "move_forward_type t d s n m =
     (if use_trivial_move t then Some (mem_copy d s n m) else move_forward_loop t d s n m)"

text \<open>From the first object up.\<close>

fun move_backward_loop :: "type_traits \<Rightarrow> nat \<Rightarrow> nat \<Rightarrow> nat \<Rightarrow> 'a cells \<Rightarrow> 'a cells option" where
  "move_backward_loop t d s 0 m = Some m"
| "move_backward_loop t d s (Suc n) m = Option.bind (move_one t d s m) (move_backward_loop t (Suc d) (Suc s) n)"

definition move_backward_type :: "type_traits \<Rightarrow> nat \<Rightarrow> nat \<Rightarrow> nat \<Rightarrow> 'a cells \<Rightarrow> 'a cells option" where
  "move_backward_type t d s n m =
     (if use_trivial_move t then Some (mem_copy d s n m) else move_backward_loop t d s n m)"

text \<open>
  What moving is to achieve: the objects are at their new places, the storage they left is raw
  (or keeps bits that have no destructor), and nothing else changes.
\<close>

definition relocated :: "type_traits \<Rightarrow> nat \<Rightarrow> nat \<Rightarrow> nat \<Rightarrow> 'a cells \<Rightarrow> 'a cells" where
  "relocated t d s n m = (\<lambda>x.
     if d \<le> x \<and> x < d + n then m (s + (x - d))
     else if s \<le> x \<and> x < s + n \<and> \<not> has_trivial_dtor t then None else m x)"

text \<open>The source holds objects; the rest of the destination is raw, if that matters for the type.\<close>

definition movable :: "type_traits \<Rightarrow> nat \<Rightarrow> nat \<Rightarrow> nat \<Rightarrow> 'a cells \<Rightarrow> bool" where
  "movable t d s n m \<longleftrightarrow> (\<forall>i < n. m (s + i) \<noteq> None) \<and>
     (\<not> has_trivial_dtor t \<longrightarrow> (\<forall>x. d \<le> x \<and> x < d + n \<and> \<not> (s \<le> x \<and> x < s + n) \<longrightarrow> m x = None))"

lemma relocated_0: "relocated t d s 0 m = m"
  by (rule ext) (auto simp: relocated_def dest: leD)

lemma move_one_result:
  assumes "m s = Some v" "d \<noteq> s" "has_trivial_dtor t \<or> m d = None"
  shows "move_one t d s m = Some (if has_trivial_dtor t then m(d \<mapsto> v) else (m(d \<mapsto> v))(s := None))"
  using assms by (auto simp: move_one_def copy_create_def copy_assign_def create_def destroy_def)

lemma move_forward_loop_relocates:
  "s < d \<Longrightarrow> movable t d s n m \<Longrightarrow> move_forward_loop t d s n m = Some (relocated t d s n m)"
proof (induction n arbitrary: m)
  case 0
  show ?case by (simp add: relocated_0)
next
  case (Suc n)
  obtain v where v: "m (s + n) = Some v" using Suc.prems(2) by (fastforce simp: movable_def)
  define m1 where "m1 = (if has_trivial_dtor t then m(d + n \<mapsto> v) else (m(d + n \<mapsto> v))(s + n := None))"
  have "has_trivial_dtor t \<or> m (d + n) = None" using Suc.prems by (auto simp: movable_def)
  then have one: "move_one t (d + n) (s + n) m = Some m1"
    unfolding m1_def using move_one_result [where m = m, OF v] Suc.prems(1) by simp
  have "movable t d s n m1"
    using Suc.prems by (auto simp: movable_def m1_def)
  then have "move_forward_loop t d s n m1 = Some (relocated t d s n m1)" by (rule Suc.IH [OF Suc.prems(1)])
  moreover have "relocated t d s n m1 = relocated t d s (Suc n) m"
    using Suc.prems(1) v by (auto simp: relocated_def m1_def fun_eq_iff less_Suc_eq)
  ultimately show ?case by (simp add: one)
qed

lemma move_backward_loop_relocates:
  "d < s \<Longrightarrow> movable t d s n m \<Longrightarrow> move_backward_loop t d s n m = Some (relocated t d s n m)"
proof (induction n arbitrary: d s m)
  case 0
  show ?case by (simp add: relocated_0)
next
  case (Suc n)
  obtain v where v: "m s = Some v" using Suc.prems(2) by (fastforce simp: movable_def)
  define m1 where "m1 = (if has_trivial_dtor t then m(d \<mapsto> v) else (m(d \<mapsto> v))(s := None))"
  have "has_trivial_dtor t \<or> m d = None" using Suc.prems by (auto simp: movable_def)
  then have one: "move_one t d s m = Some m1"
    unfolding m1_def using move_one_result [where m = m, OF v] Suc.prems(1) by simp
  have "movable t (Suc d) (Suc s) n m1"
    using Suc.prems by (auto simp: movable_def m1_def)
  then have "move_backward_loop t (Suc d) (Suc s) n m1 = Some (relocated t (Suc d) (Suc s) n m1)"
    by (rule Suc.IH [rotated]) (use Suc.prems(1) in simp)
  moreover have "relocated t (Suc d) (Suc s) n m1 = relocated t d s (Suc n) m"
    using Suc.prems(1) v by (auto simp: relocated_def m1_def fun_eq_iff Suc_diff_le le_Suc_eq Suc_le_eq Suc_diff_Suc)
  ultimately show ?case by (simp add: one)
qed

text \<open>
  Moving a run of objects up (\<open>move_forward_type\<close>) or down (\<open>move_backward_type\<close>) by any
  distance, overlapping or not, uses no storage wrongly and puts every object at its new place,
  for every type: the two loops, which copy and destroy one object at a time, and \<open>memmove\<close>,
  which types with trivial traits use instead, agree on the destination, and each loop leaves the
  rest of the source raw when the type has a destructor.
\<close>

lemma move_type_relocates:
  assumes "movable t d s n m"
  shows "(s < d \<longrightarrow> move_forward_type t d s n m =
      Some (if use_trivial_move t then mem_copy d s n m else relocated t d s n m)) \<and>
    (d < s \<longrightarrow> move_backward_type t d s n m =
      Some (if use_trivial_move t then mem_copy d s n m else relocated t d s n m)) \<and>
    (\<forall>i < n. relocated t d s n m (d + i) = m (s + i) \<and> mem_copy d s n m (d + i) = m (s + i))"
  using move_forward_loop_relocates [OF _ assms] move_backward_loop_relocates [OF _ assms]
  by (auto simp: move_forward_type_def move_backward_type_def mem_copy_def relocated_def)

text \<open>Three objects of a class with a destructor move up by one.\<close>

lemma move_type_relocates_witness:
  "\<exists>m'. move_forward_type \<lparr>is_pointer = False, has_trivial_ctor = False, has_trivial_dtor = False, has_trivial_copy = False,
      has_trivial_move = False\<rparr> 5 4 3 (\<lambda>x. if 4 \<le> x \<and> x < 7 then Some x else None) = Some m' \<and> (\<forall>i < 3. m' (5 + i) = Some (4 + i))"
proof -
  define t where "t = \<lparr>is_pointer = False, has_trivial_ctor = False, has_trivial_dtor = False, has_trivial_copy = False,
      has_trivial_move = False\<rparr>"
  define m :: "nat cells" where "m = (\<lambda>x. if 4 \<le> x \<and> x < 7 then Some x else None)"
  have "movable t 5 4 3 m" by (auto simp: movable_def m_def)
  from move_type_relocates [OF this] show ?thesis unfolding t_def m_def by fastforce
qed

section \<open>Key-value pairs and hash codes\<close>

record ('k, 'v) key_value_pair_t =
  kv_key :: 'k
  kv_value :: 'v

definition key_value_less :: "('k \<Rightarrow> 'k \<Rightarrow> bool) \<Rightarrow> ('k, 'v) key_value_pair_t \<Rightarrow> ('k, 'v) key_value_pair_t \<Rightarrow> bool" where
  "key_value_less lt a o' \<longleftrightarrow> strictly_order_type lt (kv_key a) (kv_key o') \<noteq> 0"

type_synonym hash_t = u32

definition hash_int32 :: "u32 \<Rightarrow> hash_t" where "hash_int32 value = value"

definition hash_int64 :: "u64 \<Rightarrow> hash_t" where
  "hash_int64 value = ucast (signed_drop_bit 32 value XOR value)"

definition hash_uint64 :: "u64 \<Rightarrow> hash_t" where
  "hash_uint64 value = ucast (drop_bit 32 value XOR value)"

text \<open>
  The narrower integers convert to \<open>int\<close> first; a floating-point number is hashed as the integer
  with its bits, a pointer as \<open>uintptr_t\<close>.
\<close>

definition hash_bool :: "bool \<Rightarrow> hash_t" where "hash_bool value = hash_int32 (if value then 1 else 0)"
definition hash_int8 :: "8 word \<Rightarrow> hash_t" where "hash_int8 value = hash_int32 (scast value)"
definition hash_uint8 :: "8 word \<Rightarrow> hash_t" where "hash_uint8 value = hash_int32 (ucast value)"
definition hash_int16 :: "16 word \<Rightarrow> hash_t" where "hash_int16 value = hash_int32 (scast value)"
definition hash_uint16 :: "16 word \<Rightarrow> hash_t" where "hash_uint16 value = hash_int32 (ucast value)"
definition hash_float :: "u32 \<Rightarrow> hash_t" where "hash_float bits = hash_int32 bits"
definition hash_double :: "u64 \<Rightarrow> hash_t" where "hash_double bits = hash_uint64 bits"
definition hash_pointer_32 :: "u32 \<Rightarrow> hash_t" where "hash_pointer_32 value = hash_int32 value"
definition hash_pointer_64 :: "u64 \<Rightarrow> hash_t" where "hash_pointer_64 value = hash_uint64 value"

text \<open>A 64-bit number that fits into 32 bits hashes like the 32-bit one; the sign makes no difference.\<close>

lemma hash_small: "hash_uint64 (ucast (v :: u32)) = hash_int32 v"
  by (rule bit_word_eqI) (auto simp: hash_uint64_def hash_int32_def bit_simps dest: bit_imp_le_length)

lemma hash_signs: "hash_int64 v = hash_uint64 v"
  by (rule bit_word_eqI) (auto simp: hash_int64_def hash_uint64_def bit_simps)

end
