(* ===== verification/Pointer_Moves.thy ===== *)
theory Pointer_Moves
  imports Weak_Pointer Type_Helpers "HOL-Library.Multiset"
begin

text \<open>
  The members of \<open>sp<T>\<close> and \<open>wp<T>\<close> that take a pointer to another class, and arrays of smart
  pointers. \<open>conv\<close> is the conversion of addresses from \<open>U*\<close> to \<open>T*\<close> (with several base classes the
  address changes). Arrays are moved by \<open>ReferenceMover\<close> with \<open>memmove\<close>, without touching a
  counter; the functions that tell the debugging code of \<open>RefBase.cpp\<close> are a parameter.
\<close>

section \<open>Converting members of sp<T>\<close>

definition sp_copy_conv :: "('w, 'x) refcount_ops_scheme \<Rightarrow> (ptr \<Rightarrow> ptr) \<Rightarrow> ptr \<Rightarrow> 'w \<Rightarrow> ptr \<times> 'w" where
  "sp_copy_conv R conv other w =
     (let m_ptr = conv other in (m_ptr, if m_ptr \<noteq> nullptr then incStrong R m_ptr w else w))"

definition sp_move_conv :: "(ptr \<Rightarrow> ptr) \<Rightarrow> ptr \<Rightarrow> 'w \<Rightarrow> ptr \<times> ptr \<times> 'w" where
  "sp_move_conv conv other w = (conv other, nullptr, w)"

definition sp_of_ptr_conv :: "('w, 'x) refcount_ops_scheme \<Rightarrow> (ptr \<Rightarrow> ptr) \<Rightarrow> ptr \<Rightarrow> 'w \<Rightarrow> ptr \<times> 'w" where
  "sp_of_ptr_conv R conv other w =
     (conv other, if other \<noteq> nullptr then incStrong R (conv other) w else w)"

definition sp_assign_conv :: "('w, 'x) refcount_ops_scheme \<Rightarrow> (ptr \<Rightarrow> ptr) \<Rightarrow> ptr \<Rightarrow> ptr \<Rightarrow> 'w \<Rightarrow> ptr \<times> 'w" where
  "sp_assign_conv R conv m_ptr other w =
     (let oldPtr = m_ptr; otherPtr = conv other;
          w = (if otherPtr \<noteq> nullptr then incStrong R otherPtr w else w);
          w = (if oldPtr \<noteq> nullptr then decStrong R oldPtr w else w)
      in (otherPtr, w))"

definition sp_assign_move_conv ::
  "('w, 'x) refcount_ops_scheme \<Rightarrow> (ptr \<Rightarrow> ptr) \<Rightarrow> ptr \<Rightarrow> ptr \<Rightarrow> 'w \<Rightarrow> ptr \<times> ptr \<times> 'w" where
  "sp_assign_move_conv R conv m_ptr other w =
     (let w = (if m_ptr \<noteq> nullptr then decStrong R m_ptr w else w) in (conv other, nullptr, w))"

definition sp_assign_ptr_conv :: "('w, 'x) refcount_ops_scheme \<Rightarrow> (ptr \<Rightarrow> ptr) \<Rightarrow> ptr \<Rightarrow> ptr \<Rightarrow> 'w \<Rightarrow> ptr \<times> 'w" where
  "sp_assign_ptr_conv R conv m_ptr other w =
     (let oldPtr = m_ptr;
          w = (if other \<noteq> nullptr then incStrong R (conv other) w else w);
          w = (if oldPtr \<noteq> nullptr then decStrong R oldPtr w else w)
      in (conv other, w))"

section \<open>Converting members of wp<T>\<close>

definition wp_of_sp_conv :: "('w, 'x) refbase_ops_scheme \<Rightarrow> (ptr \<Rightarrow> ptr) \<Rightarrow> ptr \<Rightarrow> 'w \<Rightarrow> wp \<times> 'w" where
  "wp_of_sp_conv R conv other w =
     (let m_ptr = conv other
      in if m_ptr \<noteq> nullptr then let (refs, w) = createWeak R m_ptr w in (Wp m_ptr refs, w)
         else (Wp m_ptr nullptr, w))"

definition wp_assign_conv :: "('w, 'x) refbase_ops_scheme \<Rightarrow> (ptr \<Rightarrow> ptr) \<Rightarrow> wp \<Rightarrow> wp \<Rightarrow> 'w \<Rightarrow> wp \<times> 'w" where
  "wp_assign_conv R conv a other w =
     (let otherRefs = wp_refs other; otherPtr = wp_ptr other;
          w = (if otherPtr \<noteq> nullptr then incWeak R otherRefs w else w);
          w = (if wp_ptr a \<noteq> nullptr then decWeak R (wp_refs a) w else w)
      in (Wp (conv otherPtr) otherRefs, w))"

definition wp_assign_sp_conv :: "('w, 'x) refbase_ops_scheme \<Rightarrow> (ptr \<Rightarrow> ptr) \<Rightarrow> wp \<Rightarrow> ptr \<Rightarrow> 'w \<Rightarrow> wp \<times> 'w" where
  "wp_assign_sp_conv R conv a other w =
     (let (newRefs, w) = (if other \<noteq> nullptr then createWeak R other w else (nullptr, w));
          otherPtr = other;
          w = (if wp_ptr a \<noteq> nullptr then decWeak R (wp_refs a) w else w)
      in (Wp (conv otherPtr) newRefs, w))"

text \<open>
  A conversion between classes of one object: only null becomes null, and the reference counts
  are those of the one \<open>RefBase\<close> part, whichever address is used.
\<close>

definition upcast :: "('w, 'x) refbase_ops_scheme \<Rightarrow> (ptr \<Rightarrow> ptr) \<Rightarrow> bool" where
  "upcast R conv \<longleftrightarrow> (\<forall>p. conv p = nullptr \<longleftrightarrow> p = nullptr) \<and>
     (\<forall>p. incStrong R (conv p) = incStrong R p) \<and> (\<forall>p. createWeak R (conv p) = createWeak R p)"

text \<open>The converting members count as the plain ones do; only the address is converted.\<close>

lemma converting_members:
  assumes "upcast R conv"
  shows "sp_copy_conv R conv p w = map_prod conv id (sp_copy R p w)"
    and "sp_of_ptr_conv R conv p w = map_prod conv id (sp_of_ptr R p w)"
    and "sp_assign_conv R conv q p w = map_prod conv id (sp_assign R q p w)"
    and "sp_assign_ptr_conv R conv q p w = map_prod conv id (sp_assign_ptr R q p w)"
    and "sp_assign_move_conv R conv q p w = map_prod conv id (sp_assign_move R q p w)"
    and "wp_of_sp_conv R conv p w = (case wp_of_sp R p w of (a, w) \<Rightarrow> (Wp (conv (wp_ptr a)) (wp_refs a), w))"
    and "wp_assign_conv R conv a b w = (case wp_assign R a b w of (c, w) \<Rightarrow> (Wp (conv (wp_ptr c)) (wp_refs c), w))"
    and "wp_assign_sp_conv R conv a p w = (case wp_assign_sp R a p w of (c, w) \<Rightarrow> (Wp (conv (wp_ptr c)) (wp_refs c), w))"
  using assms
  by (auto simp: upcast_def sp_copy_conv_def sp_copy_def sp_of_ptr_conv_def sp_of_ptr_def sp_assign_conv_def
      sp_assign_def sp_assign_ptr_conv_def sp_assign_ptr_def sp_assign_move_conv_def sp_assign_move_def
      wp_of_sp_conv_def wp_of_sp_def wp_assign_conv_def wp_assign_def wp_assign_sp_conv_def wp_assign_sp_def
      Let_def split: prod.splits)

section \<open>Arrays of smart pointers\<close>

text \<open>
  A renamer is the function object that \<open>renameRefs\<close> calls with an index: it tells the object
  the pointer at the new place refers to that its reference has a new name, the address of the
  pointer. No pointer is read from raw storage.
\<close>

definition sp_renamer :: "(ptr \<Rightarrow> nat \<Rightarrow> nat \<Rightarrow> 'w \<Rightarrow> 'w) \<Rightarrow> ptr cells \<Rightarrow> nat \<Rightarrow> nat \<Rightarrow> nat \<Rightarrow> 'w \<Rightarrow> 'w" where
  "sp_renamer renameRefId m d s i w = (case m (d + i) of Some p \<Rightarrow> renameRefId p (s + i) (d + i) w | None \<Rightarrow> w)"

definition wp_renamer :: "(ptr \<Rightarrow> nat \<Rightarrow> nat \<Rightarrow> 'w \<Rightarrow> 'w) \<Rightarrow> wp cells \<Rightarrow> nat \<Rightarrow> nat \<Rightarrow> nat \<Rightarrow> 'w \<Rightarrow> 'w" where
  "wp_renamer renameRefId m d s i w =
     (case m (d + i) of Some a \<Rightarrow> renameRefId (wp_refs a) (s + i) (d + i) w | None \<Rightarrow> w)"

text \<open>The two functions that rename, of a class \<open>TYPE\<close>; those of \<open>LightRefBase\<close> do nothing.\<close>

record 'w renaming =
  renameRefs :: "nat \<Rightarrow> (nat \<Rightarrow> 'w \<Rightarrow> 'w) \<Rightarrow> 'w \<Rightarrow> 'w"
  renameRefId :: "ptr \<Rightarrow> nat \<Rightarrow> nat \<Rightarrow> 'w \<Rightarrow> 'w"

definition LightRefBase_renaming :: "'w renaming" where
  "LightRefBase_renaming = \<lparr>renameRefs = (\<lambda>n renamer w. w), renameRefId = (\<lambda>ref old_id new_id w. w)\<rparr>"

definition sp_move_references :: "'w renaming \<Rightarrow> nat \<Rightarrow> nat \<Rightarrow> nat \<Rightarrow> ptr cells \<times> 'w \<Rightarrow> ptr cells \<times> 'w" where
  "sp_move_references N dest src n x =
     (case x of (m, w) \<Rightarrow> let m = mem_copy dest src n m in (m, renameRefs N n (sp_renamer (renameRefId N) m dest src) w))"

definition wp_move_references :: "'w renaming \<Rightarrow> nat \<Rightarrow> nat \<Rightarrow> nat \<Rightarrow> wp cells \<times> 'w \<Rightarrow> wp cells \<times> 'w" where
  "wp_move_references N dest src n x =
     (case x of (m, w) \<Rightarrow> let m = mem_copy dest src n m in (m, renameRefs N n (wp_renamer (renameRefId N) m dest src) w))"

definition move_forward_type_sp :: "'w renaming \<Rightarrow> nat \<Rightarrow> nat \<Rightarrow> nat \<Rightarrow> ptr cells \<times> 'w \<Rightarrow> ptr cells \<times> 'w" where
  "move_forward_type_sp N d s n x = sp_move_references N d s n x"

definition move_backward_type_sp :: "'w renaming \<Rightarrow> nat \<Rightarrow> nat \<Rightarrow> nat \<Rightarrow> ptr cells \<times> 'w \<Rightarrow> ptr cells \<times> 'w" where
  "move_backward_type_sp N d s n x = sp_move_references N d s n x"

definition move_forward_type_wp :: "'w renaming \<Rightarrow> nat \<Rightarrow> nat \<Rightarrow> nat \<Rightarrow> wp cells \<times> 'w \<Rightarrow> wp cells \<times> 'w" where
  "move_forward_type_wp N d s n x = wp_move_references N d s n x"

definition move_backward_type_wp :: "'w renaming \<Rightarrow> nat \<Rightarrow> nat \<Rightarrow> nat \<Rightarrow> wp cells \<times> 'w \<Rightarrow> wp cells \<times> 'w" where
  "move_backward_type_wp N d s n x = wp_move_references N d s n x"

text \<open>
  The number of owners of \<open>p\<close> in storage. The bits \<open>memmove\<close> leaves behind are no owners: the
  storage after the move is \<open>relocated\<close>, for a type that has a destructor.
\<close>

definition owners :: "'a \<Rightarrow> 'a cells \<Rightarrow> nat" where
  "owners p m = card {x. m x = Some p}"

lemma relocated_owners:
  assumes "movable t d s n m" "\<not> has_trivial_dtor t"
  shows "owners p (relocated t d s n m) = owners p m"
proof -
  let ?f = "\<lambda>x. if s \<le> x \<and> x < s + n then x - s + d else x"
  let ?g = "\<lambda>x. if d \<le> x \<and> x < d + n then x - d + s else x"
  have raw: "m x = None" if "d \<le> x" "x < d + n" "\<not> (s \<le> x \<and> x < s + n)" for x
    using assms that by (simp add: movable_def)
  have "bij_betw ?f {x. m x = Some p} {x. relocated t d s n m x = Some p}"
  proof (rule bij_betw_byWitness [where f' = ?g])
    show "\<forall>a \<in> {x. m x = Some p}. ?g (?f a) = a"
      using raw by (force simp: less_diff_conv2)
    show "\<forall>a \<in> {x. relocated t d s n m x = Some p}. ?f (?g a) = a"
      using assms(2) by (auto simp: relocated_def split: if_splits)
    show "?f ` {x. m x = Some p} \<subseteq> {x. relocated t d s n m x = Some p}"
      using raw assms(2) by (force simp: relocated_def)
    show "?g ` {x. relocated t d s n m x = Some p} \<subseteq> {x. m x = Some p}"
      using assms(2) by (auto simp: relocated_def add.commute split: if_splits)
  qed
  then show ?thesis unfolding owners_def by (rule bij_betw_same_card [symmetric])
qed

section \<open>Names of references\<close>

text \<open>
  With tracking on, every object knows the names of its references, a multiset of addresses.
  \<open>renameRefs\<close> calls the renamer for each index in order, and \<open>renameRefId\<close> replaces one occurrence
  of a name. Where the runs overlap a new name may equal an old one that is still to be replaced.
\<close>

definition renames_ids :: "'w renaming \<Rightarrow> ('w \<Rightarrow> ptr \<Rightarrow> nat multiset) \<Rightarrow> bool" where
  "renames_ids N ids \<longleftrightarrow>
     (\<forall>n renamer w. renameRefs N n renamer w = fold renamer [0..<n] w) \<and>
     (\<forall>p old new w. old \<in># ids w p \<longrightarrow>
        ids (renameRefId N p old new w) = (ids w)(p := add_mset new (ids w p - {#old#})))"

definition held_at :: "ptr cells \<Rightarrow> nat \<Rightarrow> nat \<Rightarrow> ptr \<Rightarrow> nat set" where
  "held_at m s n p = {i. i < n \<and> m (s + i) = Some p}"

lemma held_at_finite [simp]: "finite (held_at m s n p)"
  by (simp add: held_at_def)

lemma held_at_Suc:
  "held_at m s (Suc n) p = (if m (s + n) = Some p then insert n (held_at m s n p) else held_at m s n p)"
  by (auto simp: held_at_def less_Suc_eq)

lemma held_at_fresh: "n \<notin> held_at m s n p" by (simp add: held_at_def)

lemma held_at_image: "(+) c ` held_at m s n p = {x. c \<le> x \<and> x < c + n \<and> m (s + (x - c)) = Some p}"
proof (intro equalityI subsetI)
  fix x assume "x \<in> {x. c \<le> x \<and> x < c + n \<and> m (s + (x - c)) = Some p}"
  then have "x = c + (x - c)" "x - c \<in> held_at m s n p" by (auto simp: held_at_def)
  then show "x \<in> (+) c ` held_at m s n p" by (rule image_eqI)
qed (auto simp: held_at_def)

text \<open>After \<open>k\<close> calls: the old names of the first \<open>k\<close> pointers are gone, their new names there.\<close>

lemma renamed_prefix:
  assumes N: "renames_ids N ids" and m': "\<forall>i < n. m' (d + i) = m (s + i)"
    and all: "\<forall>i < n. m (s + i) \<noteq> None"
    and named: "\<forall>p. image_mset ((+) s) (mset_set (held_at m s n p)) \<subseteq># ids w p"
  shows "k \<le> n \<Longrightarrow> ids (fold (sp_renamer (renameRefId N) m' d s) [0..<k] w) p + image_mset ((+) s) (mset_set (held_at m s k p))
    = ids w p + image_mset ((+) d) (mset_set (held_at m s k p))"
proof (induction k arbitrary: p)
  case 0
  then show ?case by (simp add: held_at_def)
next
  case (Suc k)
  let ?w = "fold (sp_renamer (renameRefId N) m' d s) [0..<k] w"
  obtain q where q: "m (s + k) = Some q" using all Suc.prems by (metis Suc_le_lessD not_None_eq)
  have IH: "ids ?w p + image_mset ((+) s) (mset_set (held_at m s k p))
      = ids w p + image_mset ((+) d) (mset_set (held_at m s k p))" for p
    using Suc by simp
  have "k \<in> held_at m s n q" using q Suc.prems by (simp add: held_at_def)
  then have "s + k \<in># image_mset ((+) s) (mset_set (held_at m s n q))" by simp
  then have "s + k \<in># ids w q" using named by (meson mset_subset_eqD)
  then have "s + k \<in># ids ?w q + image_mset ((+) s) (mset_set (held_at m s k q))" by (simp add: IH)
  then have pres: "s + k \<in># ids ?w q" using held_at_fresh by auto
  have step: "fold (sp_renamer (renameRefId N) m' d s) [0..<Suc k] w = renameRefId N q (s + k) (d + k) ?w"
    using m' q Suc.prems by (simp add: sp_renamer_def)
  have "ids (renameRefId N q (s + k) (d + k) ?w) = (ids ?w)(q := add_mset (d + k) (ids ?w q - {#s + k#}))"
    using N pres by (simp add: renames_ids_def)
  moreover obtain A where A: "ids ?w q = add_mset (s + k) A" using pres by (metis insert_DiffM)
  ultimately have upd: "ids (renameRefId N q (s + k) (d + k) ?w) = (ids ?w)(q := add_mset (d + k) A)" by simp
  show ?case
  proof (cases "p = q")
    case True
    then show ?thesis using IH [of q] q held_at_fresh [of k m s q]
      unfolding step upd by (simp add: held_at_Suc A)
  next
    case False
    then show ?thesis using IH [of p] q unfolding step upd by (simp add: held_at_Suc)
  qed
qed

text \<open>
  Moving an array of strong pointers keeps every object's names up to date: if they were the
  addresses of the pointers that refer to it, they are so after the move, whatever the overlap.
\<close>

lemma moved_pointers_renamed:
  assumes N: "renames_ids N ids" and mv: "movable t d s n m" and t: "\<not> has_trivial_dtor t" and fin: "finite (dom m)"
    and names: "\<forall>p. ids w p = mset_set {x. m x = Some p}"
    and moved: "sp_move_references N d s n (m, w) = (m', w')"
  shows "ids w' p = mset_set {x. relocated t d s n m x = Some p}"
proof -
  define I where "I = held_at m s n p"
  have finI: "finite I" by (simp add: I_def)
  have fm: "finite {x. m x = Some q}" for q
    by (rule finite_subset [OF _ fin]) auto
  have O: "image_mset ((+) c) (mset_set (held_at m s n q)) = mset_set ((+) c ` held_at m s n q)" for c q
    by (rule image_mset_mset_set) simp
  have sub: "(+) s ` held_at m s n q \<subseteq> {x. m x = Some q}" for q by (auto simp: held_at_def)
  have w': "w' = fold (sp_renamer (renameRefId N) m' d s) [0..<n] w" and m': "m' = mem_copy d s n m"
    using moved N by (auto simp: sp_move_references_def renames_ids_def Let_def)
  have "ids w' p + mset_set ((+) s ` I) = ids w p + mset_set ((+) d ` I)"
    unfolding w' I_def O [symmetric]
  proof (rule renamed_prefix [OF N _ _ _ order_refl])
    show "\<forall>i<n. m' (d + i) = m (s + i)" by (simp add: m' mem_copy_def)
    show "\<forall>i<n. m (s + i) \<noteq> None" using mv by (simp add: movable_def)
    show "\<forall>q. image_mset ((+) s) (mset_set (held_at m s n q)) \<subseteq># ids w q"
      using sub fm by (simp add: O names subset_imp_msubset_mset_set)
  qed
  moreover have "mset_set {x. relocated t d s n m x = Some p} + mset_set ((+) s ` I)
      = mset_set {x. m x = Some p} + mset_set ((+) d ` I)"
  proof -
    have raw: "m x = None" if "d \<le> x" "x < d + n" "\<not> (s \<le> x \<and> x < s + n)" for x
      using mv t that by (simp add: movable_def)
    have r: "{x. relocated t d s n m x = Some p} = ({x. m x = Some p} - (+) s ` I) \<union> (+) d ` I"
      using raw t by (auto simp: relocated_def I_def held_at_image split: if_splits)
    have disj: "({x. m x = Some p} - (+) s ` I) \<inter> (+) d ` I = {}"
    proof (rule equals0I)
      fix x assume x: "x \<in> ({x. m x = Some p} - (+) s ` I) \<inter> (+) d ` I"
      then have h: "m x = Some p" "d \<le> x" "x < d + n" unfolding I_def held_at_image by blast+
      then have "s \<le> x" "x < s + n" using raw by force+
      then have "x \<in> (+) s ` I" using h(1) by (simp add: I_def held_at_image)
      then show False using x by blast
    qed
    have "mset_set {x. m x = Some p} = mset_set ({x. m x = Some p} - (+) s ` I) + mset_set ((+) s ` I)"
      using sub [of p] fm [of p] by (simp add: I_def mset_set_Diff subset_imp_msubset_mset_set)
    then show ?thesis using fm [of p] finI by (simp add: r mset_set_Union [OF _ _ disj])
  qed
  ultimately show ?thesis by (metis add_right_cancel names)
qed

text \<open>A tracker that keeps the multisets as its state.\<close>

definition tracking :: "(ptr \<Rightarrow> nat multiset) renaming" where
  "tracking = \<lparr>renameRefs = (\<lambda>n renamer w. fold renamer [0..<n] w),
     renameRefId = (\<lambda>ref old new w. w(ref := add_mset new (w ref - {#old#})))\<rparr>"

lemma tracking_renames: "renames_ids tracking (\<lambda>w. w)"
  by (simp add: renames_ids_def tracking_def)

text \<open>A class without tracking is moved by \<open>memmove\<close> alone.\<close>

lemma light_move: "sp_move_references LightRefBase_renaming d s n (m, w) = (mem_copy d s n m, w)"
  by (simp add: sp_move_references_def LightRefBase_renaming_def)

end
