(* ===== verification/Interfaces.thy ===== *)
theory Interfaces
  imports Weak_Pointer Android_Errors
begin

text \<open>
  The templates for binder interfaces: casts from a binder to an interface and the list of
  manually written interfaces (\<open>binder/IInterface.h\<close>), looking up services
  (\<open>binder/IServiceManager.h\<close>), the private view of a proxy (\<open>binder/BpBinder.h\<close>), the accessors of \<open>binder/Status.h\<close>, and the thread of a
  single-threaded build (\<open>binder/RpcThreads.h\<close>). In the lookups \<open>None\<close> is a call through a null pointer or a failed
  assertion. Virtual functions and constructors are the fields of records; a function that returns
  a strong pointer hands its reference to the caller.
\<close>

section \<open>Interface casts\<close>

record 'w interface_ops = "'w refbase_ops" +
  queryLocalInterface :: "ptr \<Rightarrow> string \<Rightarrow> 'w \<Rightarrow> ptr \<times> 'w"
  getInterfaceDescriptor :: "ptr \<Rightarrow> 'w \<Rightarrow> string"
  new_proxy :: "ptr \<Rightarrow> 'w \<Rightarrow> ptr \<times> 'w"

text \<open>The descriptor of an interface and the conversion of addresses from \<open>IInterface*\<close>.\<close>

record itype =
  it_descriptor :: string
  it_cast :: "ptr \<Rightarrow> ptr"

definition asInterface :: "('w, 'x) interface_ops_scheme \<Rightarrow> itype \<Rightarrow> ptr \<Rightarrow> 'w \<Rightarrow> ptr \<times> 'w" where
  "asInterface L I obj w =
     (if obj \<noteq> nullptr then
        (let (found, w) = queryLocalInterface L obj (it_descriptor I) w;
             (casted, w) = sp_cast L (it_cast I found) w;
             (intr, _, w) = sp_assign_move L nullptr casted w;
             w = sp_destroy L found w
         in if intr = nullptr then
              (let (proxy, w) = new_proxy L obj w;
                   (made, w) = sp_make L proxy w;
                   (intr, _, w) = sp_assign_move L intr made w
               in (intr, w))
            else (intr, w))
      else (nullptr, w))"

definition interface_cast :: "('w, 'x) interface_ops_scheme \<Rightarrow> itype \<Rightarrow> ptr \<Rightarrow> 'w \<Rightarrow> ptr \<times> 'w" where
  "interface_cast L I obj w = asInterface L I obj w"

definition checked_interface_cast :: "('w, 'x) interface_ops_scheme \<Rightarrow> itype \<Rightarrow> ptr \<Rightarrow> 'w \<Rightarrow> (ptr \<times> 'w) option" where
  "checked_interface_cast L I obj w =
     (if obj = nullptr then None
      else if getInterfaceDescriptor L obj w \<noteq> it_descriptor I then Some (nullptr, w)
      else Some (interface_cast L I obj w))"

text \<open>\<open>BnInterface::queryLocalInterface\<close>, of the object \<open>this\<close>.\<close>

definition Bn_queryLocalInterface :: "('w, 'x) refcount_ops_scheme \<Rightarrow> itype \<Rightarrow> ptr \<Rightarrow> string \<Rightarrow> 'w \<Rightarrow> ptr \<times> 'w" where
  "Bn_queryLocalInterface R I this descriptor w =
     (if descriptor = it_descriptor I then sp_fromExisting R this w else (nullptr, w))"

definition Bn_getInterfaceDescriptor :: "itype \<Rightarrow> string" where "Bn_getInterfaceDescriptor I = it_descriptor I"

definition Bn_onAsBinder :: "ptr \<Rightarrow> ptr" where "Bn_onAsBinder this = this"

text \<open>A proxy: \<open>mRemote\<close> is its field; the constructor of \<open>BpRefBase\<close> is in the library.\<close>

record bp_ref_base =
  mRemote :: ptr

definition remote :: "bp_ref_base \<Rightarrow> ptr" where "remote b = mRemote b"

definition remoteStrong :: "('w, 'x) refcount_ops_scheme \<Rightarrow> bp_ref_base \<Rightarrow> 'w \<Rightarrow> ptr \<times> 'w" where
  "remoteStrong R b w = sp_fromExisting R (mRemote b) w"

definition Bp_onAsBinder :: "bp_ref_base \<Rightarrow> ptr" where "Bp_onAsBinder b = remote b"

text \<open>\<open>CHECK_INTERFACE\<close>: the status the enclosing function returns early, if any.\<close>

definition CHECK_INTERFACE :: "('p \<Rightarrow> ptr \<Rightarrow> bool) \<Rightarrow> 'p \<Rightarrow> ptr \<Rightarrow> status_t option" where
  "CHECK_INTERFACE checkInterface data this =
     (if \<not> checkInterface data this then Some (status_of PERMISSION_DENIED) else None)"

definition getDefaultImpl :: "ptr \<Rightarrow> ptr" where "getDefaultImpl default_impl = default_impl"

text \<open>The new \<open>default_impl\<close> and the result; the argument, passed by value, is destroyed.\<close>

definition setDefaultImpl ::
  "('w, 'x) refcount_ops_scheme \<Rightarrow> ptr \<Rightarrow> ptr \<Rightarrow> 'w \<Rightarrow> (bool \<times> ptr \<times> 'w) option" where
  "setDefaultImpl R default_impl impl w =
     (if sp_bool default_impl then None
      else if sp_bool impl then
        (let (default_impl, impl, w) = sp_assign_move R default_impl impl w
         in Some (True, default_impl, sp_destroy R impl w))
      else Some (False, default_impl, sp_destroy R impl w))"

section \<open>The private view of a proxy\<close>

text \<open>
  \<open>BpBinder::PrivateAccessor\<close>, made of a constant proxy or of one that may be changed; the functions
  of \<open>BpBinder\<close> it calls are in the library. \<open>None\<close> is a call through a null pointer.
\<close>

datatype bp_handle = BinderHandle "32 word" | RpcHandle ptr "64 word"

record PrivateAccessor =
  mBinder :: ptr
  mMutableBinder :: ptr

definition PrivateAccessor_const :: "ptr \<Rightarrow> PrivateAccessor" where
  "PrivateAccessor_const binder = \<lparr>mBinder = binder, mMutableBinder = nullptr\<rparr>"

definition PrivateAccessor :: "ptr \<Rightarrow> PrivateAccessor" where
  "PrivateAccessor binder = \<lparr>mBinder = binder, mMutableBinder = binder\<rparr>"

definition getPrivateAccessor_const :: "ptr \<Rightarrow> PrivateAccessor" where
  "getPrivateAccessor_const this = PrivateAccessor_const this"

definition getPrivateAccessor :: "ptr \<Rightarrow> PrivateAccessor" where "getPrivateAccessor this = PrivateAccessor this"

definition accessor_binderHandle :: "(ptr \<Rightarrow> 'x) \<Rightarrow> PrivateAccessor \<Rightarrow> 'x" where
  "accessor_binderHandle binderHandle a = binderHandle (mBinder a)"

definition accessor_rpcAddress :: "(ptr \<Rightarrow> 'x) \<Rightarrow> PrivateAccessor \<Rightarrow> 'x" where
  "accessor_rpcAddress rpcAddress a = rpcAddress (mBinder a)"

definition accessor_rpcSession :: "(ptr \<Rightarrow> 'x) \<Rightarrow> PrivateAccessor \<Rightarrow> 'x" where
  "accessor_rpcSession rpcSession a = rpcSession (mBinder a)"

definition accessor_onFrozenStateChanged :: "(ptr \<Rightarrow> bool \<Rightarrow> 'w \<Rightarrow> 'w) \<Rightarrow> PrivateAccessor \<Rightarrow> bool \<Rightarrow> 'w \<Rightarrow> 'w option" where
  "accessor_onFrozenStateChanged onFrozenStateChanged a isFrozen w =
     (if mMutableBinder a = nullptr then None else Some (onFrozenStateChanged (mMutableBinder a) isFrozen w))"

text \<open>Both kinds show the same proxy; only the one made of a proxy that may be changed changes it.\<close>

lemma private_accessors:
  "accessor_binderHandle h (getPrivateAccessor_const b) = accessor_binderHandle h (getPrivateAccessor b)"
  "accessor_onFrozenStateChanged f (getPrivateAccessor_const b) z w = None"
  "b \<noteq> nullptr \<Longrightarrow> accessor_onFrozenStateChanged f (getPrivateAccessor b) z w = Some (f b z w)"
  by (simp_all add: accessor_binderHandle_def accessor_onFrozenStateChanged_def getPrivateAccessor_const_def
      getPrivateAccessor_def PrivateAccessor_const_def PrivateAccessor_def)

section \<open>The list of manual interfaces\<close>

definition kManualInterfaces :: "string list" where
  "kManualInterfaces =
   [''android.app.IActivityManager'',
   ''android.app.IUidObserver'',
   ''android.gfx.tests.ICallback'',
   ''android.gfx.tests.IIPCTest'',
   ''android.gfx.tests.ISafeInterfaceTest'',
   ''android.graphicsenv.IGpuService'',
   ''android.gui.IConsumerListener'',
   ''android.gui.IGraphicBufferConsumer'',
   ''android.gui.ITransactionComposerListener'',
   ''android.gui.SensorEventConnection'',
   ''android.gui.SensorServer'',
   ''android.hardware.ICamera'',
   ''android.hardware.ICameraClient'',
   ''android.hardware.ICameraRecordingProxy'',
   ''android.hardware.ICameraRecordingProxyListener'',
   ''android.hardware.IOMXObserver'',
   ''android.hardware.IStreamListener'',
   ''android.hardware.IStreamSource'',
   ''android.media.IAudioService'',
   ''android.media.IDataSource'',
   ''android.media.IMediaCodecList'',
   ''android.media.IMediaExtractor'',
   ''android.media.IMediaHTTPConnection'',
   ''android.media.IMediaHTTPService'',
   ''android.media.IMediaLogService'',
   ''android.media.IMediaMetadataRetriever'',
   ''android.media.IMediaPlayer'',
   ''android.media.IMediaPlayerClient'',
   ''android.media.IMediaPlayerService'',
   ''android.media.IMediaRecorder'',
   ''android.media.IMediaRecorderClient'',
   ''android.media.IMediaResourceMonitor'',
   ''android.media.IMediaSource'',
   ''android.media.IRemoteDisplay'',
   ''android.media.IRemoteDisplayClient'',
   ''android.os.IPermissionController'',
   ''android.os.IProcessInfoService'',
   ''android.os.ISchedulingPolicyService'',
   ''android.os.storage.IObbActionListener'',
   ''android.os.storage.IStorageEventListener'',
   ''android.os.storage.IStorageManager'',
   ''android.os.storage.IStorageShutdownObserver'',
   ''android.ui.ISurfaceComposer'',
   ''android.utils.IMemory'',
   ''android.utils.IMemoryHeap'',
   ''com.android.car.procfsinspector.IProcfsInspector'',
   ''com.android.internal.app.IAppOpsService'',
   ''com.android.internal.app.IBatteryStats'',
   ''com.android.internal.os.IResultReceiver'',
   ''com.android.internal.os.IShellCallback'',
   ''drm.IDrmManagerService'',
   ''drm.IDrmServiceListener'']"

definition kDownstreamManualInterfaces :: "string list" where "kDownstreamManualInterfaces = []"

text \<open>C strings are lists that end with the terminator; \<open>equals\<close> walks both.\<close>

fun equals_at :: "string \<Rightarrow> string \<Rightarrow> bool" where
  "equals_at (a # as) (b # bs) = (if a \<noteq> b then False else if a = CHR 0x00 then True else equals_at as bs)"
| "equals_at as bs = False"

definition c_str :: "string \<Rightarrow> string" where "c_str s = s @ [CHR 0x00]"

definition equals :: "string \<Rightarrow> string \<Rightarrow> bool" where "equals a b = equals_at (c_str a) (c_str b)"

fun inList :: "string \<Rightarrow> string list \<Rightarrow> bool" where
  "inList a [] = False"
| "inList a (x # allowlist) = (if equals a x then True else inList a allowlist)"

definition allowedManualInterface :: "string \<Rightarrow> bool" where
  "allowedManualInterface name \<longleftrightarrow> inList name kManualInterfaces \<or> inList name kDownstreamManualInterfaces"

lemma equals_iff: "CHR 0x00 \<notin> set a \<Longrightarrow> CHR 0x00 \<notin> set b \<Longrightarrow> equals a b \<longleftrightarrow> a = b"
  unfolding equals_def c_str_def
proof (induction a arbitrary: b)
  case Nil
  then show ?case by (cases b) auto
next
  case (Cons x a)
  then show ?case by (cases b) auto
qed

lemma allowed_iff:
  assumes "CHR 0x00 \<notin> set name"
  shows "allowedManualInterface name \<longleftrightarrow> name \<in> set kManualInterfaces"
proof -
  have "inList name l \<longleftrightarrow> name \<in> set l" if "\<forall>x \<in> set l. CHR 0x00 \<notin> set x" for l
    using that assms by (induction l) (auto simp: equals_iff)
  moreover have "\<forall>x \<in> set kManualInterfaces. CHR 0x00 \<notin> set x" by (simp add: kManualInterfaces_def)
  ultimately show ?thesis by (simp add: allowedManualInterface_def kDownstreamManualInterfaces_def)
qed

section \<open>Services\<close>

record 'w service_ops = "'w interface_ops" +
  defaultServiceManager :: "'w \<Rightarrow> ptr \<times> 'w"
  sm_waitForService :: "ptr \<Rightarrow> string \<Rightarrow> 'w \<Rightarrow> ptr \<times> 'w"
  sm_checkService :: "ptr \<Rightarrow> string \<Rightarrow> 'w \<Rightarrow> ptr \<times> 'w"
  sm_getService :: "ptr \<Rightarrow> string \<Rightarrow> 'w \<Rightarrow> ptr \<times> 'w"
  sm_isDeclared :: "ptr \<Rightarrow> string \<Rightarrow> 'w \<Rightarrow> bool \<times> 'w"

text \<open>\<open>interface_cast<INTERFACE>(sm->...)\<close>: the binder is a temporary, released after the cast.\<close>

definition cast_temporary :: "('w, 'x) interface_ops_scheme \<Rightarrow> itype \<Rightarrow> ptr \<times> 'w \<Rightarrow> ptr \<times> 'w" where
  "cast_temporary L I temporary =
     (let (obj, w) = temporary; (intr, w) = interface_cast L I obj w in (intr, sp_destroy L obj w))"

definition waitForService :: "('w, 'x) service_ops_scheme \<Rightarrow> itype \<Rightarrow> string \<Rightarrow> 'w \<Rightarrow> (ptr \<times> 'w) option" where
  "waitForService L I name w =
     (let (sm, w) = defaultServiceManager L w
      in if sm = nullptr then None
      else let (intr, w) = cast_temporary L I (sm_waitForService L sm name w)
      in Some (intr, sp_destroy L sm w))"

definition waitForDeclaredService :: "('w, 'x) service_ops_scheme \<Rightarrow> itype \<Rightarrow> string \<Rightarrow> 'w \<Rightarrow> (ptr \<times> 'w) option" where
  "waitForDeclaredService L I name w =
     (let (sm, w) = defaultServiceManager L w
      in if sm = nullptr then None
      else let (declared, w) = sm_isDeclared L sm name w
      in if \<not> declared then Some (nullptr, sp_destroy L sm w)
      else let (intr, w) = cast_temporary L I (sm_waitForService L sm name w)
      in Some (intr, sp_destroy L sm w))"

definition checkDeclaredService :: "('w, 'x) service_ops_scheme \<Rightarrow> itype \<Rightarrow> string \<Rightarrow> 'w \<Rightarrow> (ptr \<times> 'w) option" where
  "checkDeclaredService L I name w =
     (let (sm, w) = defaultServiceManager L w
      in if sm = nullptr then None
      else let (declared, w) = sm_isDeclared L sm name w
      in if \<not> declared then Some (nullptr, sp_destroy L sm w)
      else let (intr, w) = cast_temporary L I (sm_checkService L sm name w)
      in Some (intr, sp_destroy L sm w))"

definition waitForVintfService :: "('w, 'x) service_ops_scheme \<Rightarrow> itype \<Rightarrow> string \<Rightarrow> 'w \<Rightarrow> (ptr \<times> 'w) option" where
  "waitForVintfService L I inst w = waitForDeclaredService L I (it_descriptor I @ ''/'' @ inst) w"

definition checkVintfService :: "('w, 'x) service_ops_scheme \<Rightarrow> itype \<Rightarrow> string \<Rightarrow> 'w \<Rightarrow> (ptr \<times> 'w) option" where
  "checkVintfService L I inst w = checkDeclaredService L I (it_descriptor I @ ''/'' @ inst) w"

text \<open>\<open>out\<close> is the strong pointer that is assigned.\<close>

definition getService :: "('w, 'x) service_ops_scheme \<Rightarrow> itype \<Rightarrow> string \<Rightarrow> ptr \<Rightarrow> 'w \<Rightarrow> status_t \<times> ptr \<times> 'w" where
  "getService L I name out w =
     (let (sm, w) = defaultServiceManager L w
      in if sm \<noteq> nullptr then
           (let (obj, w) = sm_getService L sm name w;
                (intr, w) = interface_cast L I obj w;
                (out, _, w) = sp_assign_move L out intr w;
                w = sp_destroy L obj w;
                w = sp_destroy L sm w
            in (if out \<noteq> nullptr then status_of OK else status_of NAME_NOT_FOUND, out, w))
         else (status_of NAME_NOT_FOUND, out, w))"

text \<open>The flags for dumps of services.\<close>

definition DUMP_FLAG_PRIORITY_CRITICAL :: "32 word" where "DUMP_FLAG_PRIORITY_CRITICAL = push_bit 0 1"
definition DUMP_FLAG_PRIORITY_HIGH :: "32 word" where "DUMP_FLAG_PRIORITY_HIGH = push_bit 1 1"
definition DUMP_FLAG_PRIORITY_NORMAL :: "32 word" where "DUMP_FLAG_PRIORITY_NORMAL = push_bit 2 1"
definition DUMP_FLAG_PRIORITY_DEFAULT :: "32 word" where "DUMP_FLAG_PRIORITY_DEFAULT = push_bit 3 1"

definition DUMP_FLAG_PRIORITY_ALL :: "32 word" where
  "DUMP_FLAG_PRIORITY_ALL = or (or (or DUMP_FLAG_PRIORITY_CRITICAL DUMP_FLAG_PRIORITY_HIGH) DUMP_FLAG_PRIORITY_NORMAL)
     DUMP_FLAG_PRIORITY_DEFAULT"

definition DUMP_FLAG_PROTO :: "32 word" where "DUMP_FLAG_PROTO = push_bit 4 1"

lemma dump_flags:
  "and DUMP_FLAG_PRIORITY_ALL f = f \<longleftrightarrow> f \<le> 15" if "f \<in> {DUMP_FLAG_PRIORITY_CRITICAL, DUMP_FLAG_PRIORITY_HIGH,
     DUMP_FLAG_PRIORITY_NORMAL, DUMP_FLAG_PRIORITY_DEFAULT, DUMP_FLAG_PROTO}"
  using that by (auto simp: DUMP_FLAG_PRIORITY_ALL_def DUMP_FLAG_PRIORITY_CRITICAL_def DUMP_FLAG_PRIORITY_HIGH_def
      DUMP_FLAG_PRIORITY_NORMAL_def DUMP_FLAG_PRIORITY_DEFAULT_def DUMP_FLAG_PROTO_def)

section \<open>Status\<close>

text \<open>The private fields of \<open>Status\<close> with their initial values, and the accessors.\<close>

datatype Exception =
  EX_NONE | EX_SECURITY | EX_BAD_PARCELABLE | EX_ILLEGAL_ARGUMENT | EX_NULL_POINTER | EX_ILLEGAL_STATE
  | EX_NETWORK_MAIN_THREAD | EX_UNSUPPORTED_OPERATION | EX_SERVICE_SPECIFIC | EX_PARCELABLE
  | EX_HAS_NOTED_APPOPS_REPLY_HEADER | EX_HAS_REPLY_HEADER | EX_TRANSACTION_FAILED

fun exception_code :: "Exception \<Rightarrow> 32 word" where
  "exception_code EX_NONE = 0"
| "exception_code EX_SECURITY = - 1"
| "exception_code EX_BAD_PARCELABLE = - 2"
| "exception_code EX_ILLEGAL_ARGUMENT = - 3"
| "exception_code EX_NULL_POINTER = - 4"
| "exception_code EX_ILLEGAL_STATE = - 5"
| "exception_code EX_NETWORK_MAIN_THREAD = - 6"
| "exception_code EX_UNSUPPORTED_OPERATION = - 7"
| "exception_code EX_SERVICE_SPECIFIC = - 8"
| "exception_code EX_PARCELABLE = - 9"
| "exception_code EX_HAS_NOTED_APPOPS_REPLY_HEADER = - 127"
| "exception_code EX_HAS_REPLY_HEADER = - 128"
| "exception_code EX_TRANSACTION_FAILED = - 129"

record binder_status =
  mException :: "32 word"
  mErrorCode :: "32 word"
  mMessage :: string

definition Status :: binder_status where
  "Status = \<lparr>mException = exception_code EX_NONE, mErrorCode = 0, mMessage = ''''\<rparr>"

definition exceptionCode :: "binder_status \<Rightarrow> 32 word" where "exceptionCode s = mException s"

definition exceptionMessage :: "binder_status \<Rightarrow> string" where "exceptionMessage s = mMessage s"

definition transactionError :: "binder_status \<Rightarrow> status_t" where
  "transactionError s = (if mException s = exception_code EX_TRANSACTION_FAILED then mErrorCode s else status_of OK)"

definition serviceSpecificErrorCode :: "binder_status \<Rightarrow> 32 word" where
  "serviceSpecificErrorCode s = (if mException s = exception_code EX_SERVICE_SPECIFIC then mErrorCode s else 0)"

definition isOk :: "binder_status \<Rightarrow> bool" where "isOk s \<longleftrightarrow> mException s = exception_code EX_NONE"

lemma exception_code_inj: "exception_code e = exception_code f \<Longrightarrow> e = f"
  by (cases e; cases f; simp)

text \<open>At most one of the two codes is meaningful, and neither of a status that is ok.\<close>

lemma error_codes_exclusive:
  "transactionError s \<noteq> status_of OK \<Longrightarrow> serviceSpecificErrorCode s = 0 \<and> \<not> isOk s"
  "serviceSpecificErrorCode s \<noteq> 0 \<Longrightarrow> transactionError s = status_of OK \<and> \<not> isOk s"
  by (auto simp: transactionError_def serviceSpecificErrorCode_def isOk_def split: if_splits)

lemma ok_status: "isOk Status \<and> transactionError Status = status_of OK \<and> serviceSpecificErrorCode Status = 0"
  by (simp add: Status_def isOk_def transactionError_def serviceSpecificErrorCode_def)

section \<open>Threads of a single-threaded build\<close>

text \<open>
  A thread is its function, run by the first \<open>join\<close>. The functions stored in threads are named by
  \<open>'f\<close>, \<open>run\<close> executes one; \<open>mFunc\<close> and \<open>set_mFunc\<close> access the field in the world, where the function
  that runs may reach the thread again. \<open>None\<close> is the end of the process.
\<close>

record ('w, 'f) rpc_thread =
  mFunc :: "'w \<Rightarrow> 'f option"
  set_mFunc :: "'f option \<Rightarrow> 'w \<Rightarrow> 'w"

definition RpcMaybeThread_join :: "('f \<Rightarrow> 'w \<Rightarrow> 'w) \<Rightarrow> ('w, 'f) rpc_thread \<Rightarrow> 'w \<Rightarrow> 'w" where
  "RpcMaybeThread_join run t w =
     (case mFunc t w of
        Some func \<Rightarrow> (let w = set_mFunc t None w in run func w)
      | None \<Rightarrow> w)"

text \<open>The constructor stores the function with its arguments.\<close>

definition new_RpcMaybeThread :: "('w, 'f) rpc_thread \<Rightarrow> 'f \<Rightarrow> 'w \<Rightarrow> 'w" where
  "new_RpcMaybeThread t f w = set_mFunc t (Some f) w"

definition RpcMaybeThread_detach :: "('f \<Rightarrow> 'w \<Rightarrow> 'w) \<Rightarrow> ('w, 'f) rpc_thread \<Rightarrow> 'w \<Rightarrow> 'w" where
  "RpcMaybeThread_detach run t w = RpcMaybeThread_join run t w"

definition rpcJoinIfSingleThreaded :: "('f \<Rightarrow> 'w \<Rightarrow> 'w) \<Rightarrow> ('w, 'f) rpc_thread \<Rightarrow> 'w \<Rightarrow> 'w" where
  "rpcJoinIfSingleThreaded run t w = RpcMaybeThread_join run t w"

definition RpcConditionVariable_wait :: "('w \<Rightarrow> bool \<times> 'w) \<Rightarrow> 'w \<Rightarrow> 'w option" where
  "RpcConditionVariable_wait stop_waiting w =
     (let (stop, w) = stop_waiting w in if \<not> stop then None else Some w)"

definition RpcConditionVariable_wait_for :: "('w \<Rightarrow> bool \<times> 'w) \<Rightarrow> 'w \<Rightarrow> bool \<times> 'w" where
  "RpcConditionVariable_wait_for stop_waiting w = stop_waiting w"

text \<open>Without threads there is nothing to lock and nobody to notify, and all thread ids are equal.\<close>

definition RpcMutex_lock :: "'w \<Rightarrow> 'w" where "RpcMutex_lock w = w"
definition RpcMutex_unlock :: "'w \<Rightarrow> 'w" where "RpcMutex_unlock w = w"
definition RpcMutexUniqueLock :: "'w \<Rightarrow> 'w" where "RpcMutexUniqueLock w = w"
definition RpcMutexUniqueLock_unlock :: "'w \<Rightarrow> 'w" where "RpcMutexUniqueLock_unlock w = w"
definition RpcMutexLockGuard :: "'w \<Rightarrow> 'w" where "RpcMutexLockGuard w = w"
definition RpcConditionVariable_notify_one :: "'w \<Rightarrow> 'w" where "RpcConditionVariable_notify_one w = w"
definition RpcConditionVariable_notify_all :: "'w \<Rightarrow> 'w" where "RpcConditionVariable_notify_all w = w"
definition RpcConditionVariable_wait_once :: "'w \<Rightarrow> 'w" where "RpcConditionVariable_wait_once w = w"

datatype cv_status = No_timeout | Timeout

definition RpcConditionVariable_wait_for_once :: "'w \<Rightarrow> cv_status \<times> 'w" where
  "RpcConditionVariable_wait_for_once w = (No_timeout, w)"

datatype rpc_thread_id = Rpc_thread_id

definition get_id :: "('w, 'f) rpc_thread \<Rightarrow> rpc_thread_id" where "get_id t = Rpc_thread_id"
definition this_thread_get_id :: rpc_thread_id where "this_thread_get_id = Rpc_thread_id"
definition id_eq :: "rpc_thread_id \<Rightarrow> rpc_thread_id \<Rightarrow> bool" where "id_eq a b \<longleftrightarrow> True"
definition id_not_eq :: "rpc_thread_id \<Rightarrow> rpc_thread_id \<Rightarrow> bool" where "id_not_eq a b \<longleftrightarrow> False"
definition id_less :: "rpc_thread_id \<Rightarrow> rpc_thread_id \<Rightarrow> bool" where "id_less a b \<longleftrightarrow> False"
definition id_less_eq :: "rpc_thread_id \<Rightarrow> rpc_thread_id \<Rightarrow> bool" where "id_less_eq a b \<longleftrightarrow> True"
definition id_greater :: "rpc_thread_id \<Rightarrow> rpc_thread_id \<Rightarrow> bool" where "id_greater a b \<longleftrightarrow> False"
definition id_greater_eq :: "rpc_thread_id \<Rightarrow> rpc_thread_id \<Rightarrow> bool" where "id_greater_eq a b \<longleftrightarrow> True"

text \<open>The comparisons of ids are those of a linear order on a type of one element.\<close>

lemma id_order:
  "id_eq a b \<longleftrightarrow> a = b" "id_not_eq a b \<longleftrightarrow> \<not> id_eq a b" "id_less_eq a b \<longleftrightarrow> id_less a b \<or> id_eq a b"
  "id_less a b \<longleftrightarrow> id_greater b a" "id_greater_eq a b \<longleftrightarrow> id_less_eq b a" "id_eq (get_id t) this_thread_get_id"
  by (cases a; cases b; simp add: id_eq_def id_not_eq_def id_less_def id_less_eq_def id_greater_def
      id_greater_eq_def get_id_def this_thread_get_id_def)+

text \<open>A new thread runs its function at its first \<open>join\<close>, not when it is made.\<close>

lemma new_thread_joined:
  assumes "\<And>f w. mFunc t (set_mFunc t f w) = f"
  shows "RpcMaybeThread_join run t (new_RpcMaybeThread t f w) = run f (set_mFunc t None (set_mFunc t (Some f) w))"
  using assms by (simp add: RpcMaybeThread_join_def new_RpcMaybeThread_def)

text \<open>
  The function starts with the field cleared, so a \<open>join\<close> it makes on its own thread is the identity;
  a function that leaves the field alone is run once, however often the thread is joined.
\<close>

lemma join_clears_first:
  assumes "\<And>f w. mFunc t (set_mFunc t f w) = f"
  shows "RpcMaybeThread_join (\<lambda>f w. run f (RpcMaybeThread_join again t w)) t w = RpcMaybeThread_join run t w"
  using assms by (simp add: RpcMaybeThread_join_def split: option.splits)

lemma join_twice:
  assumes "\<And>f w. mFunc t (set_mFunc t f w) = f" and "\<And>f w. mFunc t (run f w) = mFunc t w"
  shows "RpcMaybeThread_join run t (RpcMaybeThread_join run t w) = RpcMaybeThread_join run t w"
  using assms by (simp add: RpcMaybeThread_join_def split: option.splits)

section \<open>References\<close>

text \<open>
  \<open>cnt w x\<close> counts the references to the object \<open>x\<close> that the templates and their callers hold in
  the world \<open>w\<close>; \<open>who\<close> is the object an address belongs to, the same before and after a conversion.
  A function that returns a strong pointer hands over one reference.
\<close>

definition one_if :: "bool \<Rightarrow> int" where "one_if b = (if b then 1 else 0)"

definition hands_over :: "(ptr \<Rightarrow> ptr) \<Rightarrow> ('w \<Rightarrow> ptr \<Rightarrow> int) \<Rightarrow> 'w \<Rightarrow> ptr \<times> 'w \<Rightarrow> bool" where
  "hands_over who cnt w r \<longleftrightarrow>
     (\<forall>x. cnt (snd r) x = cnt w x + one_if (fst r \<noteq> nullptr \<and> who (fst r) = x))"

definition interface_counts :: "('w, 'x) interface_ops_scheme \<Rightarrow> itype \<Rightarrow> (ptr \<Rightarrow> ptr) \<Rightarrow> ('w \<Rightarrow> ptr \<Rightarrow> int) \<Rightarrow> bool" where
  "interface_counts L I who cnt \<longleftrightarrow>
     (\<forall>p w x. cnt (incStrong L p w) x = cnt w x + one_if (who p = x)) \<and>
     (\<forall>p w x. cnt (incStrongRequireStrong L p w) x = cnt w x + one_if (who p = x)) \<and>
     (\<forall>p w x. cnt (decStrong L p w) x = cnt w x - one_if (who p = x)) \<and>
     (\<forall>p. (it_cast I p = nullptr \<longleftrightarrow> p = nullptr) \<and> who (it_cast I p) = who p) \<and>
     (\<forall>p d w. hands_over who cnt w (queryLocalInterface L p d w)) \<and>
     (\<forall>p w. fst (new_proxy L p w) \<noteq> nullptr \<and> cnt (snd (new_proxy L p w)) = cnt w)"

definition service_counts :: "('w, 'x) service_ops_scheme \<Rightarrow> itype \<Rightarrow> (ptr \<Rightarrow> ptr) \<Rightarrow> ('w \<Rightarrow> ptr \<Rightarrow> int) \<Rightarrow> bool" where
  "service_counts L I who cnt \<longleftrightarrow> interface_counts L I who cnt \<and>
     (\<forall>w. hands_over who cnt w (defaultServiceManager L w)) \<and>
     (\<forall>p s w. hands_over who cnt w (sm_waitForService L p s w)) \<and>
     (\<forall>p s w. hands_over who cnt w (sm_checkService L p s w)) \<and>
     (\<forall>p s w. hands_over who cnt w (sm_getService L p s w)) \<and>
     (\<forall>p s w. cnt (snd (sm_isDeclared L p s w)) = cnt w)"

lemma hands_over_eq:
  "hands_over who cnt w r \<Longrightarrow> r = (p, w') \<Longrightarrow> cnt w' x = cnt w x + one_if (p \<noteq> nullptr \<and> who p = x)"
  by (simp add: hands_over_def)

lemma interface_counts:
  assumes "interface_counts L I who cnt"
  shows "cnt (incStrong L p w) x = cnt w x + one_if (who p = x)"
    and "cnt (incStrongRequireStrong L p w) x = cnt w x + one_if (who p = x)"
    and "cnt (decStrong L p w) x = cnt w x - one_if (who p = x)"
    and "it_cast I p = nullptr \<longleftrightarrow> p = nullptr" and "who (it_cast I p) = who p"
    and "queryLocalInterface L q d w = (p, w') \<Longrightarrow> cnt w' x = cnt w x + one_if (p \<noteq> nullptr \<and> who p = x)"
    and "new_proxy L q w = (p, w') \<Longrightarrow> p \<noteq> nullptr \<and> cnt w' x = cnt w x"
proof -
  note a = assms [unfolded interface_counts_def]
  show "cnt (incStrong L p w) x = cnt w x + one_if (who p = x)"
    "cnt (incStrongRequireStrong L p w) x = cnt w x + one_if (who p = x)"
    "cnt (decStrong L p w) x = cnt w x - one_if (who p = x)"
    "it_cast I p = nullptr \<longleftrightarrow> p = nullptr" "who (it_cast I p) = who p" using a by blast+
  show "queryLocalInterface L q d w = (p, w') \<Longrightarrow> cnt w' x = cnt w x + one_if (p \<noteq> nullptr \<and> who p = x)"
    using a hands_over_eq by metis
  show "new_proxy L q w = (p, w') \<Longrightarrow> p \<noteq> nullptr \<and> cnt w' x = cnt w x" using a by (metis fst_conv snd_conv)
qed

lemma destroy_counts:
  "interface_counts L I who cnt \<Longrightarrow> cnt (sp_destroy L p w) x = cnt w x - one_if (p \<noteq> nullptr \<and> who p = x)"
  by (simp add: sp_destroy_def interface_counts(3) one_if_def)

lemma asInterface_counts:
  assumes "interface_counts L I who cnt" "asInterface L I obj w = (intr, w')"
  shows "cnt w' x = cnt w x + one_if (intr \<noteq> nullptr \<and> who intr = x)" and "obj \<noteq> nullptr \<longleftrightarrow> intr \<noteq> nullptr"
proof -
  note c = interface_counts [OF assms(1)]
  obtain f w1 where 1: "queryLocalInterface L obj (it_descriptor I) w = (f, w1)" by (rule prod.exhaust)
  obtain p w2 where 2: "new_proxy L obj w1 = (p, w2)" by (rule prod.exhaust)
  have "cnt w' x = cnt w x + one_if (intr \<noteq> nullptr \<and> who intr = x) \<and> (obj \<noteq> nullptr \<longleftrightarrow> intr \<noteq> nullptr)"
  proof (cases "obj = nullptr")
    case True
    then show ?thesis using assms(2) by (simp add: asInterface_def one_if_def)
  next
    case obj: False
    show ?thesis
    proof (cases "f = nullptr")
      case True
      then have "intr = p \<and> w' = incStrong L p w2" using assms(2) obj 1 2 c(4)
        by (auto simp: asInterface_def sp_cast_def sp_fromExisting_def sp_assign_move_def sp_destroy_def sp_make_def)
      then show ?thesis using True obj c(6) [OF 1, of x] c(7) [OF 2, of x] c(1) by (simp add: one_if_def)
    next
      case False
      then have "intr = it_cast I f \<and> w' = sp_destroy L f (incStrongRequireStrong L (it_cast I f) w1)"
        using assms(2) obj 1 c(4)
        by (auto simp: asInterface_def sp_cast_def sp_fromExisting_def sp_assign_move_def)
      then show ?thesis using False obj c(2,4,5) c(6) [OF 1, of x] destroy_counts [OF assms(1)]
        by (simp add: one_if_def)
    qed
  qed
  then show "cnt w' x = cnt w x + one_if (intr \<noteq> nullptr \<and> who intr = x)" "obj \<noteq> nullptr \<longleftrightarrow> intr \<noteq> nullptr"
    by blast+
qed

text \<open>
  Casting a local object gives the object itself, without a proxy, and one reference: that of the
  binder queried is the one the cast hands over.
\<close>

lemma local_object_cast:
  assumes "queryLocalInterface L obj = Bn_queryLocalInterface L I this" "obj \<noteq> nullptr" "it_cast I this \<noteq> nullptr"
    and "this \<noteq> nullptr" "decStrong L this (incStrongRequireStrong L (it_cast I this) (incStrongRequireStrong L this w))
      = incStrongRequireStrong L this w"
  shows "asInterface L I obj w = (it_cast I this, incStrongRequireStrong L this w)"
  using assms
  by (simp add: asInterface_def Bn_queryLocalInterface_def sp_fromExisting_def sp_cast_def sp_assign_move_def
      sp_destroy_def)

text \<open>A temporary proxy of a proxy's remote object keeps it alive.\<close>

lemma remoteStrong_counts:
  "interface_counts L I who cnt \<Longrightarrow> remote b \<noteq> nullptr \<Longrightarrow>
   (case remoteStrong L b w of (p, w') \<Rightarrow> p = Bp_onAsBinder b \<and> cnt w' x = cnt w x + one_if (who (remote b) = x))"
  by (simp add: remoteStrong_def sp_fromExisting_def Bp_onAsBinder_def remote_def interface_counts(2))

lemma cast_temporary_counts:
  assumes "interface_counts L I who cnt" "hands_over who cnt w t" "cast_temporary L I t = (intr, w')"
  shows "cnt w' x = cnt w x + one_if (intr \<noteq> nullptr \<and> who intr = x)"
proof -
  obtain obj w1 where t: "t = (obj, w1)" by (rule prod.exhaust)
  obtain i w2 where 2: "asInterface L I obj w1 = (i, w2)" by (rule prod.exhaust)
  show ?thesis using assms(3) hands_over_eq [OF assms(2) t, of x] asInterface_counts(1) [OF assms(1) 2, of x]
      destroy_counts [OF assms(1)]
    by (auto simp: cast_temporary_def t interface_cast_def 2)
qed

definition balanced_result :: "(ptr \<Rightarrow> ptr) \<Rightarrow> ('w \<Rightarrow> ptr \<Rightarrow> int) \<Rightarrow> 'w \<Rightarrow> (ptr \<times> 'w) option \<Rightarrow> bool" where
  "balanced_result who cnt w r \<longleftrightarrow> (case r of None \<Rightarrow> True | Some r \<Rightarrow> hands_over who cnt w r)"

lemma lookup_counts:
  assumes "interface_counts L I who cnt" "hands_over who cnt w d" "d = (sm, w1)" "cnt w2 = cnt w1"
    and "hands_over who cnt w2 t" "cast_temporary L I t = (intr, w3)"
  shows "hands_over who cnt w (intr, sp_destroy L sm w3)"
  using hands_over_eq [OF assms(2,3)] cast_temporary_counts [OF assms(1,5,6)] destroy_counts [OF assms(1)] assms(4)
  by (simp add: hands_over_def)

lemma getService_counts:
  assumes "service_counts L I who cnt"
  shows "case getService L I name out w of (st, out', w') \<Rightarrow>
      (is_ok st \<longrightarrow> out' \<noteq> nullptr) \<and>
      (\<forall>x. cnt w' x - one_if (out' \<noteq> nullptr \<and> who out' = x) = cnt w x - one_if (out \<noteq> nullptr \<and> who out = x))"
proof -
  have i: "interface_counts L I who cnt" using assms by (simp add: service_counts_def)
  note s = assms [unfolded service_counts_def]
  obtain sm w1 where 1: "defaultServiceManager L w = (sm, w1)" by (rule prod.exhaust)
  obtain obj w2 where 2: "sm_getService L sm name w1 = (obj, w2)" by (rule prod.exhaust)
  obtain intr w3 where 3: "asInterface L I obj w2 = (intr, w3)" by (rule prod.exhaust)
  have h: "hands_over who cnt w (sm, w1)" "hands_over who cnt w1 (obj, w2)" using s 1 2 by metis+
  have neq: "status_of NAME_NOT_FOUND \<noteq> status_of OK" by simp
  show ?thesis
  proof (cases "sm = nullptr")
    case True
    then show ?thesis using h(1) neq by (simp add: getService_def 1 hands_over_def one_if_def)
  next
    case False
    have m: "sp_assign_move L out intr w3 = (intr, nullptr, sp_destroy L out w3)"
      by (simp add: sp_assign_move_def sp_destroy_def)
    show ?thesis using False neq h asInterface_counts(1) [OF i 3]
      by (auto simp: getService_def 1 2 interface_cast_def 3 m destroy_counts [OF i] hands_over_def)
  qed
qed

text \<open>
  Casting a binder to an interface and every service lookup give their caller exactly one new
  reference to the object they return and keep none, whether the object is local, a new proxy or
  missing: the temporaries, the service manager and the binder that was looked up are released.
  \<open>getService\<close> exchanges the reference its output held for the one it returns, and reports success
  only with an object.
\<close>

lemma interface_lookups_balanced:
  assumes "service_counts L I who cnt"
  shows "hands_over who cnt w (interface_cast L I obj w) \<and>
    balanced_result who cnt w (checked_interface_cast L I obj w) \<and>
    balanced_result who cnt w (waitForService L I name w) \<and>
    balanced_result who cnt w (waitForDeclaredService L I name w) \<and>
    balanced_result who cnt w (checkDeclaredService L I name w) \<and>
    (case getService L I name out w of (st, out', w') \<Rightarrow>
       (is_ok st \<longrightarrow> out' \<noteq> nullptr) \<and>
       (\<forall>x. cnt w' x - one_if (out' \<noteq> nullptr \<and> who out' = x) = cnt w x - one_if (out \<noteq> nullptr \<and> who out = x)))"
proof -
  have i: "interface_counts L I who cnt" using assms by (simp add: service_counts_def)
  note s = assms [unfolded service_counts_def]
  obtain sm w1 where 1: "defaultServiceManager L w = (sm, w1)" by (rule prod.exhaust)
  have h1: "hands_over who cnt w (sm, w1)" using s 1 by metis
  obtain b w2 where 2: "sm_isDeclared L sm name w1 = (b, w2)" by (rule prod.exhaust)
  have w2: "cnt w2 = cnt w1" using s 2 by (metis snd_conv)
  have none: "hands_over who cnt w (nullptr, sp_destroy L sm w2)"
    using h1 destroy_counts [OF i] w2 by (simp add: hands_over_def one_if_def)
  have c: "hands_over who cnt w (interface_cast L I obj w)"
    using asInterface_counts(1) [OF i] by (cases "asInterface L I obj w") (simp add: hands_over_def interface_cast_def)
  moreover have "balanced_result who cnt w (checked_interface_cast L I obj w)"
    using c by (simp add: balanced_result_def checked_interface_cast_def hands_over_def one_if_def)
  moreover have "balanced_result who cnt w (waitForService L I name w)"
    using lookup_counts [OF i h1 refl refl, of "sm_waitForService L sm name w1"] s
    by (auto simp: balanced_result_def waitForService_def 1 split: prod.splits)
  moreover have "balanced_result who cnt w (waitForDeclaredService L I name w)"
    using lookup_counts [OF i h1 refl w2, of "sm_waitForService L sm name w2"] s none
    by (auto simp: balanced_result_def waitForDeclaredService_def 1 2 split: prod.splits)
  moreover have "balanced_result who cnt w (checkDeclaredService L I name w)"
    using lookup_counts [OF i h1 refl w2, of "sm_checkService L sm name w2"] s none
    by (auto simp: balanced_result_def checkDeclaredService_def 1 2 split: prod.splits)
  moreover have "case getService L I name out w of (st, out', w') \<Rightarrow>
      (is_ok st \<longrightarrow> out' \<noteq> nullptr) \<and>
      (\<forall>x. cnt w' x - one_if (out' \<noteq> nullptr \<and> who out' = x) = cnt w x - one_if (out \<noteq> nullptr \<and> who out = x))"
    by (rule getService_counts [OF assms])
  ultimately show ?thesis by blast
qed

text \<open>A world of counters with one service at 16, whose local implementation is at 32.\<close>

definition counting_services :: "(ptr \<Rightarrow> int) service_ops" where
  "counting_services =
     \<lparr>incStrong = (\<lambda>p w. w(p := w p + 1)), incStrongRequireStrong = (\<lambda>p w. w(p := w p + 1)),
      decStrong = (\<lambda>p w. w(p := w p - 1)), getWeakRefs = (\<lambda>p w. p), createWeak = (\<lambda>p w. (p, w)),
      incWeak = (\<lambda>r w. w), decWeak = (\<lambda>r w. w), attemptIncStrong = (\<lambda>r w. (True, w)),
      queryLocalInterface = (\<lambda>p d w. if p = 16 then (32, w(32 := w 32 + 1)) else (nullptr, w)),
      getInterfaceDescriptor = (\<lambda>p w. ''I''), new_proxy = (\<lambda>p w. (64, w)),
      defaultServiceManager = (\<lambda>w. (8, w(8 := w 8 + 1))),
      sm_waitForService = (\<lambda>p s w. (16, w(16 := w 16 + 1))), sm_checkService = (\<lambda>p s w. (nullptr, w)),
      sm_getService = (\<lambda>p s w. (16, w(16 := w 16 + 1))), sm_isDeclared = (\<lambda>p s w. (True, w))\<rparr>"

lemma interface_lookups_balanced_witness:
  "case waitForService counting_services \<lparr>it_descriptor = ''I'', it_cast = \<lambda>p. p\<rparr> ''s'' (\<lambda>_. 0) of
     Some (p, w) \<Rightarrow> p = 32 \<and> w 32 = 1 \<and> w 16 = 0 \<and> w 8 = 0 | None \<Rightarrow> False"
proof -
  have "service_counts counting_services \<lparr>it_descriptor = ''I'', it_cast = \<lambda>p. p\<rparr> (\<lambda>p. p) (\<lambda>w. w)"
    by (auto simp: service_counts_def interface_counts_def hands_over_def counting_services_def one_if_def)
  from interface_lookups_balanced [OF this, of "\<lambda>_. 0" 16 "''s''" nullptr]
  have "balanced_result (\<lambda>p. p) (\<lambda>w. w) (\<lambda>_. 0)
      (waitForService counting_services \<lparr>it_descriptor = ''I'', it_cast = \<lambda>p. p\<rparr> ''s'' (\<lambda>_. 0))" by blast
  moreover have "map_option fst (waitForService counting_services \<lparr>it_descriptor = ''I'', it_cast = \<lambda>p. p\<rparr> ''s'' (\<lambda>_. 0)) = Some 32"
    by (simp add: waitForService_def counting_services_def cast_temporary_def interface_cast_def asInterface_def
        sp_cast_def sp_fromExisting_def sp_assign_move_def)
  ultimately show ?thesis by (auto simp: balanced_result_def hands_over_def one_if_def split: option.splits)
qed

end
