(* ===== verification/Strings.thy ===== *)
theory Strings
  imports Type_Helpers Android_Errors "HOL-Library.List_Lexorder"
begin

text \<open>
  The string classes \<open>utils/String8.h\<close> and \<open>utils/String16.h\<close>: their inline members over the
  members of \<open>libutils.so\<close>, which are the fields of records over string objects \<open>'s\<close>. \<open>mString\<close> is the
  memory from the pointer on, terminator included. An assignment operator returns the object; the
  status of the member it calls is dropped, as in the code. \<open>strcmp\<close> is the function of the C library.
\<close>

section \<open>Comparison\<close>

text \<open>The sign of the first difference of two terminated strings, by unsigned characters.\<close>

fun strcmp :: "'a :: len word list \<Rightarrow> 'a word list \<Rightarrow> int" where
  "strcmp (a # as) (b # bs) =
     (if a < b then -1 else if b < a then 1 else if a = 0 then 0 else strcmp as bs)"
| "strcmp as bs = 0"

text \<open>The six operators, which compare the result of a comparison function with 0, and \<open>operator<=>\<close>.\<close>

datatype operator = Less | Less_eq | Eq | Not_eq | Greater_eq | Greater

fun is_rel :: "operator \<Rightarrow> int \<Rightarrow> bool" where
  "is_rel Less r \<longleftrightarrow> r < 0" | "is_rel Less_eq r \<longleftrightarrow> r \<le> 0" | "is_rel Eq r \<longleftrightarrow> r = 0"
| "is_rel Not_eq r \<longleftrightarrow> r \<noteq> 0" | "is_rel Greater_eq r \<longleftrightarrow> r \<ge> 0" | "is_rel Greater r \<longleftrightarrow> r > 0"

datatype strong_ordering = Ordering_equal | Ordering_less | Ordering_greater

definition three_way :: "int \<Rightarrow> strong_ordering" where
  "three_way result = (if result = 0 then Ordering_equal else if result < 0 then Ordering_less else Ordering_greater)"

section \<open>String8\<close>

record 's string8_ops =
  s8_mString :: "'s \<Rightarrow> byte list"
  s8_length :: "'s \<Rightarrow> nat"
  s8_copy :: "'s \<Rightarrow> 's"
  s8_of_chars :: "byte list \<Rightarrow> nat \<Rightarrow> 's"
  s8_setTo :: "'s \<Rightarrow> 's \<Rightarrow> 's"
  s8_setTo_chars :: "byte list \<Rightarrow> 's \<Rightarrow> status_t \<times> 's"
  s8_append :: "'s \<Rightarrow> 's \<Rightarrow> status_t \<times> 's"
  s8_append_chars :: "byte list \<Rightarrow> 's \<Rightarrow> status_t \<times> 's"
  s8_find_chars :: "byte list \<Rightarrow> nat \<Rightarrow> 's \<Rightarrow> int"
  s8_removeAll_chars :: "byte list \<Rightarrow> 's \<Rightarrow> bool \<times> 's"

definition String8_c_str :: "'s string8_ops \<Rightarrow> 's \<Rightarrow> byte list" where "String8_c_str S s = s8_mString S s"
definition String8_string :: "'s string8_ops \<Rightarrow> 's \<Rightarrow> byte list" where "String8_string S s = s8_mString S s"
definition String8_size :: "'s string8_ops \<Rightarrow> 's \<Rightarrow> nat" where "String8_size S s = s8_length S s"
definition String8_empty :: "'s string8_ops \<Rightarrow> 's \<Rightarrow> bool" where "String8_empty S s \<longleftrightarrow> s8_length S s = 0"
definition String8_isEmpty :: "'s string8_ops \<Rightarrow> 's \<Rightarrow> bool" where "String8_isEmpty S s \<longleftrightarrow> s8_length S s = 0"
definition String8_bytes :: "'s string8_ops \<Rightarrow> 's \<Rightarrow> nat" where "String8_bytes S s = s8_length S s"

definition String8_find :: "'s string8_ops \<Rightarrow> 's \<Rightarrow> nat \<Rightarrow> 's \<Rightarrow> int" where
  "String8_find S other start s = s8_find_chars S (String8_c_str S other) start s"

definition String8_contains_chars :: "'s string8_ops \<Rightarrow> byte list \<Rightarrow> 's \<Rightarrow> bool" where
  "String8_contains_chars S other s \<longleftrightarrow> s8_find_chars S other 0 s \<ge> 0"

definition String8_contains :: "'s string8_ops \<Rightarrow> 's \<Rightarrow> 's \<Rightarrow> bool" where
  "String8_contains S other s \<longleftrightarrow> String8_contains_chars S (String8_c_str S other) s"

definition String8_removeAll :: "'s string8_ops \<Rightarrow> 's \<Rightarrow> 's \<Rightarrow> bool \<times> 's" where
  "String8_removeAll S other s = s8_removeAll_chars S (String8_c_str S other) s"

definition String8_assign :: "'s string8_ops \<Rightarrow> 's \<Rightarrow> 's \<Rightarrow> 's" where
  "String8_assign S other s = s8_setTo S other s"

definition String8_assign_chars :: "'s string8_ops \<Rightarrow> byte list \<Rightarrow> 's \<Rightarrow> 's" where
  "String8_assign_chars S other s = snd (s8_setTo_chars S other s)"

definition String8_append_assign :: "'s string8_ops \<Rightarrow> 's \<Rightarrow> 's \<Rightarrow> 's" where
  "String8_append_assign S other s = snd (s8_append S other s)"

definition String8_plus :: "'s string8_ops \<Rightarrow> 's \<Rightarrow> 's \<Rightarrow> 's" where
  "String8_plus S s other = (let tmp = s8_copy S s in String8_append_assign S other tmp)"

definition String8_append_assign_chars :: "'s string8_ops \<Rightarrow> byte list \<Rightarrow> 's \<Rightarrow> 's" where
  "String8_append_assign_chars S other s = snd (s8_append_chars S other s)"

definition String8_plus_chars :: "'s string8_ops \<Rightarrow> 's \<Rightarrow> byte list \<Rightarrow> 's" where
  "String8_plus_chars S s other = (let tmp = s8_copy S s in String8_append_assign_chars S other tmp)"

definition String8_compare :: "'s string8_ops \<Rightarrow> 's \<Rightarrow> 's \<Rightarrow> int" where
  "String8_compare S s other = strcmp (s8_mString S s) (s8_mString S other)"

definition String8_rel :: "'s string8_ops \<Rightarrow> operator \<Rightarrow> 's \<Rightarrow> 's \<Rightarrow> bool" where
  "String8_rel S oper s other \<longleftrightarrow> is_rel oper (strcmp (s8_mString S s) (s8_mString S other))"

definition String8_three_way :: "'s string8_ops \<Rightarrow> 's \<Rightarrow> 's \<Rightarrow> strong_ordering" where
  "String8_three_way S s other = three_way (strcmp (s8_mString S s) (s8_mString S other))"

definition String8_rel_chars :: "'s string8_ops \<Rightarrow> operator \<Rightarrow> 's \<Rightarrow> byte list \<Rightarrow> bool" where
  "String8_rel_chars S oper s other \<longleftrightarrow> is_rel oper (strcmp (s8_mString S s) other)"

definition String8_three_way_chars :: "'s string8_ops \<Rightarrow> 's \<Rightarrow> byte list \<Rightarrow> strong_ordering" where
  "String8_three_way_chars S s other = three_way (strcmp (s8_mString S s) other)"

definition String8_compare_type :: "'s string8_ops \<Rightarrow> 's \<Rightarrow> 's \<Rightarrow> int" where
  "String8_compare_type S lhs rhs = String8_compare S lhs rhs"

definition String8_strictly_order_type :: "'s string8_ops \<Rightarrow> 's \<Rightarrow> 's \<Rightarrow> int" where
  "String8_strictly_order_type S lhs rhs = (if String8_compare_type S lhs rhs < 0 then 1 else 0)"

definition String8_of_view :: "'s string8_ops \<Rightarrow> byte list \<times> nat \<Rightarrow> 's" where
  "String8_of_view S o' = s8_of_chars S (fst o') (snd o')"

definition String8_view :: "'s string8_ops \<Rightarrow> 's \<Rightarrow> byte list \<times> nat" where
  "String8_view S s = (s8_mString S s, s8_length S s)"

section \<open>String16\<close>

text \<open>\<open>strzcmp16\<close> and \<open>strcmp16\<close> of \<open>utils/Unicode.h\<close> compare with and without given lengths.\<close>

record 's string16_ops =
  s16_mString :: "'s \<Rightarrow> u16 list"
  s16_size :: "'s \<Rightarrow> nat"
  s16_copy :: "'s \<Rightarrow> 's"
  s16_setTo :: "'s \<Rightarrow> 's \<Rightarrow> 's"
  s16_append :: "'s \<Rightarrow> 's \<Rightarrow> status_t \<times> 's"
  s16_contains_chars :: "u16 list \<Rightarrow> 's \<Rightarrow> bool"
  strzcmp16 :: "u16 list \<Rightarrow> nat \<Rightarrow> u16 list \<Rightarrow> nat \<Rightarrow> int"
  strcmp16 :: "u16 list \<Rightarrow> u16 list \<Rightarrow> int"

definition String16_c_str :: "'s string16_ops \<Rightarrow> 's \<Rightarrow> u16 list" where "String16_c_str T s = s16_mString T s"
definition String16_string :: "'s string16_ops \<Rightarrow> 's \<Rightarrow> u16 list" where "String16_string T s = s16_mString T s"
definition String16_length :: "'s string16_ops \<Rightarrow> 's \<Rightarrow> nat" where "String16_length T s = s16_size T s"
definition String16_empty :: "'s string16_ops \<Rightarrow> 's \<Rightarrow> bool" where "String16_empty T s \<longleftrightarrow> String16_length T s = 0"

definition String16_contains :: "'s string16_ops \<Rightarrow> 's \<Rightarrow> 's \<Rightarrow> bool" where
  "String16_contains T other s \<longleftrightarrow> s16_contains_chars T (String16_c_str T other) s"

definition String16_assign :: "'s string16_ops \<Rightarrow> 's \<Rightarrow> 's \<Rightarrow> 's" where
  "String16_assign T other s = s16_setTo T other s"

definition String16_append_assign :: "'s string16_ops \<Rightarrow> 's \<Rightarrow> 's \<Rightarrow> 's" where
  "String16_append_assign T other s = snd (s16_append T other s)"

definition String16_plus :: "'s string16_ops \<Rightarrow> 's \<Rightarrow> 's \<Rightarrow> 's" where
  "String16_plus T s other = (let tmp = s16_copy T s in String16_append_assign T other tmp)"

definition String16_compare :: "'s string16_ops \<Rightarrow> 's \<Rightarrow> 's \<Rightarrow> int" where
  "String16_compare T s other = strzcmp16 T (s16_mString T s) (s16_size T s) (s16_mString T other) (s16_size T other)"

definition String16_rel :: "'s string16_ops \<Rightarrow> operator \<Rightarrow> 's \<Rightarrow> 's \<Rightarrow> bool" where
  "String16_rel T oper s other \<longleftrightarrow>
     is_rel oper (strzcmp16 T (s16_mString T s) (s16_size T s) (s16_mString T other) (s16_size T other))"

definition String16_three_way :: "'s string16_ops \<Rightarrow> 's \<Rightarrow> 's \<Rightarrow> strong_ordering" where
  "String16_three_way T s other =
     three_way (strzcmp16 T (s16_mString T s) (s16_size T s) (s16_mString T other) (s16_size T other))"

definition String16_rel_chars :: "'s string16_ops \<Rightarrow> operator \<Rightarrow> 's \<Rightarrow> u16 list \<Rightarrow> bool" where
  "String16_rel_chars T oper s other \<longleftrightarrow> is_rel oper (strcmp16 T (s16_mString T s) other)"

definition String16_three_way_chars :: "'s string16_ops \<Rightarrow> 's \<Rightarrow> u16 list \<Rightarrow> strong_ordering" where
  "String16_three_way_chars T s other = three_way (strcmp16 T (s16_mString T s) other)"

definition String16_compare_type :: "'s string16_ops \<Rightarrow> 's \<Rightarrow> 's \<Rightarrow> int" where
  "String16_compare_type T lhs rhs = String16_compare T lhs rhs"

definition String16_strictly_order_type :: "'s string16_ops \<Rightarrow> 's \<Rightarrow> 's \<Rightarrow> int" where
  "String16_strictly_order_type T lhs rhs = (if String16_compare_type T lhs rhs < 0 then 1 else 0)"

definition String16_view :: "'s string16_ops \<Rightarrow> 's \<Rightarrow> u16 list \<times> nat" where
  "String16_view T s = (s16_mString T s, String16_length T s)"

section \<open>Static strings\<close>

text \<open>
  \<open>StaticData<N>\<close> and the object that holds it: its \<open>mString\<close> is the address of the characters inside
  the object itself, which \<open>data_of\<close> gives for an object at an address.
\<close>

definition kIsSharedBufferAllocated :: u32 where "kIsSharedBufferAllocated = 0x80000000"

record StaticData =
  sd_size :: u32
  sd_data :: "u16 list"

definition new_StaticData :: "nat \<Rightarrow> StaticData" where
  "new_StaticData N = \<lparr>sd_size = of_nat (N - 1), sd_data = replicate N 0\<rparr>"

fun static_loop :: "u16 list \<Rightarrow> nat \<Rightarrow> nat \<Rightarrow> StaticData \<Rightarrow> StaticData" where
  "static_loop s i 0 r = r"
| "static_loop s i (Suc n) r = static_loop s (Suc i) n (r\<lparr>sd_data := (sd_data r)[i := s ! i]\<rparr>)"

definition makeStaticData :: "u16 list \<Rightarrow> StaticData" where
  "makeStaticData s = static_loop s 0 (length s - 1) (new_StaticData (length s))"

record StaticString16 =
  ss_mString :: u64
  ss_mData :: StaticData

definition new_StaticString16 :: "(u64 \<Rightarrow> u64) \<Rightarrow> u64 \<Rightarrow> u16 list \<Rightarrow> StaticString16" where
  "new_StaticString16 data_of this s = \<lparr>ss_mString = data_of this, ss_mData = makeStaticData s\<rparr>"

definition copy_StaticString16 :: "(u64 \<Rightarrow> u64) \<Rightarrow> u64 \<Rightarrow> StaticString16 \<Rightarrow> StaticString16" where
  "copy_StaticString16 data_of this other = \<lparr>ss_mString = data_of this, ss_mData = ss_mData other\<rparr>"

lemma static_loop_result:
  "i + n \<le> length s \<Longrightarrow> length (sd_data r) = length s \<Longrightarrow>
   sd_size (static_loop s i n r) = sd_size r \<and>
   sd_data (static_loop s i n r) = take i (sd_data r) @ take n (drop i s) @ drop (i + n) (sd_data r)"
proof (induction n arbitrary: i r)
  case 0
  show ?case by simp
next
  case (Suc n)
  let ?r = "r\<lparr>sd_data := (sd_data r)[i := s ! i]\<rparr>"
  have "take (Suc i) ((sd_data r)[i := s ! i]) = take i (sd_data r) @ [s ! i]"
    using Suc.prems by (simp add: take_Suc_conv_app_nth)
  moreover have "take (Suc n) (drop i s) = s ! i # take n (drop (Suc i) s)"
    using Suc.prems by (simp add: Cons_nth_drop_Suc [symmetric])
  ultimately show ?case using Suc.IH [of "Suc i" ?r] Suc.prems by simp
qed

text \<open>A literal is stored with its terminator and its length, and not marked as a shared buffer.\<close>

lemma static_string:
  assumes "length xs < 2 ^ 31"
  shows "sd_data (makeStaticData (xs @ [0])) = xs @ [0]"
    and "unat (sd_size (makeStaticData (xs @ [0]))) = length xs"
    and "sd_size (makeStaticData (xs @ [0])) AND kIsSharedBufferAllocated = 0"
proof -
  show d: "sd_data (makeStaticData (xs @ [0])) = xs @ [0]"
    using static_loop_result [of 0 "length xs" "xs @ [0]"]
    by (simp add: makeStaticData_def new_StaticData_def flip: replicate_append_same)
  have z: "sd_size (makeStaticData (xs @ [0])) = of_nat (length xs)"
    using static_loop_result [of 0 "length xs" "xs @ [0]"]
    by (simp add: makeStaticData_def new_StaticData_def)
  then show "unat (sd_size (makeStaticData (xs @ [0]))) = length xs"
    using assms by (simp add: unat_of_nat)
  have "\<not> bit (of_nat (length xs) :: u32) 31"
    using assms by (simp add: bit_simps bit_nat_iff div_less bit_iff_odd [of "length xs"])
  moreover have k: "kIsSharedBufferAllocated = push_bit 31 1" by (simp add: kIsSharedBufferAllocated_def)
  have "bit kIsSharedBufferAllocated n \<Longrightarrow> n = 31" for n
    by (simp only: k bit_push_bit_iff) (auto simp: bit_1_iff)
  ultimately show "sd_size (makeStaticData (xs @ [0])) AND kIsSharedBufferAllocated = 0"
    unfolding z by (intro bit_word_eqI) (auto simp: bit_and_iff)
qed

section \<open>Order and concatenation\<close>

text \<open>
  What the documentation says of the members in \<open>libutils.so\<close>: \<open>c8\<close> and \<open>c16\<close> are the contents of a
  string, NUL characters included; the pointer shows them and a terminator.
\<close>

definition cstr :: "'a :: len word list \<Rightarrow> 'a word list" where
  "cstr xs = takeWhile (\<lambda>c. c \<noteq> 0) xs"

definition string8_laws :: "'s string8_ops \<Rightarrow> ('s \<Rightarrow> byte list) \<Rightarrow> bool" where
  "string8_laws S c8 \<longleftrightarrow>
     (\<forall>s. s8_mString S s = c8 s @ [0]) \<and> (\<forall>s. s8_length S s = length (c8 s)) \<and>
     (\<forall>s. c8 (s8_copy S s) = c8 s) \<and> (\<forall>s t. c8 (s8_setTo S t s) = c8 t) \<and>
     (\<forall>s t st u. s8_append S t s = (st, u) \<longrightarrow> c8 u = (if is_ok st then c8 s @ c8 t else c8 s)) \<and>
     (\<forall>s t st u. s8_append_chars S t s = (st, u) \<longrightarrow> c8 u = (if is_ok st then c8 s @ cstr t else c8 s))"

definition string16_laws :: "'s string16_ops \<Rightarrow> ('s \<Rightarrow> u16 list) \<Rightarrow> bool" where
  "string16_laws T c16 \<longleftrightarrow>
     (\<forall>s. s16_mString T s = c16 s @ [0]) \<and> (\<forall>s. s16_size T s = length (c16 s)) \<and>
     (\<forall>s. c16 (s16_copy T s) = c16 s) \<and> (\<forall>s t. c16 (s16_setTo T t s) = c16 t) \<and>
     (\<forall>s t st u. s16_append T t s = (st, u) \<longrightarrow> c16 u = (if is_ok st then c16 s @ c16 t else c16 s)) \<and>
     (\<forall>a n b m. sgn (strzcmp16 T a n b m) =
        (if take n a < take m b then -1 else if take m b < take n a then 1 else 0)) \<and>
     (\<forall>a b. sgn (strcmp16 T a b) = strcmp a b)"

fun order_rel :: "operator \<Rightarrow> 'a :: linorder \<Rightarrow> 'a \<Rightarrow> bool" where
  "order_rel Less x y \<longleftrightarrow> x < y" | "order_rel Less_eq x y \<longleftrightarrow> x \<le> y" | "order_rel Eq x y \<longleftrightarrow> x = y"
| "order_rel Not_eq x y \<longleftrightarrow> x \<noteq> y" | "order_rel Greater_eq x y \<longleftrightarrow> x \<ge> y" | "order_rel Greater x y \<longleftrightarrow> x > y"

definition order_of :: "'a :: linorder \<Rightarrow> 'a \<Rightarrow> strong_ordering" where
  "order_of x y = (if x = y then Ordering_equal else if x < y then Ordering_less else Ordering_greater)"

lemma strcmp_cstr:
  "strcmp (a @ [0]) (b @ [0]) =
     (if cstr a < cstr b then -1 else if cstr b < cstr a then 1 else 0)"
proof (induction a arbitrary: b)
  case Nil
  show ?case by (cases b) (auto simp: cstr_def word_neq_0_conv)
next
  case (Cons x a)
  show ?case
  proof (cases b)
    case Nil
    then show ?thesis by (cases "x = 0") (auto simp: cstr_def word_neq_0_conv)
  next
    case (Cons y b)
    then show ?thesis using Cons.IH [of b] by (auto simp: cstr_def word_neq_0_conv)
  qed
qed

lemma sign_orders:
  assumes "sgn (r :: int) = (if x < y then -1 else if y < x then 1 else 0)"
  shows "is_rel oper r \<longleftrightarrow> order_rel oper x y" and "three_way r = order_of x y"
  using assms by (cases oper; auto simp: sgn_if three_way_def order_of_def split: if_splits)+

lemma plus_contents:
  assumes "string8_laws S c8"
  shows "c8 (String8_plus S s t) = (if is_ok (fst (s8_append S t (s8_copy S s))) then c8 s @ c8 t else c8 s)"
    and "c8 (String8_plus_chars S s x) = (if is_ok (fst (s8_append_chars S x (s8_copy S s))) then c8 s @ cstr x else c8 s)"
    and "c8 (String8_assign S t s) = c8 t" and "String8_empty S s \<longleftrightarrow> c8 s = []"
  using assms
  by (auto simp: string8_laws_def String8_plus_def String8_append_assign_def String8_plus_chars_def
      String8_append_assign_chars_def String8_assign_def String8_empty_def)
    (metis prod.collapse)+

lemma plus_contents_16:
  assumes "string16_laws T c16"
  shows "c16 (String16_plus T s t) = (if is_ok (fst (s16_append T t (s16_copy T s))) then c16 s @ c16 t else c16 s)"
    and "c16 (String16_assign T t s) = c16 t" and "String16_empty T s \<longleftrightarrow> c16 s = []"
  using assms
  by (auto simp: string16_laws_def String16_plus_def String16_append_assign_def String16_assign_def
      String16_empty_def String16_length_def)
    (metis prod.collapse)+

text \<open>
  The comparison operators of the strings are linear orders, and all of them the same one.
  \<open>String8\<close> compares as C strings: every operator, \<open>operator<=>\<close> and the order the sorting helpers
  use are the lexicographic order of the characters before the first NUL, whatever follows it.
  \<open>String16\<close> compares whole contents, embedded NUL characters and lengths included; against a
  terminated array it compares as C strings do.
\<close>

lemma strings_compare_lexicographically:
  assumes "string8_laws S c8" and "string16_laws T c16"
  shows "(String8_rel S oper s t \<longleftrightarrow> order_rel oper (cstr (c8 s)) (cstr (c8 t))) \<and>
    String8_three_way S s t = order_of (cstr (c8 s)) (cstr (c8 t)) \<and>
    (String8_strictly_order_type S s t \<noteq> 0 \<longleftrightarrow> cstr (c8 s) < cstr (c8 t)) \<and>
    (String8_rel_chars S oper s (y @ [0]) \<longleftrightarrow> order_rel oper (cstr (c8 s)) (cstr y)) \<and>
    (String16_rel T oper u v \<longleftrightarrow> order_rel oper (c16 u) (c16 v)) \<and>
    String16_three_way T u v = order_of (c16 u) (c16 v) \<and>
    (String16_strictly_order_type T u v \<noteq> 0 \<longleftrightarrow> c16 u < c16 v) \<and>
    (String16_rel_chars T oper u (x @ [0]) \<longleftrightarrow> order_rel oper (cstr (c16 u)) (cstr x))"
proof -
  have m: "s8_mString S z = c8 z @ [0]" for z using assms(1) by (simp add: string8_laws_def)
  have n: "s16_mString T z = c16 z @ [0]" "s16_size T z = length (c16 z)" for z
    using assms(2) by (simp_all add: string16_laws_def)
  have z: "sgn (strzcmp16 T (c16 u @ [0]) (length (c16 u)) (c16 v @ [0]) (length (c16 v))) =
      (if c16 u < c16 v then -1 else if c16 v < c16 u then 1 else 0)"
    using assms(2) by (simp add: string16_laws_def)
  have w: "sgn (strcmp16 T (c16 u @ [0]) (x @ [0])) =
      (if cstr (c16 u) < cstr x then -1 else if cstr x < cstr (c16 u) then 1 else 0)"
    using assms(2) by (simp add: string16_laws_def strcmp_cstr)
  have 8: "sgn (strcmp (c8 s @ [0]) (b @ [0])) =
      (if cstr (c8 s) < cstr b then -1 else if cstr b < cstr (c8 s) then 1 else 0)" for b
    by (simp add: strcmp_cstr)
  show ?thesis
    by (simp add: String8_rel_def String8_three_way_def String8_rel_chars_def String8_strictly_order_type_def
        String8_compare_type_def String8_compare_def String16_rel_def String16_three_way_def
        String16_strictly_order_type_def String16_compare_type_def String16_compare_def String16_rel_chars_def
        m n sign_orders [OF 8] sign_orders [OF z] sign_orders [OF w])
      (simp add: is_rel.simps(1) [symmetric] sign_orders(1) [OF 8] sign_orders(1) [OF z] del: is_rel.simps)
qed

text \<open>
  Strings that are their contents. A string with an embedded NUL equals its first part as a
  \<open>String8\<close> and is greater as a \<open>String16\<close>.
\<close>

definition list8 :: "byte list string8_ops" where
  "list8 = \<lparr>s8_mString = (\<lambda>s. s @ [0]), s8_length = length, s8_copy = (\<lambda>s. s), s8_of_chars = (\<lambda>cs n. take n cs),
     s8_setTo = (\<lambda>t s. t), s8_setTo_chars = (\<lambda>t s. (status_of OK, cstr t)),
     s8_append = (\<lambda>t s. (status_of OK, s @ t)), s8_append_chars = (\<lambda>t s. (status_of OK, s @ cstr t)),
     s8_find_chars = (\<lambda>t i s. -1), s8_removeAll_chars = (\<lambda>t s. (False, s))\<rparr>"

definition list16 :: "u16 list string16_ops" where
  "list16 = \<lparr>s16_mString = (\<lambda>s. s @ [0]), s16_size = length, s16_copy = (\<lambda>s. s), s16_setTo = (\<lambda>t s. t),
     s16_append = (\<lambda>t s. (status_of OK, s @ t)), s16_contains_chars = (\<lambda>t s. False),
     strzcmp16 = (\<lambda>a n b m. if take n a < take m b then -1 else if take m b < take n a then 1 else 0),
     strcmp16 = strcmp\<rparr>"

lemma sgn_strcmp: "sgn (strcmp a b) = strcmp a b"
  by (induction a b rule: strcmp.induct) auto

lemma strings_compare_lexicographically_witness:
  "String8_rel list8 Eq [97, 0, 98] [97] \<and> String16_rel list16 Greater [97, 0, 98] [97]"
proof -
  have l: "string8_laws list8 (\<lambda>s. s)" "string16_laws list16 (\<lambda>s. s)"
    by (auto simp: string8_laws_def string16_laws_def list8_def list16_def sgn_strcmp)
  have "String8_rel list8 Eq [97, 0, 98] [97]"
    using strings_compare_lexicographically [OF l, of Eq "[97, 0, 98]" "[97]"] by (simp add: cstr_def)
  moreover have "String16_rel list16 Greater [97, 0, 98] [97]"
    using strings_compare_lexicographically [OF l, of Greater _ _ _ "[97, 0, 98]" "[97]"] by simp
  ultimately show ?thesis by blast
qed

end
