(* ===== verification/Vectors.thy ===== *)
theory Vectors
  imports Type_Helpers Android_Errors
begin

text \<open>
  \<open>Vector<TYPE>\<close> of \<open>utils/Vector.h\<close>, the typed front of \<open>utils/VectorImpl.h\<close>. The members of
  \<open>VectorImpl\<close> that live in \<open>libutils.so\<close> are the fields of a record; they act on the object, whose
  two exposed fields the headers read, and on the storage cells of \<open>Type_Helpers\<close>. Items are passed by
  reference, as addresses of cells. The casts between \<open>TYPE*\<close> and \<open>void*\<close> disappear. \<open>None\<close> is
  reading a cell that holds no object.
\<close>

section \<open>VectorImpl\<close>

definition HAS_TRIVIAL_CTOR :: u32 where "HAS_TRIVIAL_CTOR = 1"
definition HAS_TRIVIAL_DTOR :: u32 where "HAS_TRIVIAL_DTOR = 2"
definition HAS_TRIVIAL_COPY :: u32 where "HAS_TRIVIAL_COPY = 4"

record VectorImpl =
  mStorage :: nat
  mCount :: nat
  mFlags :: u32
  mItemSize :: nat

type_synonym 'a vstate = "VectorImpl \<times> 'a cells"

definition arrayImpl :: "VectorImpl \<Rightarrow> nat" where "arrayImpl v = mStorage v"
definition VectorImpl_size :: "VectorImpl \<Rightarrow> nat" where "VectorImpl_size v = mCount v"
definition VectorImpl_isEmpty :: "VectorImpl \<Rightarrow> bool" where "VectorImpl_isEmpty v \<longleftrightarrow> mCount v = 0"

record 'a vector_impl_ops =
  vi_new :: "nat \<Rightarrow> u32 \<Rightarrow> 'a cells \<Rightarrow> 'a vstate"
  vi_copy :: "VectorImpl \<Rightarrow> 'a cells \<Rightarrow> 'a vstate"
  vi_finish :: "'a vstate \<Rightarrow> 'a vstate"
  vi_assign :: "VectorImpl \<Rightarrow> 'a vstate \<Rightarrow> 'a vstate"
  vi_editArray :: "'a vstate \<Rightarrow> nat \<times> 'a vstate"
  vi_capacity :: "'a vstate \<Rightarrow> nat"
  vi_setCapacity :: "nat \<Rightarrow> 'a vstate \<Rightarrow> int \<times> 'a vstate"
  vi_resize :: "nat \<Rightarrow> 'a vstate \<Rightarrow> int \<times> 'a vstate"
  vi_insertVectorAt :: "VectorImpl \<Rightarrow> nat \<Rightarrow> 'a vstate \<Rightarrow> int \<times> 'a vstate"
  vi_appendVector :: "VectorImpl \<Rightarrow> 'a vstate \<Rightarrow> int \<times> 'a vstate"
  vi_insertArrayAt :: "nat \<Rightarrow> nat \<Rightarrow> nat \<Rightarrow> 'a vstate \<Rightarrow> int \<times> 'a vstate"
  vi_appendArray :: "nat \<Rightarrow> nat \<Rightarrow> 'a vstate \<Rightarrow> int \<times> 'a vstate"
  vi_insertAt :: "nat \<Rightarrow> nat \<Rightarrow> 'a vstate \<Rightarrow> int \<times> 'a vstate"
  vi_insertAt_item :: "nat \<Rightarrow> nat \<Rightarrow> nat \<Rightarrow> 'a vstate \<Rightarrow> int \<times> 'a vstate"
  vi_pop :: "'a vstate \<Rightarrow> 'a vstate"
  vi_push :: "'a vstate \<Rightarrow> 'a vstate"
  vi_push_item :: "nat \<Rightarrow> 'a vstate \<Rightarrow> 'a vstate"
  vi_add :: "'a vstate \<Rightarrow> int \<times> 'a vstate"
  vi_add_item :: "nat \<Rightarrow> 'a vstate \<Rightarrow> int \<times> 'a vstate"
  vi_replaceAt :: "nat \<Rightarrow> 'a vstate \<Rightarrow> int \<times> 'a vstate"
  vi_replaceAt_item :: "nat \<Rightarrow> nat \<Rightarrow> 'a vstate \<Rightarrow> int \<times> 'a vstate"
  vi_removeItemsAt :: "nat \<Rightarrow> nat \<Rightarrow> 'a vstate \<Rightarrow> int \<times> 'a vstate"
  vi_clear :: "'a vstate \<Rightarrow> 'a vstate"
  vi_editItemLocation :: "nat \<Rightarrow> 'a vstate \<Rightarrow> nat \<times> 'a vstate"
  vi_sort :: "('a \<Rightarrow> 'a \<Rightarrow> int) \<Rightarrow> 'a vstate \<Rightarrow> status_t \<times> 'a vstate"
  vi_itemSize :: "'a vstate \<Rightarrow> nat"

section \<open>Construction\<close>

definition vector_flags :: "type_traits \<Rightarrow> u32" where
  "vector_flags t = (if has_trivial_ctor t then HAS_TRIVIAL_CTOR else 0)
     OR (if has_trivial_dtor t then HAS_TRIVIAL_DTOR else 0) OR (if has_trivial_copy t then HAS_TRIVIAL_COPY else 0)"

definition new_Vector :: "'a vector_impl_ops \<Rightarrow> type_traits \<Rightarrow> nat \<Rightarrow> 'a cells \<Rightarrow> 'a vstate" where
  "new_Vector V t sizeof_TYPE m = vi_new V sizeof_TYPE (vector_flags t) m"

definition copy_Vector :: "'a vector_impl_ops \<Rightarrow> VectorImpl \<Rightarrow> 'a cells \<Rightarrow> 'a vstate" where
  "copy_Vector V rhs m = vi_copy V rhs m"

definition destroy_Vector :: "'a vector_impl_ops \<Rightarrow> 'a vstate \<Rightarrow> 'a vstate" where
  "destroy_Vector V st = vi_finish V st"

definition Vector_assign :: "'a vector_impl_ops \<Rightarrow> VectorImpl \<Rightarrow> 'a vstate \<Rightarrow> 'a vstate" where
  "Vector_assign V rhs st = vi_assign V rhs st"

section \<open>Access\<close>

definition Vector_size :: "'a vstate \<Rightarrow> nat" where "Vector_size st = VectorImpl_size (fst st)"
definition Vector_isEmpty :: "'a vstate \<Rightarrow> bool" where "Vector_isEmpty st \<longleftrightarrow> VectorImpl_isEmpty (fst st)"
definition Vector_array :: "'a vstate \<Rightarrow> nat" where "Vector_array st = arrayImpl (fst st)"

definition Vector_editArray :: "'a vector_impl_ops \<Rightarrow> 'a vstate \<Rightarrow> nat \<times> 'a vstate" where
  "Vector_editArray V st = vi_editArray V st"

definition Vector_index :: "nat \<Rightarrow> 'a vstate \<Rightarrow> 'a option" where
  "Vector_index index st = snd st (Vector_array st + index)"

definition Vector_itemAt :: "nat \<Rightarrow> 'a vstate \<Rightarrow> 'a option" where "Vector_itemAt index st = Vector_index index st"

text \<open>The element before the first one does not exist.\<close>

definition Vector_top :: "'a vstate \<Rightarrow> 'a option" where
  "Vector_top st = (if Vector_size st = 0 then None else snd st (Vector_array st + Vector_size st - 1))"

definition Vector_editItemAt :: "'a vector_impl_ops \<Rightarrow> nat \<Rightarrow> 'a vstate \<Rightarrow> nat \<times> 'a vstate" where
  "Vector_editItemAt V index st = vi_editItemLocation V index st"

definition Vector_editTop :: "'a vector_impl_ops \<Rightarrow> 'a vstate \<Rightarrow> (nat \<times> 'a vstate) option" where
  "Vector_editTop V st = (if Vector_size st = 0 then None else Some (vi_editItemLocation V (Vector_size st - 1) st))"

section \<open>Iterators and the STL members\<close>

definition Vector_begin :: "'a vector_impl_ops \<Rightarrow> 'a vstate \<Rightarrow> int \<times> 'a vstate" where
  "Vector_begin V st = (let (p, st) = Vector_editArray V st in (int p, st))"

definition Vector_end :: "'a vector_impl_ops \<Rightarrow> 'a vstate \<Rightarrow> int \<times> 'a vstate" where
  "Vector_end V st = (let (p, st) = Vector_editArray V st in (int p + int (Vector_size st), st))"

definition Vector_cbegin :: "'a vstate \<Rightarrow> int" where "Vector_cbegin st = int (Vector_array st)"
definition Vector_cend :: "'a vstate \<Rightarrow> int" where "Vector_cend st = int (Vector_array st) + int (Vector_size st)"

definition Vector_reserve :: "'a vector_impl_ops \<Rightarrow> nat \<Rightarrow> 'a vstate \<Rightarrow> 'a vstate" where
  "Vector_reserve V n st = snd (vi_setCapacity V n st)"

definition Vector_empty :: "'a vstate \<Rightarrow> bool" where "Vector_empty st \<longleftrightarrow> Vector_isEmpty st"

definition Vector_insertAt :: "'a vector_impl_ops \<Rightarrow> nat \<Rightarrow> nat \<Rightarrow> nat \<Rightarrow> 'a vstate \<Rightarrow> int \<times> 'a vstate" where
  "Vector_insertAt V item index numItems st = vi_insertAt_item V item index numItems st"

definition Vector_push_back :: "'a vector_impl_ops \<Rightarrow> nat \<Rightarrow> 'a vstate \<Rightarrow> 'a vstate" where
  "Vector_push_back V item st = snd (Vector_insertAt V item (Vector_size st) 1 st)"

definition Vector_push_front :: "'a vector_impl_ops \<Rightarrow> nat \<Rightarrow> 'a vstate \<Rightarrow> 'a vstate" where
  "Vector_push_front V item st = snd (Vector_insertAt V item 0 1 st)"

definition Vector_removeItemsAt :: "'a vector_impl_ops \<Rightarrow> nat \<Rightarrow> nat \<Rightarrow> 'a vstate \<Rightarrow> int \<times> 'a vstate" where
  "Vector_removeItemsAt V index count st = vi_removeItemsAt V index count st"

definition Vector_removeAt :: "'a vector_impl_ops \<Rightarrow> nat \<Rightarrow> 'a vstate \<Rightarrow> int \<times> 'a vstate" where
  "Vector_removeAt V index st = Vector_removeItemsAt V index 1 st"

text \<open>The difference of the iterators becomes a \<open>size_t\<close>, of 64 bits.\<close>

definition Vector_erase :: "'a vector_impl_ops \<Rightarrow> int \<Rightarrow> 'a vstate \<Rightarrow> int \<times> 'a vstate" where
  "Vector_erase V pos st =
     (let (index, st) = Vector_removeItemsAt V (nat ((pos - int (Vector_array st)) mod 2 ^ 64)) 1 st;
          (b, st) = Vector_begin V st
      in (b + index, st))"

section \<open>Members that forward\<close>

definition Vector_clear :: "'a vector_impl_ops \<Rightarrow> 'a vstate \<Rightarrow> 'a vstate" where "Vector_clear V st = vi_clear V st"
definition Vector_capacity :: "'a vector_impl_ops \<Rightarrow> 'a vstate \<Rightarrow> nat" where "Vector_capacity V st = vi_capacity V st"
definition Vector_setCapacity :: "'a vector_impl_ops \<Rightarrow> nat \<Rightarrow> 'a vstate \<Rightarrow> int \<times> 'a vstate" where
  "Vector_setCapacity V n st = vi_setCapacity V n st"
definition Vector_resize :: "'a vector_impl_ops \<Rightarrow> nat \<Rightarrow> 'a vstate \<Rightarrow> int \<times> 'a vstate" where
  "Vector_resize V n st = vi_resize V n st"
definition Vector_getItemSize :: "'a vector_impl_ops \<Rightarrow> 'a vstate \<Rightarrow> nat" where "Vector_getItemSize V st = vi_itemSize V st"
definition Vector_insertVectorAt :: "'a vector_impl_ops \<Rightarrow> VectorImpl \<Rightarrow> nat \<Rightarrow> 'a vstate \<Rightarrow> int \<times> 'a vstate" where
  "Vector_insertVectorAt V vector index st = vi_insertVectorAt V vector index st"
definition Vector_appendVector :: "'a vector_impl_ops \<Rightarrow> VectorImpl \<Rightarrow> 'a vstate \<Rightarrow> int \<times> 'a vstate" where
  "Vector_appendVector V vector st = vi_appendVector V vector st"
definition Vector_insertArrayAt :: "'a vector_impl_ops \<Rightarrow> nat \<Rightarrow> nat \<Rightarrow> nat \<Rightarrow> 'a vstate \<Rightarrow> int \<times> 'a vstate" where
  "Vector_insertArrayAt V array index len st = vi_insertArrayAt V array index len st"
definition Vector_appendArray :: "'a vector_impl_ops \<Rightarrow> nat \<Rightarrow> nat \<Rightarrow> 'a vstate \<Rightarrow> int \<times> 'a vstate" where
  "Vector_appendArray V array len st = vi_appendArray V array len st"
definition Vector_push_item :: "'a vector_impl_ops \<Rightarrow> nat \<Rightarrow> 'a vstate \<Rightarrow> 'a vstate" where
  "Vector_push_item V item st = vi_push_item V item st"
definition Vector_add_item :: "'a vector_impl_ops \<Rightarrow> nat \<Rightarrow> 'a vstate \<Rightarrow> int \<times> 'a vstate" where
  "Vector_add_item V item st = vi_add_item V item st"
definition Vector_replaceAt_item :: "'a vector_impl_ops \<Rightarrow> nat \<Rightarrow> nat \<Rightarrow> 'a vstate \<Rightarrow> int \<times> 'a vstate" where
  "Vector_replaceAt_item V item index st = vi_replaceAt_item V item index st"
definition Vector_insertAt_default :: "'a vector_impl_ops \<Rightarrow> nat \<Rightarrow> nat \<Rightarrow> 'a vstate \<Rightarrow> int \<times> 'a vstate" where
  "Vector_insertAt_default V index numItems st = vi_insertAt V index numItems st"
definition Vector_pop :: "'a vector_impl_ops \<Rightarrow> 'a vstate \<Rightarrow> 'a vstate" where "Vector_pop V st = vi_pop V st"
definition Vector_push :: "'a vector_impl_ops \<Rightarrow> 'a vstate \<Rightarrow> 'a vstate" where "Vector_push V st = vi_push V st"
definition Vector_add :: "'a vector_impl_ops \<Rightarrow> 'a vstate \<Rightarrow> int \<times> 'a vstate" where "Vector_add V st = vi_add V st"
definition Vector_replaceAt :: "'a vector_impl_ops \<Rightarrow> nat \<Rightarrow> 'a vstate \<Rightarrow> int \<times> 'a vstate" where
  "Vector_replaceAt V index st = vi_replaceAt V index st"
definition Vector_sort :: "'a vector_impl_ops \<Rightarrow> ('a \<Rightarrow> 'a \<Rightarrow> int) \<Rightarrow> 'a vstate \<Rightarrow> status_t \<times> 'a vstate" where
  "Vector_sort V cmp st = vi_sort V cmp st"
definition Vector_sort_state :: "'a vector_impl_ops \<Rightarrow> ('a \<Rightarrow> 'a \<Rightarrow> 's \<Rightarrow> int) \<Rightarrow> 's \<Rightarrow> 'a vstate \<Rightarrow> status_t \<times> 'a vstate" where
  "Vector_sort_state V cmp state st = vi_sort V (\<lambda>a b. cmp a b state) st"

section \<open>The callbacks of VectorImpl\<close>

definition do_construct :: "type_traits \<Rightarrow> 'a \<Rightarrow> nat \<Rightarrow> nat \<Rightarrow> 'a cells \<Rightarrow> 'a cells option" where
  "do_construct t v storage num m = construct_type t v storage num m"

definition do_destroy :: "type_traits \<Rightarrow> nat \<Rightarrow> nat \<Rightarrow> 'a cells \<Rightarrow> 'a cells option" where
  "do_destroy t storage num m = destroy_type t storage num m"

definition do_copy :: "type_traits \<Rightarrow> nat \<Rightarrow> nat \<Rightarrow> nat \<Rightarrow> 'a cells \<Rightarrow> 'a cells option" where
  "do_copy t dest from num m = copy_type t dest from num m"

definition do_splat :: "type_traits \<Rightarrow> nat \<Rightarrow> nat \<Rightarrow> nat \<Rightarrow> 'a cells \<Rightarrow> 'a cells option" where
  "do_splat t dest item num m = splat_type t dest item num m"

definition do_move_forward :: "type_traits \<Rightarrow> nat \<Rightarrow> nat \<Rightarrow> nat \<Rightarrow> 'a cells \<Rightarrow> 'a cells option" where
  "do_move_forward t dest from num m = move_forward_type t dest from num m"

definition do_move_backward :: "type_traits \<Rightarrow> nat \<Rightarrow> nat \<Rightarrow> nat \<Rightarrow> 'a cells \<Rightarrow> 'a cells option" where
  "do_move_backward t dest from num m = move_backward_type t dest from num m"

section \<open>A vector is a list\<close>

definition vec_ok :: "'a vstate \<Rightarrow> bool" where
  "vec_ok st \<longleftrightarrow> (\<forall>i < mCount (fst st). snd st (mStorage (fst st) + i) \<noteq> None) \<and> mCount (fst st) < 2 ^ 63"

definition vec_list :: "'a vstate \<Rightarrow> 'a list" where
  "vec_list st = map (\<lambda>i. the (snd st (mStorage (fst st) + i))) [0..<mCount (fst st)]"

definition in_storage :: "nat \<Rightarrow> 'a vstate \<Rightarrow> bool" where
  "in_storage a st \<longleftrightarrow> mStorage (fst st) \<le> a \<and> a < mStorage (fst st) + mCount (fst st)"

text \<open>
  What the documentation of \<open>Vector\<close> promises of three members: making the storage writable keeps the
  items; inserting copies of an item that is not itself in the vector, or failing, and removing a
  range. An error is a negative result.
\<close>

definition edit_law :: "'a vector_impl_ops \<Rightarrow> bool" where
  "edit_law V \<longleftrightarrow> (\<forall>st p st'. vec_ok st \<longrightarrow> vi_editArray V st = (p, st') \<longrightarrow>
     vec_ok st' \<and> vec_list st' = vec_list st \<and> p = mStorage (fst st'))"

definition insert_law :: "'a vector_impl_ops \<Rightarrow> bool" where
  "insert_law V \<longleftrightarrow> (\<forall>st a x i n r st'. vec_ok st \<longrightarrow> snd st a = Some x \<longrightarrow> \<not> in_storage a st \<longrightarrow> i \<le> mCount (fst st) \<longrightarrow>
     vi_insertAt_item V a i n st = (r, st') \<longrightarrow> vec_ok st' \<and>
     vec_list st' = (if r < 0 then vec_list st else take i (vec_list st) @ replicate n x @ drop i (vec_list st)))"

definition remove_law :: "'a vector_impl_ops \<Rightarrow> bool" where
  "remove_law V \<longleftrightarrow> (\<forall>st i n r st'. vec_ok st \<longrightarrow> vi_removeItemsAt V i n st = (r, st') \<longrightarrow> vec_ok st' \<and>
     (if i + n \<le> mCount (fst st) then r = int i \<and> vec_list st' = take i (vec_list st) @ drop (i + n) (vec_list st)
      else r < 0 \<and> vec_list st' = vec_list st))"

definition vector_laws :: "'a vector_impl_ops \<Rightarrow> bool" where
  "vector_laws V \<longleftrightarrow> edit_law V \<and> insert_law V \<and> remove_law V"

lemma vec_list_length: "length (vec_list st) = mCount (fst st)"
  by (simp add: vec_list_def)

lemma vec_list_nth: "vec_ok st \<Longrightarrow> i < mCount (fst st) \<Longrightarrow> snd st (mStorage (fst st) + i) = Some (vec_list st ! i)"
  by (simp add: vec_ok_def vec_list_def)

text \<open>
  A vector behaves as the list of its items. Reading by index, the last item and the emptiness
  test are those of the list; the STL members added to it are the list operations: \<open>push_back\<close> and
  \<open>push_front\<close> put a copy of the item at the end or the front (or leave the list alone when the
  storage cannot grow, which they do not report), and \<open>erase\<close> removes the item its iterator points
  to and returns the iterator of the next one in the new storage; past the end it changes nothing
  and returns a position before the first item.
\<close>

lemma vector_refines_list:
  assumes "vector_laws V" and "vec_ok st" and "snd st a = Some x" and "\<not> in_storage a st" and "i < 2 ^ 63"
  shows "(k < Vector_size st \<longrightarrow> Vector_itemAt k st = Some (vec_list st ! k)) \<and>
    (Vector_empty st \<longleftrightarrow> vec_list st = []) \<and>
    (vec_list st \<noteq> [] \<longrightarrow> Vector_top st = Some (last (vec_list st))) \<and>
    vec_list (Vector_push_back V a st) \<in> {vec_list st, vec_list st @ [x]} \<and>
    vec_list (Vector_push_front V a st) \<in> {vec_list st, x # vec_list st} \<and>
    (case Vector_erase V (Vector_cbegin st + int i) st of (pos, st') \<Rightarrow>
       if i < Vector_size st then
         vec_list st' = take i (vec_list st) @ drop (Suc i) (vec_list st) \<and> pos = Vector_cbegin st' + int i
       else vec_list st' = vec_list st \<and> pos < Vector_cbegin st')"
proof -
  note laws = assms(1) [unfolded vector_laws_def edit_law_def insert_law_def remove_law_def]
  have l: "length (vec_list st) = mCount (fst st)" by (rule vec_list_length)
  have ins: "vec_list (snd (vi_insertAt_item V a j 1 st)) \<in> {vec_list st, take j (vec_list st) @ [x] @ drop j (vec_list st)}"
    if "j \<le> mCount (fst st)" for j
  proof -
    obtain r st' where e: "vi_insertAt_item V a j 1 st = (r, st')" by (rule prod.exhaust)
    have "vec_list st' = (if r < 0 then vec_list st else take j (vec_list st) @ replicate 1 x @ drop j (vec_list st))"
      using laws assms(2-4) that e by blast
    then show ?thesis using e by simp
  qed
  obtain r st1 where 1: "vi_removeItemsAt V i 1 st = (r, st1)" by (rule prod.exhaust)
  obtain p st2 where 2: "vi_editArray V st1 = (p, st2)" by (rule prod.exhaust)
  have r: "vec_ok st1" "if i + 1 \<le> mCount (fst st)
      then r = int i \<and> vec_list st1 = take i (vec_list st) @ drop (i + 1) (vec_list st)
      else r < 0 \<and> vec_list st1 = vec_list st"
    using laws assms(2) 1 by blast+
  have e: "vec_list st2 = vec_list st1 \<and> p = mStorage (fst st2)" using laws r(1) 2 by blast
  have "nat (int i mod 2 ^ 64) = i" using assms(5) by simp
  then have erase: "Vector_erase V (Vector_cbegin st + int i) st = (int p + r, st2)"
    using 1 2 by (simp add: Vector_erase_def Vector_cbegin_def Vector_removeItemsAt_def Vector_begin_def Vector_editArray_def)
  have "case Vector_erase V (Vector_cbegin st + int i) st of (pos, st') \<Rightarrow>
       if i < Vector_size st then
         vec_list st' = take i (vec_list st) @ drop (Suc i) (vec_list st) \<and> pos = Vector_cbegin st' + int i
       else vec_list st' = vec_list st \<and> pos < Vector_cbegin st'"
    unfolding erase using r(2) e
    by (auto simp: Vector_size_def VectorImpl_size_def Vector_cbegin_def Vector_array_def arrayImpl_def split: if_splits)
  moreover have "vec_list st \<noteq> [] \<longrightarrow> Vector_top st = Some (last (vec_list st))"
    using vec_list_nth [OF assms(2), of "mCount (fst st) - 1"] l
    by (auto simp: Vector_top_def Vector_size_def VectorImpl_size_def Vector_array_def arrayImpl_def last_conv_nth)
  moreover have "vec_list (Vector_push_back V a st) \<in> {vec_list st, vec_list st @ [x]}"
    using ins [of "mCount (fst st)"] l
    by (simp add: Vector_push_back_def Vector_insertAt_def Vector_size_def VectorImpl_size_def)
  moreover have "vec_list (Vector_push_front V a st) \<in> {vec_list st, x # vec_list st}"
    using ins [of 0] by (simp add: Vector_push_front_def Vector_insertAt_def)
  ultimately show ?thesis
    using vec_list_nth [OF assms(2)] l
    by (auto simp: Vector_itemAt_def Vector_index_def Vector_size_def VectorImpl_size_def Vector_array_def arrayImpl_def
        Vector_empty_def Vector_isEmpty_def VectorImpl_isEmpty_def)
qed

text \<open>Vectors that keep their place and hold exactly the items of a list.\<close>

definition put_list :: "'a vstate \<Rightarrow> 'a list \<Rightarrow> 'a vstate" where
  "put_list st xs = ((fst st)\<lparr>mCount := length xs\<rparr>,
     \<lambda>a. if mStorage (fst st) \<le> a \<and> a < mStorage (fst st) + length xs then Some (xs ! (a - mStorage (fst st))) else snd st a)"

definition list_vector :: "'a vector_impl_ops" where
  "list_vector = \<lparr>vi_new = (\<lambda>z f m. (\<lparr>mStorage = 0, mCount = 0, mFlags = f, mItemSize = z\<rparr>, m)), vi_copy = Pair,
     vi_finish = id, vi_assign = (\<lambda>_ st. st), vi_editArray = (\<lambda>st. (mStorage (fst st), st)),
     vi_capacity = (\<lambda>st. mCount (fst st)), vi_setCapacity = (\<lambda>_. Pair 0), vi_resize = (\<lambda>_. Pair 0),
     vi_insertVectorAt = (\<lambda>_ _. Pair 0), vi_appendVector = (\<lambda>_. Pair 0), vi_insertArrayAt = (\<lambda>_ _ _. Pair 0),
     vi_appendArray = (\<lambda>_ _. Pair 0), vi_insertAt = (\<lambda>_ _. Pair 0),
     vi_insertAt_item = (\<lambda>a i n st. case snd st a of
         Some x \<Rightarrow> if i \<le> mCount (fst st) \<and> mCount (fst st) + n < 2 ^ 63
           then (int i, put_list st (take i (vec_list st) @ replicate n x @ drop i (vec_list st))) else (- 12, st)
       | None \<Rightarrow> (- 22, st)),
     vi_pop = id, vi_push = id, vi_push_item = (\<lambda>_ st. st), vi_add = Pair 0, vi_add_item = (\<lambda>_. Pair 0),
     vi_replaceAt = (\<lambda>_. Pair 0), vi_replaceAt_item = (\<lambda>_ _. Pair 0),
     vi_removeItemsAt = (\<lambda>i n st. if i + n \<le> mCount (fst st)
       then (int i, put_list st (take i (vec_list st) @ drop (i + n) (vec_list st))) else (- 22, st)),
     vi_clear = id, vi_editItemLocation = (\<lambda>i st. (mStorage (fst st) + i, st)), vi_sort = (\<lambda>_. Pair 0), vi_itemSize = (\<lambda>_. 1)\<rparr>"

lemma put_list: "length xs < 2 ^ 63 \<Longrightarrow> vec_ok (put_list st xs)" "vec_list (put_list st xs) = xs"
  by (auto simp: put_list_def vec_ok_def vec_list_def intro: nth_equalityI)

lemma list_vector_laws: "vector_laws (list_vector :: 'a vector_impl_ops)"
proof -
  have "edit_law (list_vector :: 'a vector_impl_ops)" by (simp add: edit_law_def list_vector_def)
  moreover have "insert_law (list_vector :: 'a vector_impl_ops)"
    unfolding insert_law_def
  proof (intro allI impI)
    fix st :: "'a vstate" and a x i n r st'
    assume a: "vec_ok st" "snd st a = Some x" "vi_insertAt_item list_vector a i n st = (r, st')"
    then show "vec_ok st' \<and> vec_list st' =
        (if r < 0 then vec_list st else take i (vec_list st) @ replicate n x @ drop i (vec_list st))"
      by (cases "i \<le> mCount (fst st) \<and> mCount (fst st) + n < 2 ^ 63")
        (auto simp: list_vector_def put_list vec_list_length)
  qed
  moreover have "remove_law (list_vector :: 'a vector_impl_ops)"
    unfolding remove_law_def
  proof (intro allI impI)
    fix st :: "'a vstate" and i n r st'
    assume a: "vec_ok st" "vi_removeItemsAt list_vector i n st = (r, st')"
    then have "mCount (fst st) < 2 ^ 63" by (simp add: vec_ok_def)
    then show "vec_ok st' \<and> (if i + n \<le> mCount (fst st)
        then r = int i \<and> vec_list st' = take i (vec_list st) @ drop (i + n) (vec_list st)
        else r < 0 \<and> vec_list st' = vec_list st)"
      using a by (cases "i + n \<le> mCount (fst st)") (auto simp: list_vector_def put_list vec_list_length)
  qed
  ultimately show ?thesis by (simp add: vector_laws_def)
qed

lemma vector_refines_list_witness:
  "\<exists>pos st'. Vector_erase list_vector 11 (\<lparr>mStorage = 10, mCount = 3, mFlags = 0, mItemSize = 1\<rparr>,
     \<lambda>a. if a < 20 then Some a else None) = (pos, st') \<and> vec_list st' = [10, 12] \<and> pos = Vector_cbegin st' + 1"
proof -
  let ?st = "(\<lparr>mStorage = 10, mCount = 3, mFlags = 0, mItemSize = 1\<rparr>, \<lambda>a. if a < 20 then Some a else None) :: nat vstate"
  have ok: "vec_ok ?st" "snd ?st 5 = Some 5" "\<not> in_storage 5 ?st"
    by (simp_all add: vec_ok_def in_storage_def)
  have l: "vec_list ?st = [10, 11, 12]" by (simp add: vec_list_def upt_rec)
  from vector_refines_list [OF list_vector_laws ok, of 1 0]
  show ?thesis unfolding l
    by (auto simp: Vector_cbegin_def Vector_array_def arrayImpl_def Vector_size_def VectorImpl_size_def split: prod.splits)
qed

end
