(* ===== verification/Link_Stubs.thy ===== *)
theory Link_Stubs
  imports Ioctl_Hook Parcel
begin

text \<open>
  The bodies of \<open>stub/stub_utils.cpp\<close> and \<open>stub/stub_binder.cpp\<close>. They let the library link without
  the platform's libraries, which replace them when it is loaded; those that stand for operations
  of \<open>libbinder_ops\<close> make up \<open>stub_library\<close>, those of \<open>Parcel\<close> \<open>stub_parcel\<close>. A stub does not touch its
  object, its parcel or the world; one that returns its value through a pointer leaves the
  caller's variable, here \<open>prior\<close>, as it is. The lemmas say that a process in which they were not
  replaced is not intercepted, and reads no vector. Empty constructors and destructors of classes
  without fields are left out.
\<close>

section \<open>RefBase\<close>

definition stub_incStrong :: "ptr \<Rightarrow> 'w \<Rightarrow> 'w" where "stub_incStrong this w = w"
definition stub_incStrongRequireStrong :: "ptr \<Rightarrow> 'w \<Rightarrow> 'w" where "stub_incStrongRequireStrong this w = w"
definition stub_decStrong :: "ptr \<Rightarrow> 'w \<Rightarrow> 'w" where "stub_decStrong this w = w"
definition stub_createWeak :: "ptr \<Rightarrow> 'w \<Rightarrow> ptr \<times> 'w" where "stub_createWeak this w = (nullptr, w)"
definition stub_getWeakRefs :: "ptr \<Rightarrow> 'w \<Rightarrow> ptr" where "stub_getWeakRefs this w = nullptr"
definition stub_incWeak :: "ptr \<Rightarrow> 'w \<Rightarrow> 'w" where "stub_incWeak this w = w"
definition stub_decWeak :: "ptr \<Rightarrow> 'w \<Rightarrow> 'w" where "stub_decWeak this w = w"
definition stub_attemptIncStrong :: "ptr \<Rightarrow> 'w \<Rightarrow> bool \<times> 'w" where "stub_attemptIncStrong this w = (False, w)"

definition stub_forceIncStrong :: "ptr \<Rightarrow> 'w \<Rightarrow> 'w" where "stub_forceIncStrong this w = w"
definition stub_RefBase :: "ptr" where "stub_RefBase = nullptr"
definition stub_RefBase_destroy :: "ptr \<Rightarrow> 'w \<Rightarrow> 'w" where "stub_RefBase_destroy this w = w"
definition stub_onFirstRef :: "ptr \<Rightarrow> 'w \<Rightarrow> 'w" where "stub_onFirstRef this w = w"
definition stub_onLastStrongRef :: "ptr \<Rightarrow> 'w \<Rightarrow> 'w" where "stub_onLastStrongRef this w = w"
definition stub_onIncStrongAttempted :: "ptr \<Rightarrow> u32 \<Rightarrow> bool" where "stub_onIncStrongAttempted this flags = False"
definition stub_onLastWeakRef :: "ptr \<Rightarrow> 'w \<Rightarrow> 'w" where "stub_onLastWeakRef this w = w"
definition stub_refBase :: "ptr \<Rightarrow> ptr" where "stub_refBase this = nullptr"
definition stub_incWeakRequireWeak :: "ptr \<Rightarrow> 'w \<Rightarrow> 'w" where "stub_incWeakRequireWeak this w = w"
definition stub_attemptIncWeak :: "ptr \<Rightarrow> bool" where "stub_attemptIncWeak this = False"
definition stub_sp_report_race :: "'w \<Rightarrow> 'w" where "stub_sp_report_race w = w"

section \<open>IBinder, BBinder and IPCThreadState\<close>

text \<open>\<open>getInterfaceDescriptor\<close> must not be reached; \<open>None\<close> is undefined behaviour.\<close>

definition stub_queryLocalInterface :: "ptr \<Rightarrow> ptr" where "stub_queryLocalInterface this = nullptr"
definition stub_IBinder_localBinder :: "ptr \<Rightarrow> ptr" where "stub_IBinder_localBinder this = nullptr"
definition stub_remoteBinder :: "ptr \<Rightarrow> ptr" where "stub_remoteBinder this = nullptr"
definition stub_checkSubclass :: "ptr \<Rightarrow> bool" where "stub_checkSubclass subclassID = False"
definition stub_IBinder_withLock :: "('w \<Rightarrow> 'w) \<Rightarrow> 'w \<Rightarrow> 'w" where "stub_IBinder_withLock doWithLock w = w"
definition stub_getInterfaceDescriptor :: "ptr \<Rightarrow> string option" where "stub_getInterfaceDescriptor this = None"
definition stub_isBinderAlive :: "ptr \<Rightarrow> bool" where "stub_isBinderAlive this = False"
definition stub_pingBinder :: "ptr \<Rightarrow> status_t" where "stub_pingBinder this = 0"
definition stub_dump :: "int \<Rightarrow> string list \<Rightarrow> status_t" where "stub_dump fd args = 0"
definition stub_linkToDeath :: "ptr \<Rightarrow> ptr \<Rightarrow> u32 \<Rightarrow> status_t" where "stub_linkToDeath recipient cookie flags = 0"
definition stub_unlinkToDeath :: "ptr \<Rightarrow> ptr \<Rightarrow> u32 \<Rightarrow> status_t" where "stub_unlinkToDeath recipient cookie flags = 0"
definition stub_attachObject :: "ptr \<Rightarrow> ptr \<Rightarrow> ptr" where "stub_attachObject objectID object = nullptr"
definition stub_findObject :: "ptr \<Rightarrow> ptr" where "stub_findObject objectID = nullptr"
definition stub_detachObject :: "ptr \<Rightarrow> ptr" where "stub_detachObject objectID = nullptr"
definition stub_BBinder_withLock :: "('w \<Rightarrow> 'w) \<Rightarrow> 'w \<Rightarrow> 'w" where "stub_BBinder_withLock doWithLock w = w"
definition stub_onTransact_body :: "u32 \<Rightarrow> 'p \<Rightarrow> 'p \<Rightarrow> u32 \<Rightarrow> status_t \<times> 'p" where
  "stub_onTransact_body code data reply flags = (0, reply)"
definition stub_IPCThreadState_self :: ptr where "stub_IPCThreadState_self = nullptr"
definition stub_selfOrNull :: ptr where "stub_selfOrNull = nullptr"
definition stub_getCallingSid :: "ptr \<Rightarrow> ptr" where "stub_getCallingSid this = nullptr"
definition stub_defaultServiceManager :: ptr where "stub_defaultServiceManager = nullptr"
definition stub_setDefaultServiceManager :: "ptr \<Rightarrow> 'w \<Rightarrow> 'w" where "stub_setDefaultServiceManager sm w = w"

definition stub_localBinder :: "ptr \<Rightarrow> 'w \<Rightarrow> ptr" where "stub_localBinder this w = nullptr"
definition stub_transact :: "ptr \<Rightarrow> u32 \<Rightarrow> 'p \<Rightarrow> 'p \<Rightarrow> u32 \<Rightarrow> 'w \<Rightarrow> status_t \<times> 'p \<times> 'w" where
  "stub_transact this code data reply flags w = (0, reply, w)"
definition stub_transact_no_reply :: "ptr \<Rightarrow> u32 \<Rightarrow> 'p \<Rightarrow> u32 \<Rightarrow> 'w \<Rightarrow> status_t \<times> 'w" where
  "stub_transact_no_reply this code data flags w = (0, w)"
definition stub_getCallingPid :: "'w \<Rightarrow> u32" where "stub_getCallingPid w = 0"
definition stub_getCallingUid :: "'w \<Rightarrow> u32" where "stub_getCallingUid w = 0"

section \<open>Parcel\<close>

definition stub_dataSize :: "'p \<Rightarrow> u64" where "stub_dataSize p = 0"
definition stub_dataPosition :: "'p \<Rightarrow> u64" where "stub_dataPosition p = 0"
definition stub_appendFrom :: "'p \<Rightarrow> u64 \<Rightarrow> u64 \<Rightarrow> 'p \<Rightarrow> status_t \<times> 'p" where "stub_appendFrom parcel start len p = (0, p)"
definition stub_freeData :: "'p \<Rightarrow> 'p" where "stub_freeData p = p"
definition stub_writeInt32 :: "u32 \<Rightarrow> 'p \<Rightarrow> status_t \<times> 'p" where "stub_writeInt32 val p = (0, p)"
definition stub_writeUint32 :: "u32 \<Rightarrow> 'p \<Rightarrow> status_t \<times> 'p" where "stub_writeUint32 val p = (0, p)"
definition stub_writeUint64 :: "u64 \<Rightarrow> 'p \<Rightarrow> status_t \<times> 'p" where "stub_writeUint64 val p = (0, p)"
definition stub_writeStrongBinder :: "ptr \<Rightarrow> 'p \<Rightarrow> status_t \<times> 'p" where "stub_writeStrongBinder val p = (0, p)"
definition stub_readInt32 :: "u32 \<Rightarrow> 'p \<Rightarrow> status_t \<times> u32 \<times> 'p" where "stub_readInt32 prior p = (0, prior, p)"
definition stub_readInt32_value :: "'p \<Rightarrow> u32 \<times> 'p" where "stub_readInt32_value p = (0, p)"
definition stub_readUint32 :: "u32 \<Rightarrow> 'p \<Rightarrow> status_t \<times> u32 \<times> 'p" where "stub_readUint32 prior p = (0, prior, p)"
definition stub_readUint64_value :: "'p \<Rightarrow> u64 \<times> 'p" where "stub_readUint64_value p = (0, p)"
definition stub_readStrongBinder :: "ptr \<Rightarrow> 'p \<Rightarrow> 'w \<Rightarrow> status_t \<times> ptr \<times> 'p \<times> 'w" where
  "stub_readStrongBinder prior p w = (0, prior, p, w)"

text \<open>The other members; those that return a value through a pointer again take its prior value.\<close>

definition stub_data :: "'p \<Rightarrow> ptr" where "stub_data p = nullptr"
definition stub_dataAvail :: "'p \<Rightarrow> nat" where "stub_dataAvail p = 0"
definition stub_dataCapacity :: "'p \<Rightarrow> nat" where "stub_dataCapacity p = 0"
definition stub_dataBufferSize :: "'p \<Rightarrow> nat" where "stub_dataBufferSize p = 0"
definition stub_setDataSize :: "nat \<Rightarrow> 'p \<Rightarrow> status_t \<times> 'p" where "stub_setDataSize size' p = (0, p)"
definition stub_setDataPosition :: "nat \<Rightarrow> 'p \<Rightarrow> 'p" where "stub_setDataPosition pos p = p"
definition stub_setDataCapacity :: "nat \<Rightarrow> 'p \<Rightarrow> status_t \<times> 'p" where "stub_setDataCapacity size' p = (0, p)"
definition stub_setData :: "byte list \<Rightarrow> 'p \<Rightarrow> status_t \<times> 'p" where "stub_setData buffer p = (0, p)"
definition stub_setEnforceNoDataAvail :: "bool \<Rightarrow> 'p \<Rightarrow> 'p" where "stub_setEnforceNoDataAvail e p = p"
definition stub_write :: "byte list \<Rightarrow> 'p \<Rightarrow> status_t \<times> 'p" where "stub_write data p = (0, p)"
definition stub_writeInplace :: "nat \<Rightarrow> 'p \<Rightarrow> u64 option \<times> 'p" where "stub_writeInplace len p = (None, p)"
definition stub_writeInt64 :: "u64 \<Rightarrow> 'p \<Rightarrow> status_t \<times> 'p" where "stub_writeInt64 val p = (0, p)"
definition stub_writeFloat :: "u32 \<Rightarrow> 'p \<Rightarrow> status_t \<times> 'p" where "stub_writeFloat val p = (0, p)"
definition stub_writeDouble :: "u64 \<Rightarrow> 'p \<Rightarrow> status_t \<times> 'p" where "stub_writeDouble val p = (0, p)"
definition stub_writeCString :: "byte list \<Rightarrow> 'p \<Rightarrow> status_t \<times> 'p" where "stub_writeCString str p = (0, p)"
definition stub_writeString8 :: "byte list \<Rightarrow> nat \<Rightarrow> 'p \<Rightarrow> status_t \<times> 'p" where "stub_writeString8 str len p = (0, p)"
definition stub_writeBool :: "bool \<Rightarrow> 'p \<Rightarrow> status_t \<times> 'p" where "stub_writeBool val p = (0, p)"
definition stub_writeChar :: "u16 \<Rightarrow> 'p \<Rightarrow> status_t \<times> 'p" where "stub_writeChar val p = (0, p)"
definition stub_writeByte :: "u8 \<Rightarrow> 'p \<Rightarrow> status_t \<times> 'p" where "stub_writeByte val p = (0, p)"
definition stub_writeNoException :: "'p \<Rightarrow> status_t \<times> 'p" where "stub_writeNoException p = (0, p)"
definition stub_read :: "byte list \<Rightarrow> 'p \<Rightarrow> status_t \<times> byte list \<times> 'p" where "stub_read prior p = (0, prior, p)"
definition stub_readInplace :: "nat \<Rightarrow> 'p \<Rightarrow> byte list option \<times> 'p" where "stub_readInplace len p = (None, p)"
definition stub_readUint32_value :: "'p \<Rightarrow> u32 \<times> 'p" where "stub_readUint32_value p = (0, p)"
definition stub_readInt64_value :: "'p \<Rightarrow> u64 \<times> 'p" where "stub_readInt64_value p = (0, p)"
definition stub_readInt64 :: "u64 \<Rightarrow> 'p \<Rightarrow> status_t \<times> u64 \<times> 'p" where "stub_readInt64 prior p = (0, prior, p)"
definition stub_readUint64 :: "u64 \<Rightarrow> 'p \<Rightarrow> status_t \<times> u64 \<times> 'p" where "stub_readUint64 prior p = (0, prior, p)"
definition stub_readFloat_value :: "'p \<Rightarrow> u32 \<times> 'p" where "stub_readFloat_value p = (0, p)"
definition stub_readFloat :: "u32 \<Rightarrow> 'p \<Rightarrow> status_t \<times> u32 \<times> 'p" where "stub_readFloat prior p = (0, prior, p)"
definition stub_readDouble_value :: "'p \<Rightarrow> u64 \<times> 'p" where "stub_readDouble_value p = (0, p)"
definition stub_readDouble :: "u64 \<Rightarrow> 'p \<Rightarrow> status_t \<times> u64 \<times> 'p" where "stub_readDouble prior p = (0, prior, p)"
definition stub_readBool_value :: "'p \<Rightarrow> bool \<times> 'p" where "stub_readBool_value p = (False, p)"
definition stub_readBool :: "bool \<Rightarrow> 'p \<Rightarrow> status_t \<times> bool \<times> 'p" where "stub_readBool prior p = (0, prior, p)"
definition stub_readChar_value :: "'p \<Rightarrow> u16 \<times> 'p" where "stub_readChar_value p = (0, p)"
definition stub_readChar :: "u16 \<Rightarrow> 'p \<Rightarrow> status_t \<times> u16 \<times> 'p" where "stub_readChar prior p = (0, prior, p)"
definition stub_readByte_value :: "'p \<Rightarrow> u8 \<times> 'p" where "stub_readByte_value p = (0, p)"
definition stub_readByte :: "u8 \<Rightarrow> 'p \<Rightarrow> status_t \<times> u8 \<times> 'p" where "stub_readByte prior p = (0, prior, p)"
definition stub_readStrongBinder_value :: "'p \<Rightarrow> ptr \<times> 'p" where "stub_readStrongBinder_value p = (nullptr, p)"
definition stub_readNullableStrongBinder :: "ptr \<Rightarrow> 'p \<Rightarrow> status_t \<times> ptr \<times> 'p" where
  "stub_readNullableStrongBinder prior p = (0, prior, p)"
definition stub_readExceptionCode :: "'p \<Rightarrow> u32 \<times> 'p" where "stub_readExceptionCode p = (0, p)"
definition stub_readFileDescriptor :: "'p \<Rightarrow> int \<times> 'p" where "stub_readFileDescriptor p = (0, p)"

section \<open>The stubs as a library\<close>

definition stub_library :: "u32 \<Rightarrow> ptr \<Rightarrow> 'p \<Rightarrow> ('w, 'p) libbinder_ops" where
  "stub_library prior prior_binder fresh =
     \<lparr>incStrong = stub_incStrong, incStrongRequireStrong = stub_incStrongRequireStrong, decStrong = stub_decStrong,
      getWeakRefs = stub_getWeakRefs, createWeak = stub_createWeak, incWeak = stub_incWeak, decWeak = stub_decWeak,
      attemptIncStrong = stub_attemptIncStrong, newParcel = fresh, dataSize = stub_dataSize,
      dataPosition = stub_dataPosition, appendFrom = stub_appendFrom, freeData = stub_freeData,
      writeInt32 = stub_writeInt32, writeUint32 = stub_writeUint32, writeUint64 = stub_writeUint64,
      writeStrongBinder = stub_writeStrongBinder, readInt32 = stub_readInt32 prior,
      readInt32Value = stub_readInt32_value, readUint32 = stub_readUint32 prior,
      readUint64Value = stub_readUint64_value, readStrongBinder = stub_readStrongBinder prior_binder,
      localBinder = stub_localBinder, getCallingUid = stub_getCallingUid, getCallingPid = stub_getCallingPid,
      transactReply = stub_transact, transactNoReply = stub_transact_no_reply\<rparr>"

text \<open>
  With the stubs no weak reference is ever promoted: whatever the registry holds, no transaction but
  the backdoor call of root is redirected, and the world is not touched.
\<close>

lemma stubs_redirect_only_backdoor:
  assumes "\<not> (td_code t = kBackdoorCode \<and> td_sender_euid t = 0)"
  shows "decideInterception (stub_library a b e) reg t w = (None, w)"
proof -
  have "attemptIncStrong (stub_library a b e) x w = (False, w)" for x
    by (simp add: stub_library_def stub_attemptIncStrong_def)
  then show ?thesis using assms by (auto simp: decideInterception_def)
qed

lemma stubs_hook_nothing:
  assumes "\<not> (td_code (dec_td (mem_read m addr 64)) = kBackdoorCode \<and> td_sender_euid (dec_td (mem_read m addr 64)) = 0)"
  shows "processBinderTransaction (stub_library a b e) reg stub addr (m, queue, w) = (False, (m, queue, w))"
proof -
  have "decideInterception (stub_library a b e) reg (dec_td (mem_read m addr 64)) w = (None, w)"
    by (rule stubs_redirect_only_backdoor [OF assms])
  then show ?thesis by (simp add: processBinderTransaction_def Let_def)
qed

text \<open>
  The stubs of \<open>Parcel\<close> under the templates of \<open>Parcel.h\<close>; \<open>Q\<close> gives the members without a stub,
  \<open>prior\<close> what the variable for an \<open>int32_t\<close> held before.
\<close>

definition reader_of :: "('p \<Rightarrow> status_t \<times> 'x \<times> 'p) \<Rightarrow> ('x, 'p) reader" where
  "reader_of rd p = (let (status, x, p) = rd p in (if is_ok status then Inr x else Inl status, p))"

definition stub_parcel :: "('p, 'k) parcel_ops \<Rightarrow> u32 \<Rightarrow> ('p, 'k) parcel_ops" where
  "stub_parcel Q prior = Q\<lparr>writeBool := stub_writeBool, writeByte := stub_writeByte, writeChar := stub_writeChar,
     parcel_ops.writeInt32 := stub_writeInt32, parcel_ops.writeUint32 := stub_writeUint32, writeInt64 := stub_writeInt64,
     parcel_ops.writeUint64 := stub_writeUint64, writeFloat := stub_writeFloat, writeDouble := stub_writeDouble,
     parcel_ops.writeStrongBinder := stub_writeStrongBinder, write_bytes := stub_write,
     writeInplace := stub_writeInplace, parcel_ops.readInt32 := reader_of (stub_readInt32 prior),
     readInplace := stub_readInplace, dataAvail := stub_dataAvail, setDataPosition := stub_setDataPosition\<rparr>"

text \<open>
  Unreplaced stubs report what was not written as written, but no vector with an element is ever
  read: there is nothing available, so any size but zero is an error.
\<close>

lemma stub_vectors:
  "writeData (stub_parcel Q prior) (Int32 x) p = (status_of OK, p)"
  "fst (readData (stub_parcel Q prior) (TVector t) f p) = Inr (PVector t xs) \<Longrightarrow> xs = []"
proof -
  show "writeData (stub_parcel Q prior) (Int32 x) p = (status_of OK, p)"
    by (simp add: stub_parcel_def stub_writeInt32_def status_of_def)
  assume r: "fst (readData (stub_parcel Q prior) (TVector t) f p) = Inr (PVector t xs)"
  have q: "parcel_ops.readInt32 (stub_parcel Q prior) p = (Inr prior, p)" "dataAvail (stub_parcel Q prior) p = 0"
    "readInplace (stub_parcel Q prior) n p = (None, p)" for n
    by (simp_all add: stub_parcel_def reader_of_def stub_readInt32_def stub_dataAvail_def stub_readInplace_def
        status_of_def)
  then show "xs = []" using r
    by (auto simp: readVector_def unat_eq_0 split: if_splits)
qed

end
