(* ===== verification/Class_Layout.thy ===== *)
theory Class_Layout
  imports Binder_Uapi
begin

text \<open>
  The layout of the platform's classes whose objects the library shares with \<open>libbinder.so\<close>:
  \<open>RefBase\<close>, \<open>IBinder\<close>, \<open>BBinder\<close> and \<open>Parcel\<close>, field by field from their headers, on 32-bit and 64-bit
  targets. The sizes are those the static assertions of \<open>stub/stub_binder.cpp\<close> demand. The rules are
  those of the Itanium C++ ABI: a class with virtual functions starts with a pointer to its table, a virtual base
  follows the rest of the object. A \<open>std::variant\<close> is a union followed by its index, an
  \<open>unsigned int\<close>.
\<close>

section \<open>Fields\<close>

text \<open>A scalar of given size, a word of the target, a field of 64-bit targets only, a struct, a variant.\<close>

datatype cfield = Scalar nat | Word_field | LP64_only cfield | Struct_field "cfield list" | Variant "cfield list"

abbreviation "Bool_field \<equiv> Scalar 1"
abbreviation "Int16 \<equiv> Scalar 2"
abbreviation "Int32 \<equiv> Scalar 4"

text \<open>Size and alignment on a target with words of \<open>P\<close> bytes.\<close>

definition struct_of :: "(nat \<times> nat) list \<Rightarrow> nat \<times> nat" where
  "struct_of fs = (let a = foldr max (map snd fs) 1 in (align_up (struct_end 0 fs) a, a))"

fun field_size :: "nat \<Rightarrow> cfield \<Rightarrow> nat \<times> nat" where
  "field_size P (Scalar n) = (n, n)"
| "field_size P Word_field = (P, P)"
| "field_size P (LP64_only f) = (if P = 8 then field_size P f else (0, 1))"
| "field_size P (Struct_field fs) = struct_of (map (field_size P) fs)"
| "field_size P (Variant fs) = struct_of
     [(foldr max (map (\<lambda>f. fst (field_size P f)) fs) 0, foldr max (map (\<lambda>f. snd (field_size P f)) fs) 1), (4, 4)]"

section \<open>Classes\<close>

text \<open>The table pointer and \<open>mRefs\<close>.\<close>

definition RefBase_fields :: "cfield list" where "RefBase_fields = [Word_field, Word_field]"

text \<open>A class derived virtually from \<open>RefBase\<close>, with its own fields after the table pointer.\<close>

definition virtual_RefBase :: "nat \<Rightarrow> cfield list \<Rightarrow> nat" where
  "virtual_RefBase P own = fst (struct_of (map (field_size P) (Word_field # own) @ [field_size P (Struct_field RefBase_fields)]))"

definition IBinder_fields :: "cfield list" where "IBinder_fields = []"

text \<open>\<open>mExtras\<close>, \<open>mStability\<close>, \<open>mParceled\<close>, \<open>mRecordingOn\<close>, \<open>mReserved1\<close>.\<close>

definition BBinder_fields :: "cfield list" where
  "BBinder_fields = IBinder_fields @ [Word_field, Int16, Bool_field, Bool_field, LP64_only Int32]"

definition KernelFields :: cfield where
  "KernelFields = Struct_field [Word_field, Word_field, Word_field, Word_field, Word_field, Bool_field, Bool_field, Bool_field, Bool_field]"

definition RpcFields :: cfield where "RpcFields = Scalar 1"

text \<open>
  \<open>mError\<close>, \<open>mData\<close>, \<open>mDataSize\<close>, \<open>mDataCapacity\<close>, \<open>mDataPos\<close>, \<open>mVariantFields\<close>, \<open>mAllowFds\<close>,
  \<open>mDeallocZero\<close>, \<open>mEnforceNoDataAvail\<close>, \<open>mServiceFuzzing\<close>, \<open>mOwner\<close>, \<open>mReserved\<close>.
\<close>

definition Parcel_fields :: cfield where
  "Parcel_fields = Struct_field [Int32, Word_field, Word_field, Word_field, Word_field, Variant [KernelFields, RpcFields],
     Bool_field, Bool_field, Bool_field, Bool_field, Word_field, Word_field]"

section \<open>The static assertions\<close>

definition asserted_sizes :: "nat \<Rightarrow> nat \<times> nat \<times> nat" where
  "asserted_sizes P = (if P = 8 then (24, 40, 120) else (12, 20, 60))"

lemma static_assertions:
  assumes "P = 4 \<or> P = 8"
  shows "(virtual_RefBase P IBinder_fields, virtual_RefBase P BBinder_fields, fst (field_size P Parcel_fields)) = asserted_sizes P"
proof -
  have "(virtual_RefBase 4 IBinder_fields, virtual_RefBase 4 BBinder_fields, fst (field_size 4 Parcel_fields)) = asserted_sizes 4"
    and "(virtual_RefBase 8 IBinder_fields, virtual_RefBase 8 BBinder_fields, fst (field_size 8 Parcel_fields)) = asserted_sizes 8"
    by code_simp+
  then show ?thesis using assms by blast
qed

end
