(* ===== verification/Spec2Isabelle.thy ===== *)
theory Spec2Isabelle
  imports Session_Steps Service_Run Logging Initialisation Injection_Ends Parcel_Typing Parcel_Flatten Pointer_Moves Interfaces Strings Vectors Link_Stubs
    Class_Layout
begin

text \<open>
  A verification of the native code of TrickyStoreOSS, \<open>src/app/src/main/cpp\<close>.

  \<^bold>\<open>The program.\<close> The injector (\<open>inject/main.cpp\<close>, \<open>inject/utils.cpp\<close>) attaches to the keystore
  process with \<open>ptrace\<close>, hands it the descriptor of a library over a socket, makes it load the
  library and call its function \<open>entry\<close>, and detaches. In the process, \<open>binder_interceptor.cpp\<close>
  hooks \<open>ioctl\<close> of \<open>libbinder.so\<close>: after every \<open>BINDER_WRITE_READ\<close> it walks the commands the driver
  returned and redirects the transactions of registered objects, in place, to a stub object. The
  stub takes the original target from a queue of the thread and runs the transaction under the
  control of the registered interceptor, which sees request and reply and may change both. The
  Kotlin service registers its interceptors through the stub. Both programs scan
  \<open>/proc/<pid>/maps\<close> (\<open>maps/maps.cpp\<close>) or use its result, and rest on headers of the Android
  platform that are part of the repository: smart pointers, parcels, owners of descriptors.

  \<^bold>\<open>The theories\<close>, in the order of their dependence, with the code they model:
  \<^item> \<open>Prelude\<close>, \<open>Codec\<close>: names of the machine integers, little-endian bytes, byte memory; the
    interface \<open>fixed_codec\<close> of fixed-width encodings.
  \<^item> \<open>Android_Errors\<close> (\<open>utils/Errors.h\<close>), \<open>Binder_Uapi\<close> (\<open>linux/android/binder.h\<close>): status codes;
    structure layouts, ioctl, return and command codes, and the codecs of the structures the hook
    reads and writes.
  \<^item> \<open>Strong_Pointer\<close> (\<open>StrongPointer.h\<close>, \<open>LightRefBase.h\<close>), \<open>Weak_Pointer\<close> (\<open>wp<T>\<close> of \<open>RefBase.h\<close>),
    \<open>Type_Helpers\<close> (\<open>TypeHelpers.h\<close>), \<open>Pointer_Moves\<close> (converting members, arrays of pointers): every
    member of the smart pointers over the counting operations of the pointee; creating, copying
    and moving runs of objects; moving pointers keeps the names of references up to date.
  \<^item> \<open>Libbinder\<close>: what the program calls of \<open>libbinder.so\<close>, as a record of operations over a world
    \<open>'w\<close> and parcels \<open>'p\<close>; the codes of \<open>IBinder.h\<close>. \<open>Std_Map\<close>: \<open>std::map\<close> as a sorted sequence with
    positions as iterators, and the interface \<open>ordered_map\<close>.
  \<^item> \<open>Interceptor\<close>, \<open>Ioctl_Hook\<close> (\<open>binder_interceptor.cpp\<close>): \<open>BinderInterceptor\<close> with its registry,
    \<open>BinderStub\<close> with the queue of its thread, the pre/post protocol, the walk over the read buffer
    on byte memory, the replaced \<open>ioctl\<close>, and the set-up of the hook. Every copy and release of a
    smart pointer is an operation of the model, in the order of the code.
  \<^item> \<open>Trace\<close>, \<open>List_Library\<close>: observing the references and calls of the interceptor in a log; a
    concrete library on which the properties are evaluated.
  \<^item> \<open>Interceptor_Props\<close>, \<open>Interceptor_Refs\<close>, \<open>Hook_Props\<close>, \<open>Session\<close>, \<open>Initialisation\<close>: the registry
    refines a map; registration, hook and stub keep the balance of references; the stub's calls are
    those of a reference trace; the in-place walk refines a walk over the list of commands;
    \<open>Session\<close> composes registration, hook and delivery, on any number of threads and with any other
    activity in between, into a step relation and proves what holds in every reachable state.
  \<^item> \<open>Delivery_Steps\<close>, \<open>Interleaving\<close>, \<open>Session_Steps\<close> (\<open>binder_interceptor.cpp\<close> again): the walk over a buffer command
    by command, a delivery from one call or access to the registry to the next, and the proof that
    the parts make up the whole functions; a step relation in which the parts of all threads, nested
    deliveries and registrations interleave, with the balance of references, the order of delivery
    and the safety of every call proved at every point between two parts. \<open>Session_Steps\<close> shows that
    every run of \<open>Session\<close> is a run of \<open>Interleaving\<close>.
  \<^item> \<open>Wire\<close>, \<open>Interceptor_Service\<close>, \<open>Service_Props\<close>, \<open>Service_Run\<close> (\<open>interceptors/BinderInterceptor.kt\<close>): the
    other end of the protocol, in the service; what a parcel carries from one end to the other; and
    the two ends put together: the messages between them implement direct calls of the service's
    hooks, registrations and the backdoor arrive as they were sent, and a service that keeps the
    default hook leaves every transaction as it would be without the interceptor.
  \<^item> \<open>Unique_Fd\<close> (\<open>android-base/unique_fd.h\<close>, \<open>binder/unique_fd.h\<close>, \<open>UniqueFd\<close> of \<open>inject/utils.hpp\<close>):
    the three owners of descriptors, with \<open>errno\<close> and the fdsan tags, and the interface \<open>fd_owner\<close>.
  \<^item> \<open>Maps\<close>, \<open>Maps_Props\<close> (\<open>maps/maps.cpp\<close>): the scanner, directive by directive of its \<open>sscanf\<close>
    format; it inverts the format of the kernel.
  \<^item> \<open>Inject_Utils\<close>, \<open>Inject_Main\<close> (\<open>inject/utils.cpp\<close>, \<open>inject/main.cpp\<close>): access to memory and
    registers, symbol resolution, remote calls on x86_64, i386, aarch64 and arm, SELinux helpers,
    passing the descriptor, loading, attaching, \<open>main\<close>. System calls are a record \<open>kernel\<close>.
    \<open>Inject_Props\<close> proves the call frames of the four architectures through one interface
    \<open>stack_machine\<close>; \<open>Remote_Calls\<close> characterises what a remote call returns by an inductive account
    of the stops; \<open>Injection\<close> follows descriptors, tracing and registers through the whole
    injection; \<open>Injection_Run\<close> runs it in a small system, once with success and once without;
    \<open>Injection_Ends\<close> proves that it returns when the process makes only finitely many stops between
    two returns.
  \<^item> \<open>Parcel\<close>, \<open>Parcel_Members\<close>, \<open>Parcel_Layout\<close>, \<open>Parcel_Props\<close>, \<open>Parcel_Roundtrip\<close>,
    \<open>Parcel_Typing\<close> (\<open>binder/Parcel.h\<close>): the templates \<open>writeData\<close> and \<open>readData\<close> over a datatype of
    C++ types, their front ends, the documented layout, and the proofs that writing produces it,
    that reading inverts it, and that reading untrusted bytes gives well-typed values only.
    \<open>Parcel_Flatten\<close> proves the round trips of light flattenables and of the front ends.
  \<^item> \<open>Interfaces\<close> (\<open>binder/IInterface.h\<close>, \<open>IServiceManager.h\<close>, \<open>BpBinder.h\<close>, \<open>Status.h\<close>, \<open>RpcThreads.h\<close>): casts
    between binders and interfaces, service lookups and the balance of their references, the list
    of manual interfaces, status accessors, threads of a single-threaded build.
  \<^item> \<open>Strings\<close> (\<open>utils/String8.h\<close>, \<open>String16.h\<close>), \<open>Vectors\<close> (\<open>utils/Vector.h\<close>, \<open>VectorImpl.h\<close>): the inline
    members over the operations of \<open>libutils.so\<close> they call; strings are ordered lexicographically up
    to their first zero, compile-time strings hold their literal, vectors refine lists.
  \<^item> \<open>Link_Stubs\<close> (\<open>stub/stub_binder.cpp\<close>, \<open>stub_utils.cpp\<close>): the stub bodies, those the interceptor
    calls as an instance of \<open>libbinder_ops\<close>; a process in which they were not replaced is not
    intercepted. \<open>Class_Layout\<close> (\<open>Binder.h\<close>, \<open>RefBase.h\<close>, \<open>Parcel.h\<close>): the layout of the shared classes,
    field by field, has the sizes the static assertions of \<open>stub_binder.cpp\<close> demand.
  \<^item> \<open>Logging\<close> (\<open>logging/logging.cpp\<close>, \<open>logging.hpp\<close>): the macros, and that leaving them out of the
    other theories changes nothing the program reads.

  \<^bold>\<open>Correspondence.\<close> A definition has the name of the function it models; a member of a class takes
  the fields of the object as arguments and returns them. Structures are records, enumerations
  datatypes, integers words of their width. Failure is a status, an option or a boolean as in the
  code. \<open>None\<close> as the result of \<open>handleRegisterInterceptor\<close> is the end of the process, of the
  functions that wait for the traced process it is waiting for ever: the two waiting loops are
  partial functions, and \<open>post_call_iff_returned\<close> states exactly when they return and
  \<open>injector_terminates\<close> that \<open>main\<close> does under \<open>finitely_many_stops\<close>. All other loops
  are total: over lists, counters, or (\<open>process_commands\<close>, \<open>parse_commands\<close>, \<open>scan_lines\<close>) with a
  measure on the bytes left. No fuel is used. Lines that only log are left out.

  \<^bold>\<open>Hypotheses.\<close> Code that is not in the repository is an argument: the operations of
  \<open>libbinder.so\<close> and \<open>RefBase.cpp\<close> (\<open>libbinder_ops\<close>, \<open>refbase_ops\<close>), the hooking library
  (\<open>plti_ops\<close>), the kernel (\<open>kernel\<close>, \<open>sysabi\<close>), the primitive members of \<open>Parcel\<close> (\<open>parcel_ops\<close>), the
  methods of \<open>android.os.Parcel\<close> (\<open>java_parcel\<close>), the hooks of the service (\<open>service_ops\<close>), the log of the
  system (\<open>log_ops\<close>). What a
  property needs of them is a named predicate that states documented behaviour: \<open>weak_counting\<close>,
  \<open>fixed_refs\<close>, \<open>driver_names\<close>, \<open>driver_names_objects\<close>, \<open>writes_memory\<close>, \<open>descriptor_system\<close>, \<open>tracing_system\<close>,
  \<open>write_laws\<close>, \<open>read_laws\<close>, \<open>binders_not_null\<close>, \<open>service_counts\<close>, \<open>finitely_many_stops\<close>,
  \<open>string8_laws\<close>, \<open>string16_laws\<close>, \<open>vector_laws\<close>, \<open>native_laws\<close> and \<open>java_laws\<close> (a parcel carries the
  encodings of the values written, in order, up to \<open>parcel_limit\<close>), \<open>served_by\<close> (the driver carries
  a call to the service and its reply back), \<open>small_answers\<close>, \<open>small_replies\<close>; each has a witness on a
  concrete instance.

  \<^bold>\<open>Not modelled.\<close> The lock of the registry as an object: each section it guards is one atomic step, as
  the reader-writer lock makes it, and \<open>Interleaving\<close> interleaves such steps; what a called object
  does meanwhile comes before the step of the call. The race detector of \<open>sp<T>\<close>. What the injector
  reads of a crashed process only to log it. Declarations of \<open>libbinder\<close> and
  \<open>libutils\<close> without bodies, among them the storage behind strings and vectors and the marshalling of
  single values; members of \<open>Vector\<close> that take a \<open>SortedVector\<close>, whose header is not in the
  repository; output to streams. Of the Kotlin service only \<open>BinderInterceptor.kt\<close> is modelled:
  what its hooks decide, configuration and certificates are not. The build files and the scripts.

  \<^bold>\<open>Plan.\<close> Apart from what is named above, every function of the native code with a body of its own is
  modelled. Left to do, if
  \<open>Parcel.cpp\<close> or \<open>RefBase.cpp\<close> ever enter the repository: to replace the arguments \<open>parcel_ops\<close> and
  \<open>refbase_ops\<close> by models of them.
\<close>

end
